(* ===== verification/Prelude.thy ===== *)
theory Prelude
  imports Main "HOL-Library.Word"
begin

unbundle bit_operations_syntax

text \<open>
  The shared base of the development: the machine integer types of \<open>kern/lib/types.h\<close>,
  the constants of \<open>kern/lib/x86.h\<close>, the fault-and-state monad in which every kernel
  routine is written, its weakest-precondition calculus, the \<open>for\<close> loop over an index
  range, and the facts on words and functional arrays that the components share.

  A kernel routine that reads and writes the global state \<open>'s\<close> and returns an \<open>'a\<close> is a
  function \<open>'s \<Rightarrow> fault + 'a \<times> 's\<close>.  The left summand lists the ways a routine fails to
  return normally: it panics, it indexes an array out of bounds or follows a null pointer, it
  spins on a lock that nobody will release, it loops forever, or it goes to sleep waiting for
  another thread.
\<close>

section \<open>Collections of simplification rules\<close>

named_theorems kern_simps \<open>unfolding rules of kernel routines\<close>
named_theorems frame_simps \<open>what an operation leaves unchanged\<close>
named_theorems wp_simps \<open>weakest preconditions of the monad's combinators\<close>

section \<open>Machine integers and constants\<close>

type_synonym u8 = "8 word"
type_synonym u16 = "16 word"
type_synonym u32 = "32 word"
type_synonym u64 = "64 word"

definition NUM_CPUS :: u32 where "NUM_CPUS = 8"
definition NUM_IDS :: u32 where "NUM_IDS = 64"
definition MagicNumber :: u32 where "MagicNumber = 1048577"
definition MAX_CHILDREN :: u32 where "MAX_CHILDREN = 3"
definition PAGESIZE :: u32 where "PAGESIZE = 4096"
definition VM_USERLO :: u32 where "VM_USERLO = 0x40000000"
definition VM_USERHI :: u32 where "VM_USERHI = 0xF0000000"
definition VM_USERLO_PI :: u32 where "VM_USERLO_PI = VM_USERLO div PAGESIZE"
definition VM_USERHI_PI :: u32 where "VM_USERHI_PI = VM_USERHI div PAGESIZE"

lemma VM_PI_values: "VM_USERLO_PI = 0x40000" "VM_USERHI_PI = 0xF0000"
  by (simp_all add: VM_USERLO_PI_def VM_USERHI_PI_def VM_USERLO_def VM_USERHI_def PAGESIZE_def)

lemmas const_defs = NUM_CPUS_def NUM_IDS_def MagicNumber_def MAX_CHILDREN_def PAGESIZE_def
  VM_USERLO_def VM_USERHI_def

section \<open>Faults, and the state monad of kernel routines\<close>

datatype fault =
    Panic string   \<comment> \<open>\<open>KERN_PANIC\<close> or a failed \<open>KERN_ASSERT\<close>\<close>
  | OutOfBounds    \<comment> \<open>an index outside a static array\<close>
  | NullPointer    \<comment> \<open>a null pointer is followed\<close>
  | Spin           \<comment> \<open>a spin lock is already held: the caller busy-waits\<close>
  | Diverge        \<comment> \<open>a loop of the routine never ends\<close>
  | Blocked        \<comment> \<open>\<open>thread_sleep\<close>: the caller gives up the CPU until it is woken\<close>

type_synonym ('s, 'a) kern = "'s \<Rightarrow> fault + 'a \<times> 's"

definition returnK :: "'a \<Rightarrow> ('s, 'a) kern" where
  "returnK x s = Inr (x, s)"

definition faultK :: "fault \<Rightarrow> ('s, 'a) kern" where
  "faultK e s = Inl e"

definition bindK :: "('s, 'a) kern \<Rightarrow> ('a \<Rightarrow> ('s, 'b) kern) \<Rightarrow> ('s, 'b) kern" where
  "bindK m f s = (case m s of Inl e \<Rightarrow> Inl e | Inr (x, s') \<Rightarrow> f x s')"

definition seqK :: "('s, 'a) kern \<Rightarrow> ('s, 'b) kern \<Rightarrow> ('s, 'b) kern" where
  "seqK m n s = (case m s of Inl e \<Rightarrow> Inl e | Inr (x, s') \<Rightarrow> n s')"

text \<open>A call whose result is not used.\<close>

definition voidK :: "('s, 'a) kern \<Rightarrow> ('s, unit) kern" where
  "voidK m s = (case m s of Inl e \<Rightarrow> Inl e | Inr (x, s') \<Rightarrow> Inr ((), s'))"

definition readK :: "('s \<Rightarrow> 'a) \<Rightarrow> ('s, 'a) kern" where
  "readK f s = Inr (f s, s)"

definition modifyK :: "('s \<Rightarrow> 's) \<Rightarrow> ('s, unit) kern" where
  "modifyK f s = Inr ((), f s)"

definition whenK :: "bool \<Rightarrow> ('s, unit) kern \<Rightarrow> ('s, unit) kern" where
  "whenK b m s = (if b then m s else Inr ((), s))"

definition guardK :: "bool \<Rightarrow> fault \<Rightarrow> ('s, unit) kern" where
  "guardK b e s = (if b then Inr ((), s) else Inl e)"

text \<open>\<open>indexK i n m\<close> is \<open>m\<close>, an access at index \<open>i\<close> of an array of length \<open>n\<close>.\<close>

definition indexK :: "'i::linorder \<Rightarrow> 'i \<Rightarrow> ('s, 'a) kern \<Rightarrow> ('s, 'a) kern" where
  "indexK i n m s = (if i < n then m s else Inl OutOfBounds)"

text \<open>A statement sequence \<open>{ m1; m2; ... }\<close>.\<close>

primrec blockK :: "('s, unit) kern list \<Rightarrow> ('s, unit) kern" where
  "blockK [] = returnK ()"
| "blockK (m # ms) = seqK m (blockK ms)"

text \<open>\<open>for\<close> over a list of index values; an index range \<open>i = a; i < b; i++\<close> of
  \<^typ>\<open>u32\<close> is \<open>word_range a b\<close>.\<close>

primrec forK :: "'i list \<Rightarrow> ('i \<Rightarrow> ('s, unit) kern) \<Rightarrow> ('s, unit) kern" where
  "forK [] body = returnK ()"
| "forK (i # is) body = seqK (body i) (forK is body)"

definition word_range :: "'w::len word \<Rightarrow> 'w word \<Rightarrow> 'w word list" where
  "word_range a b = map word_of_nat [unat a ..< unat b]"

lemmas monad_defs = returnK_def faultK_def bindK_def seqK_def voidK_def readK_def modifyK_def whenK_def
  guardK_def indexK_def

declare monad_defs [kern_simps]

lemma bindK_assoc: "bindK (bindK m f) g = bindK m (\<lambda>x. bindK (f x) g)"
  by (rule ext) (simp add: bindK_def split: sum.splits prod.splits)

lemma seqK_bindK: "seqK m n = bindK m (\<lambda>_. n)"
  by (rule ext) (simp add: bindK_def seqK_def)

section \<open>Weakest preconditions (total correctness)\<close>

text \<open>\<open>wpK m Q s\<close>: started in \<open>s\<close>, the routine \<open>m\<close> returns normally, with a result and a
  final state that satisfy \<open>Q\<close>.\<close>

definition wpK :: "('s, 'a) kern \<Rightarrow> ('a \<Rightarrow> 's \<Rightarrow> bool) \<Rightarrow> 's \<Rightarrow> bool" where
  "wpK m Q s = (case m s of Inl e \<Rightarrow> False | Inr (x, s') \<Rightarrow> Q x s')"

lemma wpK_iff: "wpK m Q s \<longleftrightarrow> (\<exists>x s'. m s = Inr (x, s') \<and> Q x s')"
  by (auto simp: wpK_def split: sum.splits)

lemma wpK_Inr: "m s = Inr (x, s') \<Longrightarrow> wpK m Q s = Q x s'"
  by (simp add: wpK_def)

lemma wpK_returnK [wp_simps]: "wpK (returnK x) Q s = Q x s"
  by (simp add: wpK_def returnK_def)

lemma wpK_faultK [wp_simps]: "wpK (faultK e) Q s = False"
  by (simp add: wpK_def faultK_def)

lemma wpK_bindK [wp_simps]: "wpK (bindK m f) Q s = wpK m (\<lambda>x. wpK (f x) Q) s"
  by (simp add: wpK_def bindK_def split: sum.splits prod.splits)

lemma wpK_seqK [wp_simps]: "wpK (seqK m n) Q s = wpK m (\<lambda>x. wpK n Q) s"
  by (simp add: seqK_bindK wpK_bindK)

lemma wpK_voidK [wp_simps]: "wpK (voidK m) Q s = wpK m (\<lambda>_. Q ()) s"
  by (simp add: wpK_def voidK_def split: sum.splits prod.splits)

lemma wpK_readK [wp_simps]: "wpK (readK f) Q s = Q (f s) s"
  by (simp add: wpK_def readK_def)

lemma wpK_modifyK [wp_simps]: "wpK (modifyK f) Q s = Q () (f s)"
  by (simp add: wpK_def modifyK_def)

lemma wpK_whenK [wp_simps]: "wpK (whenK b m) Q s = (if b then wpK m Q s else Q () s)"
  by (simp add: wpK_def whenK_def)

lemma wpK_guardK [wp_simps]: "wpK (guardK b e) Q s = (b \<and> Q () s)"
  by (simp add: wpK_def guardK_def)

lemma wpK_indexK [wp_simps]: "wpK (indexK i n m) Q s = (i < n \<and> wpK m Q s)"
  by (simp add: wpK_def indexK_def)

lemma wpK_blockK_Nil [wp_simps]: "wpK (blockK []) Q s = Q () s"
  by (simp add: wpK_returnK)

lemma wpK_blockK_Cons [wp_simps]: "wpK (blockK (m # ms)) Q s = wpK m (\<lambda>_. wpK (blockK ms) Q) s"
  by (simp add: wpK_seqK)

lemma wpK_if [wp_simps]: "wpK (if b then m else n) Q s = (if b then wpK m Q s else wpK n Q s)"
  by simp

lemma wpK_mono:
  assumes "wpK m P s" and "\<And>x s'. P x s' \<Longrightarrow> Q x s'"
  shows "wpK m Q s"
  using assms by (auto simp: wpK_iff)

lemma wpK_conj: "wpK m P s \<Longrightarrow> wpK m Q s \<Longrightarrow> wpK m (\<lambda>x s'. P x s' \<and> Q x s') s"
  by (auto simp: wpK_iff)

lemma wpK_forK:
  assumes "I s"
    and "\<And>i s. i \<in> set is \<Longrightarrow> I s \<Longrightarrow> wpK (body i) (\<lambda>_. I) s"
  shows "wpK (forK is body) (\<lambda>_. I) s"
  using assms
proof (induction "is" arbitrary: s)
  case Nil
  then show ?case by (simp add: wpK_returnK)
next
  case (Cons i "is")
  have "wpK (body i) (\<lambda>_. I) s"
    using Cons.prems by simp
  then show ?case
    unfolding forK.simps wpK_seqK
    by (rule wpK_mono) (rule Cons.IH, auto intro: Cons.prems)
qed

text \<open>A loop whose body is a total state update is the fold of that update.\<close>

lemma forK_fold:
  assumes "\<And>i s. i \<in> set is \<Longrightarrow> P s \<Longrightarrow> body i s = Inr ((), upd i s) \<and> P (upd i s)"
    and "P s"
  shows "forK is body s = Inr ((), fold upd is s) \<and> P (fold upd is s)"
  using assms
proof (induction "is" arbitrary: s)
  case Nil
  then show ?case by (simp add: returnK_def)
next
  case (Cons i "is")
  then show ?case by (simp add: seqK_def)
qed

lemma forK_keeps:
  assumes "\<And>i s s'. body i s = Inr ((), s') \<Longrightarrow> f s' = f s" "forK is body s = Inr (x, s')"
  shows "f s' = f s"
  using assms(2)
proof (induction "is" arbitrary: s)
  case Nil
  then show ?case by (simp add: returnK_def)
next
  case (Cons i "is")
  then obtain t where "body i s = Inr ((), t)" "forK is body t = Inr (x, s')"
    by (auto simp: seqK_def split: sum.splits)
  then show ?case using Cons.IH [of t] assms(1) by simp
qed

lemma forK_append: "forK (xs @ ys) body = seqK (forK xs body) (forK ys body)"
  by (induction xs) (auto simp: fun_eq_iff seqK_def returnK_def split: sum.splits)

lemma forK_map: "forK (map f xs) body = forK xs (\<lambda>x. body (f x))"
  by (induction xs) simp_all

text \<open>Two nested loops run over the pairs of indices.\<close>

lemma forK_product: "forK xs (\<lambda>x. forK ys (body x)) = forK (List.product xs ys) (\<lambda>(x, y). body x y)"
  by (induction xs) (simp_all add: forK_append forK_map)

text \<open>\<open>n\<close> calls of a routine in a row, with their results.\<close>

primrec repeatK :: "nat \<Rightarrow> ('s, 'a) kern \<Rightarrow> ('s, 'a list) kern" where
  "repeatK 0 m = returnK []"
| "repeatK (Suc n) m = bindK m (\<lambda>x. bindK (repeatK n m) (\<lambda>xs. returnK (x # xs)))"

section \<open>Words\<close>

lemma unat_bound: "unat w < 2 ^ LENGTH('a)" for w :: "'a::len word"
  by (rule unsigned_less)

lemma sint_unat:
  fixes w :: u32
  assumes "unat w < 2 ^ 31"
  shows "sint w = int (unat w)"
proof -
  have u: "uint w = int (unat w)" by simp
  have "unat w < 2147483648" using assms by simp
  then have "uint w < 2147483648" using u by linarith
  then have "uint w < 2 ^ 31" by simp
  moreover have "- (2 ^ 31) \<le> uint w" by (rule order_trans [of _ 0]) simp_all
  ultimately have "signed_take_bit 31 (uint w) = uint w"
    by (intro signed_take_bit_int_eq_self)
  then have "sint w = uint w" by (simp add: sint_uint)
  then show ?thesis using u by linarith
qed

lemma sint_cmp_unat:
  fixes a b :: u32
  assumes "unat a < 2 ^ 31" "unat b < 2 ^ 31"
  shows "sint a \<le> sint b \<longleftrightarrow> a \<le> b" "sint a < sint b \<longleftrightarrow> a < b" "0 < sint a \<longleftrightarrow> 0 < a" "0 \<le> sint a"
proof -
  note s = sint_unat [OF assms(1)] sint_unat [OF assms(2)]
  have "sint a \<le> sint b \<longleftrightarrow> unat a \<le> unat b" "sint a < sint b \<longleftrightarrow> unat a < unat b"
    "0 < sint a \<longleftrightarrow> 0 < unat a" "0 \<le> sint a"
    using s by linarith+
  then show "sint a \<le> sint b \<longleftrightarrow> a \<le> b" "sint a < sint b \<longleftrightarrow> a < b" "0 < sint a \<longleftrightarrow> 0 < a" "0 \<le> sint a"
    by (simp_all add: word_le_nat_alt word_less_nat_alt)
qed

lemma unat_range_bound: "n < unat b \<Longrightarrow> n < 2 ^ LENGTH('a)" for b :: "'a::len word"
  by (meson less_trans unsigned_less)

lemma set_word_range: "set (word_range a b) = {x. a \<le> x \<and> x < b}"
proof -
  have "x \<in> word_of_nat ` {unat a ..< unat b}" if "a \<le> x" "x < b" for x :: "'a word"
  proof
    show "x = word_of_nat (unat x)" by simp
    show "unat x \<in> {unat a ..< unat b}"
      using that by (simp add: word_le_nat_alt word_less_nat_alt)
  qed
  moreover have "a \<le> word_of_nat n \<and> word_of_nat n < b" if "unat a \<le> n" "n < unat b" for n
  proof -
    have "unat (word_of_nat n :: 'a word) = n"
      using that unat_range_bound [of n b] by (simp add: unat_of_nat)
    then show ?thesis using that by (simp add: word_le_nat_alt word_less_nat_alt)
  qed
  ultimately show ?thesis by (auto simp: word_range_def)
qed

lemma distinct_word_range: "distinct (word_range a b)"
proof -
  have "inj_on (word_of_nat :: nat \<Rightarrow> 'a word) {unat a ..< unat b}"
  proof (rule inj_onI)
    fix m n
    assume mn: "m \<in> {unat a ..< unat b}" "n \<in> {unat a ..< unat b}"
      and eq: "word_of_nat m = (word_of_nat n :: 'a word)"
    have "unat (word_of_nat m :: 'a word) = m" "unat (word_of_nat n :: 'a word) = n"
      using mn unat_range_bound [of m b] unat_range_bound [of n b] by (simp_all add: unat_of_nat)
    with eq show "m = n" by metis
  qed
  then show ?thesis by (simp add: word_range_def distinct_map)
qed

lemma length_word_range: "length (word_range a b) = unat b - unat a"
  by (simp add: word_range_def)

section \<open>Lists and functional arrays\<close>

lemma radix_inj:
  fixes a b c d n :: nat
  assumes "a * n + b = c * n + d" "b < n" "d < n"
  shows "a = c \<and> b = d"
proof -
  have "(a * n + b) div n = (c * n + d) div n" "(a * n + b) mod n = (c * n + d) mod n"
    using assms(1) by simp_all
  with assms(2,3) show ?thesis by simp
qed

lemma fold_fun_upd_apply:
  "distinct is \<Longrightarrow>
   fold (\<lambda>i f. f(i := g i)) is f j = (if j \<in> set is then g j else f j)"
  by (induction "is" arbitrary: f) auto

lemma find_SomeD: "find P xs = Some x \<Longrightarrow> x \<in> set xs \<and> P x"
  by (auto simp: find_Some_iff)

lemma fun_upd_same_value: "f x = y \<Longrightarrow> f(x := y) = f"
  by (rule fun_upd_idem)

end
