(* ===== verification/Locks.thy ===== *)
theory Locks
  imports Prelude
begin

text \<open>
  CPUs and locks: the per-CPU table of \<open>kern/pcpu\<close>, the kernel stack record a CPU finds its own
  index in (\<open>kern/lib/kstack.c\<close>), the spin lock of \<open>kern/lib/spinlock.c\<close> and the reentrant lock
  of \<open>kern/lib/reentrant_lock.c\<close>.  The routines are given twice: as sequential kernel routines,
  which the other components call, and as an interleaving of single atomic instructions of
  several CPUs, on which mutual exclusion is proved.
\<close>

section \<open>State\<close>

record kstack =
  ks_cpu_idx :: u32
  ks_magic :: u32

record pcpu =
  inited :: bool
  booted :: bool
  kstack_ptr :: u32
  cpu_idx :: u32

record spinlock_t =
  lock_holder :: u32
  lock :: u32

text \<open>Every spin lock of the kernel, by the variable that holds it.\<close>

datatype lock_id =
    Mem_lk | Pt_lk | Container_lk u32 | Sched_lk | Bcache_lk | Inode_cache_lk
  | Ftable_lk | Log_lk | Ide_lk | Fs_lk | Cons_lk

record base =
  cur_kstack :: kstack             \<comment> \<open>the stack record at \<open>ROUNDDOWN(esp, KSTACK_SIZE)\<close>\<close>
  pcpu_tab :: "u32 \<Rightarrow> pcpu"
  locks :: "lock_id \<Rightarrow> spinlock_t"

definition KSTACK_MAGIC :: u32 where "KSTACK_MAGIC = 0x98765432"

text \<open>The boot processor on its own stack, with the static variables still zero.\<close>

definition base_start :: base where
  "base_start = \<lparr>cur_kstack = \<lparr>ks_cpu_idx = 0, ks_magic = KSTACK_MAGIC\<rparr>,
     pcpu_tab = (\<lambda>_. \<lparr>inited = False, booted = False, kstack_ptr = 0, cpu_idx = 0\<rparr>),
     locks = (\<lambda>_. \<lparr>lock_holder = 0, lock = 0\<rparr>)\<rparr>"

section \<open>The per-CPU table\<close>

definition get_kstack_cpu_idx :: "('a base_scheme, u32) kern" where
  "get_kstack_cpu_idx = readK (\<lambda>s. ks_cpu_idx (cur_kstack s))"

definition pcpu_set_zero :: "('a base_scheme, unit) kern" where
  "pcpu_set_zero = modifyK (\<lambda>s. s\<lparr>pcpu_tab := (\<lambda>i.
     if i < NUM_CPUS then \<lparr>inited = False, booted = False, kstack_ptr = 0, cpu_idx = 0\<rparr>
     else pcpu_tab s i)\<rparr>)"

definition pcpu_fields_init :: "u32 \<Rightarrow> ('a base_scheme, unit) kern" where
  "pcpu_fields_init i = indexK i NUM_CPUS (modifyK (\<lambda>s.
     s\<lparr>pcpu_tab := (pcpu_tab s)(i := (pcpu_tab s i)\<lparr>inited := True, cpu_idx := i\<rparr>)\<rparr>))"

definition get_pcpu_idx :: "('a base_scheme, u32) kern" where
  "get_pcpu_idx = bindK get_kstack_cpu_idx (\<lambda>i.
     indexK i NUM_CPUS (readK (\<lambda>s. cpu_idx (pcpu_tab s i))))"

definition set_pcpu_idx :: "u32 \<Rightarrow> u32 \<Rightarrow> ('a base_scheme, unit) kern" where
  "set_pcpu_idx i c = indexK i NUM_CPUS (modifyK (\<lambda>s.
     s\<lparr>pcpu_tab := (pcpu_tab s)(i := (pcpu_tab s i)\<lparr>cpu_idx := c\<rparr>)\<rparr>))"

definition get_pcpu_kstack_pointer :: "u32 \<Rightarrow> ('a base_scheme, u32) kern" where
  "get_pcpu_kstack_pointer i = indexK i NUM_CPUS (readK (\<lambda>s. kstack_ptr (pcpu_tab s i)))"

definition set_pcpu_kstack_pointer :: "u32 \<Rightarrow> u32 \<Rightarrow> ('a base_scheme, unit) kern" where
  "set_pcpu_kstack_pointer i ks = indexK i NUM_CPUS (modifyK (\<lambda>s.
     s\<lparr>pcpu_tab := (pcpu_tab s)(i := (pcpu_tab s i)\<lparr>kstack_ptr := ks\<rparr>)\<rparr>))"

definition get_pcpu_boot_info :: "u32 \<Rightarrow> ('a base_scheme, bool) kern" where
  "get_pcpu_boot_info i = indexK i NUM_CPUS (readK (\<lambda>s. booted (pcpu_tab s i)))"

definition set_pcpu_boot_info :: "u32 \<Rightarrow> bool \<Rightarrow> ('a base_scheme, unit) kern" where
  "set_pcpu_boot_info i b = indexK i NUM_CPUS (modifyK (\<lambda>s.
     s\<lparr>pcpu_tab := (pcpu_tab s)(i := (pcpu_tab s i)\<lparr>booted := b\<rparr>)\<rparr>))"

definition get_pcpu_inited_info :: "u32 \<Rightarrow> ('a base_scheme, bool) kern" where
  "get_pcpu_inited_info i = indexK i NUM_CPUS (readK (\<lambda>s. inited (pcpu_tab s i)))"

text \<open>The running CPU is known: the stack record is intact and the per-CPU entry is set up.\<close>

definition cpu_ok :: "'a base_scheme \<Rightarrow> bool" where
  "cpu_ok s \<longleftrightarrow> ks_magic (cur_kstack s) = KSTACK_MAGIC \<and>
     ks_cpu_idx (cur_kstack s) < NUM_CPUS \<and>
     cpu_idx (pcpu_tab s (ks_cpu_idx (cur_kstack s))) = ks_cpu_idx (cur_kstack s)"

definition this_cpu :: "'a base_scheme \<Rightarrow> u32" where
  "this_cpu s = ks_cpu_idx (cur_kstack s)"

lemma get_pcpu_idx_ok [kern_simps]: "cpu_ok s \<Longrightarrow> get_pcpu_idx s = Inr (this_cpu s, s)"
  by (simp add: get_pcpu_idx_def get_kstack_cpu_idx_def cpu_ok_def this_cpu_def monad_defs)

lemma this_cpu_less [simp]: "cpu_ok s \<Longrightarrow> this_cpu s < NUM_CPUS"
  by (simp add: cpu_ok_def this_cpu_def)

lemma cpu_ok_locks [simp]: "cpu_ok (s\<lparr>locks := l\<rparr>) = cpu_ok s" "this_cpu (s\<lparr>locks := l\<rparr>) = this_cpu s"
  by (simp_all add: cpu_ok_def this_cpu_def)

section \<open>Spin locks, sequentially\<close>

definition spinlock_init :: "lock_id \<Rightarrow> ('a base_scheme, unit) kern" where
  "spinlock_init lk = modifyK (\<lambda>s. s\<lparr>locks := (locks s)(lk :=
     \<lparr>lock_holder = NUM_CPUS + 1, lock = 0\<rparr>)\<rparr>)"

definition kstack_magic_assert :: "('a base_scheme, unit) kern" where
  "kstack_magic_assert s = guardK (ks_magic (cur_kstack s) = KSTACK_MAGIC)
     (Panic ''Kernel assertion failed: kstack->magic == KSTACK_MAGIC'') s"

definition spinlock_holding :: "lock_id \<Rightarrow> ('a base_scheme, bool) kern" where
  "spinlock_holding lk = bindK (readK (\<lambda>s. lock (locks s lk))) (\<lambda>l.
     if l = 0 then returnK False
     else seqK kstack_magic_assert
       (readK (\<lambda>s. lock_holder (locks s lk) = ks_cpu_idx (cur_kstack s))))"

text \<open>\<open>xchg(&lk->lock, v)\<close>: store \<open>v\<close>, return the old value, in one atomic step.\<close>

definition xchg_lock :: "lock_id \<Rightarrow> u32 \<Rightarrow> ('a base_scheme, u32) kern" where
  "xchg_lock lk v s = Inr (lock (locks s lk),
     s\<lparr>locks := (locks s)(lk := (locks s lk)\<lparr>lock := v\<rparr>)\<rparr>)"

definition set_lock_holder :: "lock_id \<Rightarrow> u32 \<Rightarrow> ('a base_scheme, unit) kern" where
  "set_lock_holder lk h = modifyK (\<lambda>s. s\<lparr>locks := (locks s)(lk := (locks s lk)\<lparr>lock_holder := h\<rparr>)\<rparr>)"

text \<open>In a sequential run nobody else changes the lock, so a first failed \<open>xchg\<close> is followed
  by failed ones forever.\<close>

definition spinlock_acquire :: "lock_id \<Rightarrow> ('a base_scheme, unit) kern" where
  "spinlock_acquire lk = bindK (xchg_lock lk 1) (\<lambda>old.
     if old \<noteq> 0 then faultK Spin
     else seqK kstack_magic_assert
       (bindK (readK (\<lambda>s. ks_cpu_idx (cur_kstack s))) (\<lambda>c. set_lock_holder lk c)))"

definition spinlock_try_acquire :: "lock_id \<Rightarrow> ('a base_scheme, u32) kern" where
  "spinlock_try_acquire lk = bindK (xchg_lock lk 1) (\<lambda>old_val.
     seqK (if old_val = 0
           then seqK kstack_magic_assert
             (bindK (readK (\<lambda>s. ks_cpu_idx (cur_kstack s))) (\<lambda>c. set_lock_holder lk c))
           else returnK ())
       (returnK old_val))"

definition spinlock_release :: "lock_id \<Rightarrow> ('a base_scheme, unit) kern" where
  "spinlock_release lk = seqK (set_lock_holder lk (NUM_CPUS + 1))
     (bindK (xchg_lock lk 0) (\<lambda>_. returnK ()))"

text \<open>The bracket \<open>acquire; ...; release\<close> around a body that does not return early.\<close>

definition critical :: "lock_id \<Rightarrow> ('a base_scheme, 'b) kern \<Rightarrow> ('a base_scheme, 'b) kern" where
  "critical lk m = seqK (spinlock_acquire lk)
     (bindK m (\<lambda>x. seqK (spinlock_release lk) (returnK x)))"

definition spin_free :: spinlock_t where
  "spin_free = \<lparr>lock_holder = NUM_CPUS + 1, lock = 0\<rparr>"

definition spin_held :: "u32 \<Rightarrow> spinlock_t" where
  "spin_held c = \<lparr>lock_holder = c, lock = 1\<rparr>"

definition take_lock :: "lock_id \<Rightarrow> 'a base_scheme \<Rightarrow> 'a base_scheme" where
  "take_lock lk s = s\<lparr>locks := (locks s)(lk := spin_held (this_cpu s))\<rparr>"

definition drop_lock :: "lock_id \<Rightarrow> 'a base_scheme \<Rightarrow> 'a base_scheme" where
  "drop_lock lk s = s\<lparr>locks := (locks s)(lk := spin_free)\<rparr>"

definition lock_free :: "lock_id \<Rightarrow> 'a base_scheme \<Rightarrow> bool" where
  "lock_free lk s \<longleftrightarrow> lock (locks s lk) = 0"

lemma spinlock_t_collapse:
  "(r::spinlock_t)\<lparr>lock := b, lock_holder := a\<rparr> = \<lparr>lock_holder = a, lock = b\<rparr>"
  "(r::spinlock_t)\<lparr>lock_holder := a, lock := b\<rparr> = \<lparr>lock_holder = a, lock = b\<rparr>"
  by (cases r; simp)+

lemma spinlock_acquire_free:
  "cpu_ok s \<Longrightarrow> lock_free lk s \<Longrightarrow> spinlock_acquire lk s = Inr ((), take_lock lk s)"
  by (simp add: spinlock_acquire_def kstack_magic_assert_def xchg_lock_def set_lock_holder_def
      monad_defs cpu_ok_def lock_free_def take_lock_def spin_held_def this_cpu_def
      spinlock_t_collapse)

lemma spinlock_acquire_held: "\<not> lock_free lk s \<Longrightarrow> spinlock_acquire lk s = Inl Spin"
  by (simp add: spinlock_acquire_def xchg_lock_def lock_free_def monad_defs)

lemma spinlock_release_eq: "spinlock_release lk s = Inr ((), drop_lock lk s)"
  by (simp add: spinlock_release_def set_lock_holder_def xchg_lock_def monad_defs drop_lock_def
      spin_free_def spinlock_t_collapse)

section \<open>The mutex interface\<close>

locale mutex =
  fixes acquire release :: "'l \<Rightarrow> ('s, unit) kern"
    and ok :: "'s \<Rightarrow> bool"
    and free :: "'l \<Rightarrow> 's \<Rightarrow> bool"
    and taken dropped :: "'l \<Rightarrow> 's \<Rightarrow> 's"
  assumes acquire_free: "ok s \<Longrightarrow> free l s \<Longrightarrow> acquire l s = Inr ((), taken l s)"
    and acquire_held: "\<not> free l s \<Longrightarrow> acquire l s = Inl Spin"
    and release_eq: "release l s = Inr ((), dropped l s)"
    and ok_taken: "ok s \<Longrightarrow> ok (taken l s)"
    and free_taken: "free l' (taken l s) \<longleftrightarrow> l' \<noteq> l \<and> free l' s"
    and free_dropped: "free l' (dropped l s) \<longleftrightarrow> l' = l \<or> free l' s"
begin

lemma self_deadlock: "ok s \<Longrightarrow> free l s \<Longrightarrow> seqK (acquire l) (acquire l) s = Inl Spin"
  by (simp add: seqK_def acquire_free acquire_held free_taken)

lemma bracket:
  assumes "ok s" "free l s" "m (taken l s) = Inr (x, s')"
  shows "seqK (acquire l) (bindK m (\<lambda>x. seqK (release l) (returnK x))) s = Inr (x, dropped l s')"
  using assms by (simp add: monad_defs acquire_free release_eq)

lemma bracket_reusable:
  assumes "ok s" "free l s" "m (taken l s) = Inr (x, s')"
    and "seqK (acquire l) (bindK m (\<lambda>x. seqK (release l) (returnK x))) s = Inr (x, t)"
  shows "free l t"
proof -
  have "t = dropped l s'"
    using assms(4) bracket [where m = m and x = x and s' = s', OF assms(1,2)] assms(3) by simp
  then show ?thesis by (simp add: free_dropped)
qed

lemma leak:
  assumes "ok s" "free l s" "m (taken l s) = Inr (x, s')" "\<not> free l s'"
  shows "bindK (seqK (acquire l) m) (\<lambda>_. acquire l) s = Inl Spin"
  using assms by (simp add: monad_defs acquire_free acquire_held)

end

interpretation spin: mutex spinlock_acquire spinlock_release cpu_ok lock_free take_lock drop_lock
proof unfold_locales
  fix s :: "'a base_scheme" and l l'
  show "cpu_ok s \<Longrightarrow> cpu_ok (take_lock l s)"
    by (simp add: take_lock_def)
  show "lock_free l' (take_lock l s) = (l' \<noteq> l \<and> lock_free l' s)"
    by (simp add: lock_free_def take_lock_def spin_held_def)
  show "lock_free l' (drop_lock l s) = (l' = l \<or> lock_free l' s)"
    by (simp add: lock_free_def drop_lock_def spin_free_def)
qed (rule spinlock_acquire_free spinlock_acquire_held spinlock_release_eq; assumption)+

lemma critical_spec:
  assumes "cpu_ok s" "lock_free lk s" "m (take_lock lk s) = Inr (x, s')"
  shows "critical lk m s = Inr (x, drop_lock lk s')"
  unfolding critical_def using assms by (rule spin.bracket)

lemma wpK_critical [wp_simps]:
  assumes "cpu_ok s" "lock_free lk s"
  shows "wpK (critical lk m) Q s = wpK m (\<lambda>x s'. Q x (drop_lock lk s')) (take_lock lk s)"
  using assms
  by (simp add: critical_def wp_simps wpK_def monad_defs spin.acquire_free spin.release_eq
      split: sum.splits prod.splits)

text \<open>Releasing gives the initial lock back.\<close>

lemma drop_take_lock: "locks s lk = spin_free \<Longrightarrow> drop_lock lk (take_lock lk s) = s"
  by (simp add: drop_lock_def take_lock_def fun_upd_same_value)

lemma drop_lock_idle: "locks s lk = spin_free \<Longrightarrow> drop_lock lk s = s"
  by (simp add: drop_lock_def fun_upd_same_value)

lemma lock_free_spin_free: "locks s lk = spin_free \<Longrightarrow> lock_free lk s"
  by (simp add: lock_free_def spin_free_def)


section \<open>Spin locks, interleaved\<close>

text \<open>
  One spin lock and the CPUs \<open>0 .. NUM_CPUS - 1\<close>.  The program counter of a CPU names its next
  instruction in \<open>spinlock_acquire_A\<close> or \<open>spinlock_release_A\<close>; each rule is one instruction.
\<close>

datatype spin_pc =
    Outside          \<comment> \<open>not using the lock\<close>
  | AtXchg           \<comment> \<open>\<open>while (xchg(&lk->lock, 1) != 0) pause();\<close>\<close>
  | AtSetHolder      \<comment> \<open>\<open>lk->lock_holder = kstack->cpu_idx;\<close>\<close>
  | Critical         \<comment> \<open>\<open>spinlock_acquire_A\<close> has returned\<close>
  | AtClearHolder    \<comment> \<open>\<open>lk->lock_holder = NUM_CPUS + 1;\<close>\<close>
  | AtUnlock         \<comment> \<open>\<open>xchg(&lk->lock, 0);\<close>\<close>

record spin_sys =
  spin_pcs :: "u32 \<Rightarrow> spin_pc"
  spin_lk :: spinlock_t

definition spin_start :: spin_sys where
  "spin_start = \<lparr>spin_pcs = (\<lambda>_. Outside), spin_lk = \<lparr>lock_holder = NUM_CPUS + 1, lock = 0\<rparr>\<rparr>"

inductive spin_step :: "spin_sys \<Rightarrow> spin_sys \<Rightarrow> bool" where
  call_acquire: "c < NUM_CPUS \<Longrightarrow> spin_pcs s c = Outside \<Longrightarrow>
     spin_step s (s\<lparr>spin_pcs := (spin_pcs s)(c := AtXchg)\<rparr>)"
| xchg_fails: "c < NUM_CPUS \<Longrightarrow> spin_pcs s c = AtXchg \<Longrightarrow> lock (spin_lk s) \<noteq> 0 \<Longrightarrow>
     spin_step s (s\<lparr>spin_lk := (spin_lk s)\<lparr>lock := 1\<rparr>\<rparr>)"
| xchg_succeeds: "c < NUM_CPUS \<Longrightarrow> spin_pcs s c = AtXchg \<Longrightarrow> lock (spin_lk s) = 0 \<Longrightarrow>
     spin_step s (s\<lparr>spin_pcs := (spin_pcs s)(c := AtSetHolder), spin_lk := (spin_lk s)\<lparr>lock := 1\<rparr>\<rparr>)"
| set_holder: "c < NUM_CPUS \<Longrightarrow> spin_pcs s c = AtSetHolder \<Longrightarrow>
     spin_step s (s\<lparr>spin_pcs := (spin_pcs s)(c := Critical),
                    spin_lk := (spin_lk s)\<lparr>lock_holder := c\<rparr>\<rparr>)"
| call_release: "c < NUM_CPUS \<Longrightarrow> spin_pcs s c = Critical \<Longrightarrow>
     spin_step s (s\<lparr>spin_pcs := (spin_pcs s)(c := AtClearHolder)\<rparr>)"
| clear_holder: "c < NUM_CPUS \<Longrightarrow> spin_pcs s c = AtClearHolder \<Longrightarrow>
     spin_step s (s\<lparr>spin_pcs := (spin_pcs s)(c := AtUnlock),
                    spin_lk := (spin_lk s)\<lparr>lock_holder := NUM_CPUS + 1\<rparr>\<rparr>)"
| unlock: "c < NUM_CPUS \<Longrightarrow> spin_pcs s c = AtUnlock \<Longrightarrow>
     spin_step s (s\<lparr>spin_pcs := (spin_pcs s)(c := Outside), spin_lk := (spin_lk s)\<lparr>lock := 0\<rparr>\<rparr>)"

inductive spin_reachable :: "spin_sys \<Rightarrow> bool" where
  start: "spin_reachable spin_start"
| step: "spin_reachable s \<Longrightarrow> spin_step s t \<Longrightarrow> spin_reachable t"

definition owning :: "spin_pc \<Rightarrow> bool" where
  "owning p \<longleftrightarrow> p \<in> {AtSetHolder, Critical, AtClearHolder, AtUnlock}"

text \<open>Either the lock is free and nobody owns it, or exactly one CPU owns it; the recorded
  holder is that CPU between the two writes of it.\<close>

definition spin_owned_by :: "spin_sys \<Rightarrow> u32 \<Rightarrow> bool" where
  "spin_owned_by s c \<longleftrightarrow> lock (spin_lk s) \<noteq> 0 \<and> owning (spin_pcs s c) \<and>
     (\<forall>d. d \<noteq> c \<longrightarrow> \<not> owning (spin_pcs s d)) \<and>
     lock_holder (spin_lk s) =
       (if spin_pcs s c = Critical \<or> spin_pcs s c = AtClearHolder then c else NUM_CPUS + 1)"

definition spin_unowned :: "spin_sys \<Rightarrow> bool" where
  "spin_unowned s \<longleftrightarrow> lock (spin_lk s) = 0 \<and> lock_holder (spin_lk s) = NUM_CPUS + 1 \<and>
     (\<forall>d. \<not> owning (spin_pcs s d))"

definition spin_inv :: "spin_sys \<Rightarrow> bool" where
  "spin_inv s \<longleftrightarrow> spin_unowned s \<or> (\<exists>c. spin_owned_by s c)"

lemma owning_simps [simp]:
  "\<not> owning Outside" "\<not> owning AtXchg" "owning AtSetHolder" "owning Critical"
  "owning AtClearHolder" "owning AtUnlock"
  by (simp_all add: owning_def)

lemma spin_inv_start: "spin_inv spin_start"
  by (simp add: spin_inv_def spin_unowned_def spin_start_def)

lemma spin_owner:
  assumes "spin_inv s" "owning (spin_pcs s c)"
  shows "spin_owned_by s c"
proof -
  from assms obtain w where w: "spin_owned_by s w"
    by (auto simp: spin_inv_def spin_unowned_def)
  with assms(2) have "c = w" by (auto simp: spin_owned_by_def)
  with w show ?thesis by simp
qed

lemma spin_step_inv: "spin_step s t \<Longrightarrow> spin_inv s \<Longrightarrow> spin_inv t"
proof (induction rule: spin_step.induct)
  case (call_acquire c s)
  from call_acquire(3) show ?case
    unfolding spin_inv_def
  proof
    assume "spin_unowned s"
    then show "spin_unowned (s\<lparr>spin_pcs := (spin_pcs s)(c := AtXchg)\<rparr>) \<or>
        (\<exists>d. spin_owned_by (s\<lparr>spin_pcs := (spin_pcs s)(c := AtXchg)\<rparr>) d)"
      by (simp add: spin_unowned_def)
  next
    assume "\<exists>c. spin_owned_by s c"
    then obtain w where "spin_owned_by s w" ..
    with call_acquire have "spin_owned_by (s\<lparr>spin_pcs := (spin_pcs s)(c := AtXchg)\<rparr>) w"
      by (auto simp: spin_owned_by_def)
    then show "spin_unowned (s\<lparr>spin_pcs := (spin_pcs s)(c := AtXchg)\<rparr>) \<or>
        (\<exists>d. spin_owned_by (s\<lparr>spin_pcs := (spin_pcs s)(c := AtXchg)\<rparr>) d)"
      by blast
  qed
next
  case (xchg_fails c s)
  then obtain w where "spin_owned_by s w"
    by (auto simp: spin_inv_def spin_unowned_def)
  then have "spin_owned_by (s\<lparr>spin_lk := (spin_lk s)\<lparr>lock := 1\<rparr>\<rparr>) w"
    by (simp add: spin_owned_by_def)
  then show ?case by (auto simp: spin_inv_def)
next
  case (xchg_succeeds c s)
  then have "spin_unowned s"
    by (auto simp: spin_inv_def spin_owned_by_def)
  then have "spin_owned_by (s\<lparr>spin_pcs := (spin_pcs s)(c := AtSetHolder),
      spin_lk := (spin_lk s)\<lparr>lock := 1\<rparr>\<rparr>) c"
    by (simp add: spin_owned_by_def spin_unowned_def)
  then show ?case by (auto simp: spin_inv_def)
next
  case (set_holder c s)
  then have "spin_owned_by s c" by (simp add: spin_owner)
  with set_holder have "spin_owned_by (s\<lparr>spin_pcs := (spin_pcs s)(c := Critical),
      spin_lk := (spin_lk s)\<lparr>lock_holder := c\<rparr>\<rparr>) c"
    by (simp add: spin_owned_by_def)
  then show ?case by (auto simp: spin_inv_def)
next
  case (call_release c s)
  then have "spin_owned_by s c" by (simp add: spin_owner)
  with call_release have "spin_owned_by (s\<lparr>spin_pcs := (spin_pcs s)(c := AtClearHolder)\<rparr>) c"
    by (simp add: spin_owned_by_def)
  then show ?case by (auto simp: spin_inv_def)
next
  case (clear_holder c s)
  then have "spin_owned_by s c" by (simp add: spin_owner)
  with clear_holder have "spin_owned_by (s\<lparr>spin_pcs := (spin_pcs s)(c := AtUnlock),
      spin_lk := (spin_lk s)\<lparr>lock_holder := NUM_CPUS + 1\<rparr>\<rparr>) c"
    by (simp add: spin_owned_by_def)
  then show ?case by (auto simp: spin_inv_def)
next
  case (unlock c s)
  then have "spin_owned_by s c" by (simp add: spin_owner)
  with unlock have "spin_unowned (s\<lparr>spin_pcs := (spin_pcs s)(c := Outside),
      spin_lk := (spin_lk s)\<lparr>lock := 0\<rparr>\<rparr>)"
    by (auto simp: spin_owned_by_def spin_unowned_def)
  then show ?case by (simp add: spin_inv_def)
qed

lemma spin_reachable_inv: "spin_reachable s \<Longrightarrow> spin_inv s"
  by (induction rule: spin_reachable.induct) (auto intro: spin_inv_start spin_step_inv)

section \<open>Reentrant locks\<close>

record reentrantlock =
  rlock :: u32
  rcount :: u32

definition UNLOCKED :: u32 where "UNLOCKED = 0xFFFFFFFF"

definition reentrantlock_init :: "reentrantlock \<Rightarrow> reentrantlock" where
  "reentrantlock_init lk = lk\<lparr>rlock := UNLOCKED, rcount := 0\<rparr>"

definition reentrantlock_holding :: "reentrantlock \<Rightarrow> bool" where
  "reentrantlock_holding lk \<longleftrightarrow> rcount lk > 0"

text \<open>\<open>cmpxchg(&lk->lock, oldval, newval)\<close> on the lock word, atomically.\<close>

definition cmpxchg_rlock :: "u32 \<Rightarrow> u32 \<Rightarrow> reentrantlock \<Rightarrow> u32 \<times> reentrantlock" where
  "cmpxchg_rlock oldval newval lk =
     (rlock lk, if rlock lk = oldval then lk\<lparr>rlock := newval\<rparr> else lk)"

definition reentrantlock_try_acquire :: "u32 \<Rightarrow> reentrantlock \<Rightarrow> u32 \<times> reentrantlock" where
  "reentrantlock_try_acquire cpuid lk =
     (let (lv, lk') = cmpxchg_rlock UNLOCKED cpuid lk in
      if lv = cpuid \<or> lv = UNLOCKED then (1, lk'\<lparr>rcount := rcount lk' + 1\<rparr>) else (0, lk'))"

text \<open>\<open>reentrantlock_acquire\<close> repeats the attempt; if the first one fails and nobody else runs,
  it spins forever.\<close>

definition reentrantlock_acquire :: "u32 \<Rightarrow> reentrantlock \<Rightarrow> fault + unit \<times> reentrantlock" where
  "reentrantlock_acquire cpuid lk =
     (let (lv, lk') = cmpxchg_rlock UNLOCKED cpuid lk in
      if lv \<noteq> cpuid \<and> lv \<noteq> UNLOCKED then Inl Spin else Inr ((), lk'\<lparr>rcount := rcount lk' + 1\<rparr>))"

definition reentrantlock_release :: "reentrantlock \<Rightarrow> reentrantlock" where
  "reentrantlock_release lk =
     (let lk' = lk\<lparr>rcount := rcount lk - 1\<rparr> in
      if rcount lk' = 0 then lk'\<lparr>rlock := UNLOCKED\<rparr> else lk')"

text \<open>\<open>n\<close> nested acquisitions, and \<open>n\<close> releases.\<close>

primrec racquire_n :: "nat \<Rightarrow> u32 \<Rightarrow> reentrantlock \<Rightarrow> fault + unit \<times> reentrantlock" where
  "racquire_n 0 c = returnK ()"
| "racquire_n (Suc n) c = seqK (reentrantlock_acquire c) (racquire_n n c)"

definition rheld :: "u32 \<Rightarrow> nat \<Rightarrow> reentrantlock" where
  "rheld c n = \<lparr>rlock = (if n = 0 then UNLOCKED else c), rcount = word_of_nat n\<rparr>"

lemma reentrantlock_acquire_held: "reentrantlock_acquire c (rheld c n) = Inr ((), rheld c (Suc n))"
  by (auto simp: reentrantlock_acquire_def cmpxchg_rlock_def rheld_def)

lemma racquire_n_held: "racquire_n n c (rheld c k) = Inr ((), rheld c (k + n))"
  by (induction n arbitrary: k) (simp_all add: monad_defs reentrantlock_acquire_held)

lemma reentrantlock_release_held:
  assumes "Suc n < 2 ^ 32"
  shows "reentrantlock_release (rheld c (Suc n)) = rheld c n"
proof -
  have "(word_of_nat n :: u32) = 0 \<longleftrightarrow> n = 0"
    using assms by (auto simp: word_of_nat_eq_0_iff dest: dvd_imp_le)
  then show ?thesis by (simp add: reentrantlock_release_def rheld_def Let_def)
qed

lemma release_n_held:
  "n < 2 ^ 32 \<Longrightarrow> m \<le> n \<Longrightarrow> (reentrantlock_release ^^ m) (rheld c n) = rheld c (n - m)"
proof (induction m)
  case (Suc m)
  then have "n - m = Suc (n - Suc m)" by simp
  with Suc show ?case using reentrantlock_release_held [of "n - Suc m" c] by simp
qed simp

lemma other_cpu_excluded:
  assumes "d \<noteq> c" "c \<noteq> UNLOCKED" "0 < n"
  shows "reentrantlock_acquire d (rheld c n) = Inl Spin"
    "reentrantlock_try_acquire d (rheld c n) = (0, rheld c n)"
  using assms
  by (simp_all add: reentrantlock_acquire_def reentrantlock_try_acquire_def cmpxchg_rlock_def rheld_def)

section \<open>Properties\<close>

text \<open>C1: in every reachable interleaving of CPUs that acquire and release one spin lock, at most
  one CPU is past \<open>spinlock_acquire\<close>; the lock then records it as the holder, and the lock
  word is zero exactly when no CPU owns the lock, so that no release is ever lost.\<close>

theorem spinlock_mutual_exclusion:
  assumes "spin_reachable s"
  shows "(\<forall>c d. spin_pcs s c = Critical \<and> spin_pcs s d = Critical \<longrightarrow> c = d) \<and>
    (\<forall>c. spin_pcs s c = Critical \<longrightarrow> lock_holder (spin_lk s) = c \<and> lock (spin_lk s) \<noteq> 0) \<and>
    (lock (spin_lk s) = 0 \<longleftrightarrow> (\<forall>c. \<not> owning (spin_pcs s c)))"
proof -
  note inv = spin_reachable_inv [OF assms]
  have own: "spin_owned_by s c" if "spin_pcs s c = Critical" for c
    using spin_owner [OF inv, of c] that by simp
  have "c = d" if "spin_pcs s c = Critical" "spin_pcs s d = Critical" for c d
    using own [OF that(1)] that(2) by (auto simp: spin_owned_by_def)
  moreover have "lock (spin_lk s) = 0 \<longleftrightarrow> (\<forall>c. \<not> owning (spin_pcs s c))"
    using inv by (auto simp: spin_inv_def spin_unowned_def spin_owned_by_def)
  ultimately show ?thesis
    using own by (auto simp: spin_owned_by_def)
qed

text \<open>CPU 0 has the lock, CPU 1 spins on it.\<close>

definition spin_demo :: spin_sys where
  "spin_demo = \<lparr>spin_pcs = (\<lambda>c. if c = 0 then Critical else if c = 1 then AtXchg else Outside),
     spin_lk = \<lparr>lock_holder = 0, lock = 1\<rparr>\<rparr>"

lemma spin_demo_reachable: "spin_reachable spin_demo"
proof -
  let ?s1 = "spin_start\<lparr>spin_pcs := (spin_pcs spin_start)(0 := AtXchg)\<rparr>"
  let ?s2 = "?s1\<lparr>spin_pcs := (spin_pcs ?s1)(0 := AtSetHolder), spin_lk := (spin_lk ?s1)\<lparr>lock := 1\<rparr>\<rparr>"
  let ?s3 = "?s2\<lparr>spin_pcs := (spin_pcs ?s2)(0 := Critical), spin_lk := (spin_lk ?s2)\<lparr>lock_holder := 0\<rparr>\<rparr>"
  let ?s4 = "?s3\<lparr>spin_pcs := (spin_pcs ?s3)(1 := AtXchg)\<rparr>"
  have "spin_reachable ?s1"
    by (rule spin_reachable.step [OF spin_reachable.start spin_step.call_acquire])
      (simp_all add: NUM_CPUS_def spin_start_def)
  then have "spin_reachable ?s2"
    by (rule spin_reachable.step [OF _ spin_step.xchg_succeeds]) (simp_all add: NUM_CPUS_def spin_start_def)
  then have "spin_reachable ?s3"
    by (rule spin_reachable.step [OF _ spin_step.set_holder]) (simp_all add: NUM_CPUS_def)
  then have "spin_reachable ?s4"
    by (rule spin_reachable.step [OF _ spin_step.call_acquire]) (simp_all add: NUM_CPUS_def spin_start_def)
  moreover have "?s4 = spin_demo"
    by (auto simp: spin_demo_def spin_start_def fun_eq_iff)
  ultimately show ?thesis by simp
qed

theorem spinlock_mutual_exclusion_witness:
  "spin_pcs spin_demo 0 = Critical \<and> spin_pcs spin_demo 1 = AtXchg \<and>
   lock_holder (spin_lk spin_demo) = 0 \<and> lock (spin_lk spin_demo) \<noteq> 0"
proof -
  have pc: "spin_pcs spin_demo 0 = Critical" "spin_pcs spin_demo 1 = AtXchg"
    by (simp_all add: spin_demo_def)
  with spinlock_mutual_exclusion [OF spin_demo_reachable] show ?thesis by blast
qed

text \<open>C7: a reentrant lock that a CPU has acquired \<open>n\<close> times needs exactly \<open>n\<close> releases to be free
  again; until the last one every other CPU is kept out, both in \<open>reentrantlock_acquire\<close> and in
  \<open>reentrantlock_try_acquire\<close>.\<close>

theorem reentrantlock_nesting:
  assumes "n < 2 ^ 32" "c \<noteq> UNLOCKED" "d \<noteq> c"
  shows "racquire_n n c (reentrantlock_init lk) = Inr ((), rheld c n) \<and>
    (reentrantlock_release ^^ n) (rheld c n) = reentrantlock_init lk \<and>
    (\<forall>m < n. reentrantlock_acquire d ((reentrantlock_release ^^ m) (rheld c n)) = Inl Spin \<and>
      fst (reentrantlock_try_acquire d ((reentrantlock_release ^^ m) (rheld c n))) = 0)"
proof -
  have start: "reentrantlock_init lk = rheld c 0"
    by (simp add: reentrantlock_init_def rheld_def)
  show ?thesis
    using assms racquire_n_held [of n c 0]
    by (simp add: start release_n_held other_cpu_excluded)
qed

theorem reentrantlock_nesting_witness:
  "racquire_n 3 0 (reentrantlock_init \<lparr>rlock = 7, rcount = 7\<rparr>) = Inr ((), rheld 0 3) \<and>
   reentrantlock_acquire 1 (rheld 0 3) = Inl Spin"
proof -
  have *: "(3::nat) < 2 ^ 32" "(0::u32) \<noteq> UNLOCKED" "(1::u32) \<noteq> 0"
    by (simp_all add: UNLOCKED_def)
  note nest = reentrantlock_nesting [OF *, of "\<lparr>rlock = 7, rcount = 7\<rparr>"]
  from nest have "\<forall>m < 3. reentrantlock_acquire 1 ((reentrantlock_release ^^ m) (rheld 0 3)) = Inl Spin"
    by blast
  from this [rule_format, of 0] nest show ?thesis by simp
qed

end
