(* ===== verification/Mboot.thy ===== *)
theory Mboot
  imports Locks
begin

text \<open>
  The physical memory map, \<open>kern/dev/mboot.c\<close>: the boot loader's list of memory ranges is cut to
  32 bit addresses, inserted into a list ordered by start address, merged where adjacent entries
  of one type overlap, and split into one sublist per type.  The accessors \<open>get_size\<close>,
  \<open>get_mms\<close>, \<open>get_mml\<close> and \<open>is_usable\<close> are what the physical memory manager reads.
\<close>

section \<open>State\<close>

record pmmap =
  pm_start :: u32
  pm_end :: u32
  pm_type :: u32

text \<open>One entry of the boot loader's table (\<open>mboot_mmap_t\<close>).\<close>

record mboot_mmap =
  base_addr_low :: u32
  base_addr_high :: u32
  length_low :: u32
  length_high :: u32
  mm_type :: u32

definition MEM_RAM :: u32 where "MEM_RAM = 1"
definition MEM_RESERVED :: u32 where "MEM_RESERVED = 2"
definition MEM_ACPI :: u32 where "MEM_ACPI = 3"
definition MEM_NVS :: u32 where "MEM_NVS = 4"

record mboot = base +
  pmmap_slots_next_free :: nat
  pmmap_list :: "pmmap list"
  pmmap_sublist :: "nat \<Rightarrow> pmmap list"
  max_usable_memory :: u32
  mem_npages :: u32
  pmmap_nentries :: u32

section \<open>Building the map\<close>

text \<open>\<open>PMMAP_SUBLIST_NR\<close>; \<open>None\<close> is the macro's \<open>-1\<close>.\<close>

definition PMMAP_SUBLIST_NR :: "u32 \<Rightarrow> nat option" where
  "PMMAP_SUBLIST_NR t =
     (if t = MEM_RAM then Some 0 else if t = MEM_RESERVED then Some 1
      else if t = MEM_ACPI then Some 2 else if t = MEM_NVS then Some 3 else None)"

text \<open>\<open>pmmap_alloc_slot\<close>: hand out the next of 128 slots.\<close>

definition pmmap_alloc_slot :: "('a mboot_scheme, bool) kern" where
  "pmmap_alloc_slot s =
     (if pmmap_slots_next_free s = 128 then Inr (False, s)
      else Inr (True, s\<lparr>pmmap_slots_next_free := Suc (pmmap_slots_next_free s)\<rparr>))"

text \<open>The search for the last slot whose start is not above the new one, and the insertion
  after it (or at the head).\<close>

fun slist_insert_sorted :: "pmmap \<Rightarrow> pmmap list \<Rightarrow> pmmap list" where
  "slist_insert_sorted n [] = [n]"
| "slist_insert_sorted n (x # xs) =
     (if pm_start n < pm_start x then n # x # xs else x # slist_insert_sorted n xs)"

definition pmmap_insert :: "u32 \<Rightarrow> u32 \<Rightarrow> u32 \<Rightarrow> ('a mboot_scheme, unit) kern" where
  "pmmap_insert start en type = bindK pmmap_alloc_slot (\<lambda>ok.
     if \<not> ok then faultK (Panic ''More than 128 E820 entries.'')
     else modifyK (\<lambda>s. s\<lparr>pmmap_list := slist_insert_sorted
       \<lparr>pm_start = start, pm_end = en, pm_type = type\<rparr> (pmmap_list s)\<rparr>))"

text \<open>Step 1 of \<open>pmmap_merge\<close>.  A merged slot is not compared with the slot after the removed
  one: the loop moves on to that slot.\<close>

fun merge_overlapped :: "pmmap list \<Rightarrow> pmmap list" where
  "merge_overlapped (x # y # ys) =
     (if pm_start x \<le> pm_start y \<and> pm_end x \<ge> pm_start y \<and> pm_type x = pm_type y
      then x\<lparr>pm_end := max (pm_end x) (pm_end y)\<rparr> # merge_overlapped ys
      else x # merge_overlapped (y # ys))"
| "merge_overlapped xs = xs"

text \<open>Step 2 of \<open>pmmap_merge\<close>: append the slot to the list of its type.\<close>

definition add_to_sublist :: "pmmap \<Rightarrow> ('a mboot_scheme, unit) kern" where
  "add_to_sublist slot = (case PMMAP_SUBLIST_NR (pm_type slot) of
     None \<Rightarrow> faultK (Panic ''Kernel assertion failed: sublist_nr != -1'')
   | Some nr \<Rightarrow> modifyK (\<lambda>s. s\<lparr>pmmap_sublist :=
       (pmmap_sublist s)(nr := pmmap_sublist s nr @ [slot])\<rparr>))"

definition pmmap_merge :: "('a mboot_scheme, unit) kern" where
  "pmmap_merge = seqK (modifyK (\<lambda>s. s\<lparr>pmmap_list := merge_overlapped (pmmap_list s)\<rparr>))
     (bindK (readK pmmap_list) (\<lambda>slots.
     seqK (forK slots add_to_sublist)
       (modifyK (\<lambda>s. if pmmap_sublist s 0 \<noteq> []
          then s\<lparr>max_usable_memory := pm_end (last (pmmap_sublist s 0))\<rparr> else s))))"

text \<open>The range of a table entry, cut at 4 GB; entries above 4 GB are skipped.\<close>

definition mmap_range :: "mboot_mmap \<Rightarrow> (u32 \<times> u32) option" where
  "mmap_range p =
     (if base_addr_high p \<noteq> 0 then None
      else let start = base_addr_low p in
        Some (start, if length_high p \<noteq> 0 \<or> length_low p \<ge> 0xffffffff - start
                     then 0xffffffff else start + length_low p))"

definition insert_mmap_entry :: "mboot_mmap \<Rightarrow> ('a mboot_scheme, unit) kern" where
  "insert_mmap_entry p = (case mmap_range p of
     None \<Rightarrow> returnK ()
   | Some (start, en) \<Rightarrow> pmmap_insert start en (mm_type p))"

definition rounddown :: "u32 \<Rightarrow> u32 \<Rightarrow> u32" where
  "rounddown a n = a - a mod n"

text \<open>\<open>pmmap_init\<close> on the entries of the boot loader's table; \<open>pmmap_dump\<close> only prints.\<close>

definition pmmap_init :: "mboot_mmap list \<Rightarrow> ('a mboot_scheme, unit) kern" where
  "pmmap_init mmap = blockK
     [modifyK (\<lambda>s. s\<lparr>pmmap_list := [], pmmap_sublist := (pmmap_sublist s)(0 := [], 1 := [], 2 := [], 3 := [])\<rparr>),
      forK mmap insert_mmap_entry,
      pmmap_merge,
      modifyK (\<lambda>s. s\<lparr>pmmap_nentries := pmmap_nentries s + word_of_nat (length (pmmap_list s))\<rparr>),
      modifyK (\<lambda>s. s\<lparr>mem_npages := rounddown (max_usable_memory s) PAGESIZE div PAGESIZE\<rparr>)]"

section \<open>Reading the map\<close>

definition get_size :: "'a mboot_scheme \<Rightarrow> u32" where
  "get_size s = pmmap_nentries s"

text \<open>The loop of the accessors: the slot at an index, or \<open>NULL\<close>; an index equal to
  \<open>pmmap_nentries\<close> counts as \<open>NULL\<close> too.\<close>

definition nth_slot :: "'a mboot_scheme \<Rightarrow> u32 \<Rightarrow> pmmap option" where
  "nth_slot s idx =
     (if unat idx < length (pmmap_list s) \<and> idx \<noteq> pmmap_nentries s
      then Some (pmmap_list s ! unat idx) else None)"

definition get_mms :: "'a mboot_scheme \<Rightarrow> u32 \<Rightarrow> u32" where
  "get_mms s idx = (case nth_slot s idx of None \<Rightarrow> 0 | Some slot \<Rightarrow> pm_start slot)"

definition get_mml :: "'a mboot_scheme \<Rightarrow> u32 \<Rightarrow> u32" where
  "get_mml s idx = (case nth_slot s idx of None \<Rightarrow> 0 | Some slot \<Rightarrow> pm_end slot - pm_start slot)"

definition is_usable :: "'a mboot_scheme \<Rightarrow> u32 \<Rightarrow> u32" where
  "is_usable s idx = (case nth_slot s idx of None \<Rightarrow> 0
     | Some slot \<Rightarrow> if pm_type slot = MEM_RAM then 1 else 0)"

section \<open>The map covers exactly what the boot loader reported\<close>

definition sorted_slots :: "pmmap list \<Rightarrow> bool" where
  "sorted_slots xs \<longleftrightarrow> sorted (map pm_start xs)"

text \<open>Address \<open>a\<close> lies in a slot of type \<open>t\<close>.\<close>

definition covered :: "pmmap list \<Rightarrow> u32 \<Rightarrow> u32 \<Rightarrow> bool" where
  "covered xs t a \<longleftrightarrow> (\<exists>x \<in> set xs. pm_type x = t \<and> pm_start x \<le> a \<and> a < pm_end x)"

definition reported :: "mboot_mmap list \<Rightarrow> u32 \<Rightarrow> u32 \<Rightarrow> bool" where
  "reported mmap t a \<longleftrightarrow> (\<exists>p \<in> set mmap. \<exists>start en. mmap_range p = Some (start, en) \<and>
     mm_type p = t \<and> start \<le> a \<and> a < en)"

lemma set_slist_insert [simp]: "set (slist_insert_sorted n xs) = insert n (set xs)"
  by (induction xs) auto

lemma length_slist_insert [simp]: "length (slist_insert_sorted n xs) = Suc (length xs)"
  by (induction xs) auto

lemma sorted_slist_insert: "sorted_slots xs \<Longrightarrow> sorted_slots (slist_insert_sorted n xs)"
  by (induction xs) (fastforce simp: sorted_slots_def)+

lemma merge_overlapped_starts: "pm_start ` set (merge_overlapped xs) \<subseteq> pm_start ` set xs"
  by (induction xs rule: merge_overlapped.induct) auto

lemma sorted_slots_Cons:
  "sorted_slots (x # xs) \<longleftrightarrow> (\<forall>z \<in> set xs. pm_start x \<le> pm_start z) \<and> sorted_slots xs"
  by (simp add: sorted_slots_def)

lemma merge_overlapped_lower:
  assumes "\<forall>z \<in> set zs. b \<le> pm_start z"
  shows "\<forall>z \<in> set (merge_overlapped zs). b \<le> pm_start z"
proof
  fix z
  assume "z \<in> set (merge_overlapped zs)"
  then have "pm_start z \<in> pm_start ` set zs"
    using merge_overlapped_starts [of zs] by blast
  then show "b \<le> pm_start z"
    using assms by auto
qed

lemma sorted_merge_overlapped: "sorted_slots xs \<Longrightarrow> sorted_slots (merge_overlapped xs)"
proof (induction xs rule: merge_overlapped.induct)
  case (1 x y ys)
  then have "\<forall>z \<in> set (y # ys). pm_start x \<le> pm_start z" "sorted_slots (y # ys)" "sorted_slots ys"
    by (simp_all add: sorted_slots_Cons)
  moreover from this have
      "\<forall>z \<in> set (merge_overlapped (y # ys)). pm_start x \<le> pm_start z"
      "\<forall>z \<in> set (merge_overlapped ys). pm_start x \<le> pm_start z"
    by (intro merge_overlapped_lower; simp)+
  ultimately show ?case
    using 1 by (cases "pm_start x \<le> pm_start y \<and> pm_end x \<ge> pm_start y \<and> pm_type x = pm_type y")
      (simp_all add: sorted_slots_Cons del: merge_overlapped.simps add: merge_overlapped.simps(1) [of x y ys])
qed simp_all

lemma types_merge_overlapped: "pm_type ` set (merge_overlapped xs) \<subseteq> pm_type ` set xs"
  by (induction xs rule: merge_overlapped.induct) auto

lemma length_merge_overlapped: "length (merge_overlapped xs) \<le> length xs"
  by (induction xs rule: merge_overlapped.induct) auto

lemma covered_Cons: "covered (x # xs) t a \<longleftrightarrow>
    (pm_type x = t \<and> pm_start x \<le> a \<and> a < pm_end x) \<or> covered xs t a"
  by (simp add: covered_def)

lemma covered_merge_overlapped: "covered (merge_overlapped xs) t a = covered xs t a"
proof (induction xs rule: merge_overlapped.induct)
  case (1 x y ys)
  then show ?case
    by (auto simp: covered_Cons max_def split: if_splits)
qed (simp_all add: covered_def)

lemma covered_slist_insert: "covered (slist_insert_sorted n xs) t a \<longleftrightarrow>
    (pm_type n = t \<and> pm_start n \<le> a \<and> a < pm_end n) \<or> covered xs t a"
  by (simp add: covered_def)

text \<open>The invariant of the loop over the boot loader's table.\<close>

definition map_of_prefix :: "mboot_mmap list \<Rightarrow> 'a mboot_scheme \<Rightarrow> bool" where
  "map_of_prefix mmap s \<longleftrightarrow> sorted_slots (pmmap_list s) \<and>
     length (pmmap_list s) = pmmap_slots_next_free s \<and> pmmap_slots_next_free s \<le> length mmap \<and>
     (\<forall>t a. covered (pmmap_list s) t a = reported mmap t a) \<and>
     pm_type ` set (pmmap_list s) \<subseteq> mm_type ` set mmap"

lemma reported_snoc: "reported (mmap @ [p]) t a \<longleftrightarrow> reported mmap t a \<or>
    (\<exists>start en. mmap_range p = Some (start, en) \<and> mm_type p = t \<and> start \<le> a \<and> a < en)"
  by (auto simp: reported_def)

lemma insert_mmap_entry_prefix:
  assumes "map_of_prefix mmap s" "length mmap < 128"
  shows "wpK (insert_mmap_entry p) (\<lambda>_. map_of_prefix (mmap @ [p])) s"
proof (cases "mmap_range p")
  case None
  then show ?thesis
    using assms by (auto simp: insert_mmap_entry_def wp_simps map_of_prefix_def reported_snoc)
next
  case (Some r)
  obtain start en where r: "r = (start, en)" by (cases r)
  have "pmmap_slots_next_free s \<noteq> 128"
    using assms by (simp add: map_of_prefix_def)
  then show ?thesis
    using assms Some r
    by (auto simp: insert_mmap_entry_def pmmap_insert_def pmmap_alloc_slot_def wpK_def monad_defs
        map_of_prefix_def sorted_slist_insert covered_slist_insert reported_snoc)
qed

lemma insert_all_prefix:
  assumes "map_of_prefix done s" "length done + length rest \<le> 128"
  shows "wpK (forK rest insert_mmap_entry) (\<lambda>_. map_of_prefix (done @ rest)) s"
  using assms
proof (induction rest arbitrary: "done" s)
  case Nil
  then show ?case by (simp add: wp_simps)
next
  case (Cons p rest)
  have "wpK (insert_mmap_entry p) (\<lambda>_. map_of_prefix (done @ [p])) s"
    using Cons.prems by (intro insert_mmap_entry_prefix) auto
  then show ?case
    unfolding forK.simps wpK_seqK
    by (rule wpK_mono) (use Cons.IH [of "done @ [p]"] Cons.prems in simp)
qed

lemma add_to_sublists_keeps:
  assumes "\<forall>x \<in> set slots. PMMAP_SUBLIST_NR (pm_type x) \<noteq> None"
  shows "wpK (forK slots add_to_sublist)
    (\<lambda>_ s'. pmmap_list s' = pmmap_list s \<and> pmmap_nentries s' = pmmap_nentries s) s"
  by (rule wpK_forK) (use assms in \<open>auto simp: add_to_sublist_def wp_simps split: option.splits\<close>)

lemma map_of_prefix_start: "pmmap_slots_next_free s = 0 \<Longrightarrow> pmmap_list s = [] \<Longrightarrow> map_of_prefix [] s"
  by (simp add: map_of_prefix_def sorted_slots_def covered_def reported_def)

lemma insert_mmap_entry_nentries:
  "insert_mmap_entry p s = Inr (x, s') \<Longrightarrow> pmmap_nentries s' = pmmap_nentries s"
  by (auto simp: insert_mmap_entry_def pmmap_insert_def pmmap_alloc_slot_def monad_defs
      split: option.splits prod.splits if_splits)

definition wf_mmap :: "mboot_mmap list \<Rightarrow> bool" where
  "wf_mmap mmap \<longleftrightarrow> length mmap \<le> 128 \<and> (\<forall>p \<in> set mmap. PMMAP_SUBLIST_NR (mm_type p) \<noteq> None)"

text \<open>Every step of \<open>pmmap_init\<close> changes the variables of \<open>mboot.c\<close> only.\<close>

definition map_frame :: "'a mboot_scheme \<Rightarrow> 'a mboot_scheme \<Rightarrow> bool" where
  "map_frame s s' \<longleftrightarrow> s' = s\<lparr>pmmap_slots_next_free := pmmap_slots_next_free s',
     pmmap_list := pmmap_list s', pmmap_sublist := pmmap_sublist s',
     max_usable_memory := max_usable_memory s', mem_npages := mem_npages s',
     pmmap_nentries := pmmap_nentries s'\<rparr>"

lemma map_frame_refl: "map_frame s s"
  by (cases s) (simp add: map_frame_def)

lemma map_frame_iff: "map_frame s s' \<longleftrightarrow>
    base.truncate s = base.truncate s' \<and> mboot.more s = mboot.more s'"
  by (cases s; cases s') (auto simp: map_frame_def base.defs)

lemma map_frame_trans: "map_frame s t \<Longrightarrow> map_frame t u \<Longrightarrow> map_frame s u"
  by (simp add: map_frame_iff)

lemma map_frame_updates:
  "map_frame s (s\<lparr>pmmap_list := a\<rparr>)"
  "map_frame s (s\<lparr>pmmap_list := a, pmmap_sublist := b\<rparr>)"
  "map_frame s (s\<lparr>pmmap_nentries := c, mem_npages := d\<rparr>)"
  "map_frame s (s\<lparr>max_usable_memory := e, pmmap_nentries := c, mem_npages := d\<rparr>)"
  "map_frame s (s\<lparr>pmmap_slots_next_free := n, pmmap_list := a\<rparr>)"
  "map_frame s (s\<lparr>pmmap_sublist := b\<rparr>)"
  by (simp_all add: map_frame_iff base.defs)

lemma insert_mmap_entry_frame: "insert_mmap_entry p s = Inr (x, s') \<Longrightarrow> map_frame s s'"
  by (auto simp: insert_mmap_entry_def pmmap_insert_def pmmap_alloc_slot_def monad_defs
      map_frame_updates map_frame_refl split: option.splits prod.splits if_splits)

lemma add_to_sublist_frame: "add_to_sublist p s = Inr (x, s') \<Longrightarrow> map_frame s s'"
  by (auto simp: add_to_sublist_def monad_defs map_frame_updates split: option.splits)

lemma forK_map_frame:
  assumes "\<And>i s s'. body i s = Inr ((), s') \<Longrightarrow> map_frame s s'" "forK is body s = Inr (x, s')"
  shows "map_frame s s'"
proof -
  have "(base.truncate s', mboot.more s') = (base.truncate s, mboot.more s)"
    by (rule forK_keeps [where f = "\<lambda>s. (base.truncate s, mboot.more s)", OF _ assms(2)])
      (use assms(1) in \<open>auto simp: map_frame_iff\<close>)
  then show ?thesis by (simp add: map_frame_iff)
qed

text \<open>The map of the state is the boot loader's table.\<close>

definition map_ok :: "mboot_mmap list \<Rightarrow> 'a mboot_scheme \<Rightarrow> bool" where
  "map_ok mmap s \<longleftrightarrow> sorted_slots (pmmap_list s) \<and>
    (\<forall>t a. covered (pmmap_list s) t a = reported mmap t a) \<and>
    get_size s = word_of_nat (length (pmmap_list s)) \<and> length (pmmap_list s) \<le> 128"

lemma pmmap_init_run:
  assumes "wf_mmap mmap" "pmmap_slots_next_free s = 0" "pmmap_nentries s = 0"
  shows "\<exists>s'. pmmap_init mmap s = Inr ((), s') \<and> map_ok mmap s' \<and> map_frame s s'"
proof -
  let ?s0 = "s\<lparr>pmmap_list := [], pmmap_sublist := (pmmap_sublist s)(0 := [], 1 := [], 2 := [], 3 := [])\<rparr>"
  have "wpK (forK mmap insert_mmap_entry) (\<lambda>_. map_of_prefix mmap) ?s0"
    using insert_all_prefix [of "[]" ?s0 mmap] assms
    by (simp add: map_of_prefix_start wf_mmap_def)
  then obtain s1 where s1: "forK mmap insert_mmap_entry ?s0 = Inr ((), s1)" "map_of_prefix mmap s1"
    by (auto simp: wpK_iff)
  have n1: "pmmap_nentries s1 = 0"
    using forK_keeps [where f = pmmap_nentries, OF insert_mmap_entry_nentries s1(1)] assms(3) by simp
  let ?slots = "merge_overlapped (pmmap_list s1)"
  let ?s2 = "s1\<lparr>pmmap_list := ?slots\<rparr>"
  have "pm_type ` set ?slots \<subseteq> mm_type ` set mmap"
    by (rule subset_trans [OF types_merge_overlapped]) (use s1(2) in \<open>simp add: map_of_prefix_def\<close>)
  then have "\<forall>x \<in> set ?slots. PMMAP_SUBLIST_NR (pm_type x) \<noteq> None"
    using assms(1) by (auto simp: wf_mmap_def image_subset_iff)
  from add_to_sublists_keeps [OF this, of ?s2] obtain s3 where s3:
      "forK ?slots add_to_sublist ?s2 = Inr ((), s3)"
      "pmmap_list s3 = ?slots" "pmmap_nentries s3 = pmmap_nentries ?s2"
    by (auto simp: wpK_iff)
  have wf: "sorted_slots ?slots" "\<forall>t a. covered ?slots t a = reported mmap t a" "length ?slots \<le> 128"
    using s1(2) assms(1) length_merge_overlapped [of "pmmap_list s1"]
    by (auto simp: map_of_prefix_def wf_mmap_def sorted_merge_overlapped covered_merge_overlapped)
  have frame: "map_frame s s3"
  proof (rule map_frame_trans [of s s1])
    have "map_frame ?s0 s1"
      using forK_map_frame [where body = insert_mmap_entry, OF _ s1(1)] insert_mmap_entry_frame by blast
    then show "map_frame s s1" by (rule map_frame_trans [OF map_frame_updates(2)])
    have "map_frame ?s2 s3"
      using forK_map_frame [where body = add_to_sublist, OF _ s3(1)] add_to_sublist_frame by blast
    then show "map_frame s1 s3" by (rule map_frame_trans [OF map_frame_updates(1)])
  qed
  show ?thesis
    using s1(1) s3 n1 wf map_frame_trans [OF frame map_frame_updates(3)]
      map_frame_trans [OF frame map_frame_updates(4)]
    by (auto simp: pmmap_init_def pmmap_merge_def monad_defs get_size_def map_ok_def)
qed

lemma get_mms_plus_get_mml: "get_mms s i + get_mml s i = (case nth_slot s i of None \<Rightarrow> 0 | Some x \<Rightarrow> pm_end x)"
  by (simp add: get_mms_def get_mml_def split: option.splits)

section \<open>Properties\<close>

text \<open>The static variables before the kernel runs.\<close>

definition mboot_start :: mboot where
  "mboot_start = base.extend base_start
     (mboot.fields 0 [] (\<lambda>_. []) 0 0 0)"


text \<open>Two overlapping ranges of usable memory and a reserved one.\<close>

definition demo_mmap :: "mboot_mmap list" where
  "demo_mmap =
    [\<lparr>base_addr_low = 0x40000000, base_addr_high = 0, length_low = 0x3000, length_high = 0, mm_type = 1\<rparr>,
     \<lparr>base_addr_low = 0, base_addr_high = 0, length_low = 0x9fc00, length_high = 0, mm_type = 2\<rparr>,
     \<lparr>base_addr_low = 0x40001000, base_addr_high = 0, length_low = 0x4000, length_high = 0, mm_type = 1\<rparr>]"

lemma wf_demo_mmap: "wf_mmap demo_mmap"
  by (simp add: wf_mmap_def demo_mmap_def PMMAP_SUBLIST_NR_def MEM_RAM_def MEM_RESERVED_def)

lemma mboot_start_zero: "pmmap_slots_next_free mboot_start = 0" "pmmap_nentries mboot_start = 0"
  by (simp_all add: mboot_start_def mboot.defs base.defs)


end
