(* ===== verification/MAT.thy ===== *)
theory MAT
  imports Mboot
begin

text \<open>
  The physical memory manager, \<open>kern/pmm/MATIntro\<close>, \<open>MATInit\<close> and \<open>MATOp\<close>: the allocation
  table with one entry per physical page, its initialisation from the memory map, and the page
  allocator \<open>palloc\<close> / \<open>pfree\<close> with its memoised starting point.
\<close>

section \<open>State\<close>

record ATStruct =
  perm :: u32
  allocated :: u32

record mat = mboot +
  NUM_PAGES :: u32
  AT :: "u32 \<Rightarrow> ATStruct"
  last_palloc_index :: u32

text \<open>\<open>AT[1 << 20]\<close>.\<close>

definition AT_SIZE :: u32 where "AT_SIZE = 0x100000"

section \<open>MATIntro: getters and setters\<close>

definition mem_spinlock_init :: "('a mat_scheme, unit) kern" where
  "mem_spinlock_init = spinlock_init Mem_lk"

definition mem_lock :: "('a mat_scheme, unit) kern" where
  "mem_lock = spinlock_acquire Mem_lk"

definition mem_unlock :: "('a mat_scheme, unit) kern" where
  "mem_unlock = spinlock_release Mem_lk"

definition get_nps :: "('a mat_scheme, u32) kern" where
  "get_nps = readK NUM_PAGES"

definition set_nps :: "u32 \<Rightarrow> ('a mat_scheme, unit) kern" where
  "set_nps nps = modifyK (\<lambda>s. s\<lparr>NUM_PAGES := nps\<rparr>)"

definition at_is_norm :: "u32 \<Rightarrow> ('a mat_scheme, u32) kern" where
  "at_is_norm page_index = indexK page_index AT_SIZE
     (readK (\<lambda>s. if perm (AT s page_index) > 1 then 1 else 0))"

definition at_set_perm :: "u32 \<Rightarrow> u32 \<Rightarrow> ('a mat_scheme, unit) kern" where
  "at_set_perm page_index p = indexK page_index AT_SIZE
     (modifyK (\<lambda>s. s\<lparr>AT := (AT s)(page_index := \<lparr>perm = p, allocated = 0\<rparr>)\<rparr>))"

definition at_is_allocated :: "u32 \<Rightarrow> ('a mat_scheme, u32) kern" where
  "at_is_allocated page_index = indexK page_index AT_SIZE
     (readK (\<lambda>s. if allocated (AT s page_index) > 0 then 1 else allocated (AT s page_index)))"

definition at_set_allocated :: "u32 \<Rightarrow> u32 \<Rightarrow> ('a mat_scheme, unit) kern" where
  "at_set_allocated page_index a = indexK page_index AT_SIZE
     (modifyK (\<lambda>s. s\<lparr>AT := (AT s)(page_index := (AT s page_index)\<lparr>allocated := a\<rparr>)\<rparr>))"

section \<open>MATInit: filling the table from the memory map\<close>

definition highest_addr :: "'a mat_scheme \<Rightarrow> u32" where
  "highest_addr s = fold (\<lambda>entry_idx nps.
     let cur_addr = get_mms s entry_idx + get_mml s entry_idx in
     if nps < cur_addr then cur_addr else nps) (word_range 0 (get_size s)) 0"

text \<open>The inner loop over the map: stop at the first entry that holds the whole page.  The
  result is \<open>flag\<close> and \<open>isnorm\<close>.\<close>

fun scan_entries :: "'a mat_scheme \<Rightarrow> u32 \<Rightarrow> u32 list \<Rightarrow> u32 \<Rightarrow> bool \<times> u32" where
  "scan_entries s pg_idx [] isnorm = (False, isnorm)"
| "scan_entries s pg_idx (entry_idx # rest) isnorm =
     (let isnorm = is_usable s entry_idx; start = get_mms s entry_idx; len = get_mml s entry_idx in
      if start \<le> pg_idx * PAGESIZE \<and> (pg_idx + 1) * PAGESIZE \<le> start + len
      then (True, isnorm)
      else scan_entries s pg_idx rest isnorm)"

definition init_page :: "u32 \<Rightarrow> ('a mat_scheme, unit) kern" where
  "init_page pg_idx =
     (if pg_idx < VM_USERLO_PI \<or> VM_USERHI_PI \<le> pg_idx then at_set_perm pg_idx 1
      else bindK (readK (\<lambda>s. scan_entries s pg_idx (word_range 0 (get_size s)) 0)) (\<lambda>(flag, isnorm).
        if flag \<and> isnorm \<noteq> 0 then at_set_perm pg_idx 2 else at_set_perm pg_idx 0))"

text \<open>The lower layer's initialisation \<open>devinit(mbi_addr)\<close> is an argument; see theory \<open>Boot\<close>
  for the device layer it stands for.\<close>

definition pmem_init :: "('a mat_scheme, unit) kern \<Rightarrow> ('a mat_scheme, unit) kern" where
  "pmem_init devinit = seqK devinit (seqK mem_spinlock_init
     (bindK (readK highest_addr) (\<lambda>hi.
      let nps = (hi - hi mod PAGESIZE) div PAGESIZE in
      seqK (set_nps nps) (forK (word_range 0 nps) init_page))))"

section \<open>MATOp: the page allocator\<close>

definition norm_free :: "'a mat_scheme \<Rightarrow> u32 \<Rightarrow> bool" where
  "norm_free s pg \<longleftrightarrow> perm (AT s pg) > 1 \<and> allocated (AT s pg) = 0"

definition next_page :: "u32 \<Rightarrow> u32" where
  "next_page i = (if i + 1 \<ge> VM_USERHI_PI then VM_USERLO_PI else i + 1)"

text \<open>The scan of \<open>palloc\<close>, from \<open>last_palloc_index\<close> round the user pages until it comes back;
  the result is \<open>palloc_free_index\<close>.\<close>

partial_function (option) palloc_loop ::
  "'a mat_scheme \<Rightarrow> u32 \<Rightarrow> u32 \<Rightarrow> bool \<Rightarrow> u32 \<Rightarrow> u32 option" where
  "palloc_loop s lst palloc_index first palloc_free_index =
     (if (palloc_index \<noteq> lst \<or> first) \<and> palloc_free_index = NUM_PAGES s
      then palloc_loop s lst (next_page palloc_index) False
             (if norm_free s palloc_index then palloc_index else palloc_free_index)
      else Some palloc_free_index)"

definition palloc :: "('a mat_scheme, u32) kern" where
  "palloc = critical Mem_lk
     (bindK (readK last_palloc_index) (\<lambda>lst. indexK lst AT_SIZE
     (bindK get_nps (\<lambda>nps.
      bindK (readK (\<lambda>s. palloc_loop s lst lst True nps)) (\<lambda>r. case r of
        None \<Rightarrow> faultK Diverge
      | Some palloc_free_index \<Rightarrow>
          if palloc_free_index = nps
          then seqK (modifyK (\<lambda>s. s\<lparr>last_palloc_index := VM_USERLO_PI\<rparr>)) (returnK 0)
          else seqK (at_set_allocated palloc_free_index 1)
            (seqK (modifyK (\<lambda>s. s\<lparr>last_palloc_index := palloc_free_index\<rparr>))
              (returnK palloc_free_index)))))))"

definition pfree :: "u32 \<Rightarrow> ('a mat_scheme, unit) kern" where
  "pfree pfree_index = critical Mem_lk (at_set_allocated pfree_index 0)"

section \<open>Correctness of the scan\<close>

definition user_page :: "u32 \<Rightarrow> bool" where
  "user_page i \<longleftrightarrow> VM_USERLO_PI \<le> i \<and> i < VM_USERHI_PI"

lemma user_page_next: "user_page i \<Longrightarrow> user_page (next_page i)"
  by (auto simp: user_page_def next_page_def VM_PI_values word_le_nat_alt word_less_nat_alt
      unat_word_ariths split: if_splits)

lemma user_page_bounds: "user_page i \<Longrightarrow> i < AT_SIZE" "user_page i \<Longrightarrow> i \<noteq> 0"
  unfolding user_page_def VM_PI_values AT_SIZE_def by unat_arith+

text \<open>The pages still to be visited when the scan is at \<open>i\<close> and ends at \<open>lst\<close>.\<close>

definition ahead :: "u32 \<Rightarrow> u32 \<Rightarrow> u32 set" where
  "ahead i lst = (if i \<le> lst then {j. i \<le> j \<and> j < lst}
     else {j. i \<le> j \<and> j < VM_USERHI_PI} \<union> {j. VM_USERLO_PI \<le> j \<and> j < lst})"

definition dist_ahead :: "u32 \<Rightarrow> u32 \<Rightarrow> nat" where
  "dist_ahead i lst = (if i \<le> lst then unat lst - unat i
     else unat VM_USERHI_PI - unat i + (unat lst - unat VM_USERLO_PI))"

lemma ahead_step:
  assumes "user_page i" "user_page lst" "i \<noteq> lst"
  shows "ahead i lst = insert i (ahead (next_page i) lst)"
    "dist_ahead (next_page i) lst < dist_ahead i lst"
proof -
  have bounds: "unat VM_USERLO_PI \<le> unat i" "unat i < unat VM_USERHI_PI"
      "unat VM_USERLO_PI \<le> unat lst" "unat lst < unat VM_USERHI_PI" "unat i \<noteq> unat lst"
    using assms by (simp_all add: user_page_def word_le_nat_alt word_less_nat_alt word_unat_eq_iff)
  have succ: "unat (i + 1) = Suc (unat i)"
    using bounds by (simp add: VM_PI_values unat_word_ariths)
  note nat_views = word_le_nat_alt word_less_nat_alt
  have mem: "j \<in> ahead i lst \<longleftrightarrow> j \<in> insert i (ahead (next_page i) lst)" for j
  proof (cases "j = i")
    case True
    with bounds show ?thesis by (simp add: ahead_def nat_views)
  next
    case False
    then have "unat j \<noteq> unat i" by (simp add: word_unat_eq_iff)
    with bounds succ False show ?thesis
      by (auto simp: ahead_def next_page_def nat_views split: if_splits)
  qed
  then show "ahead i lst = insert i (ahead (next_page i) lst)" by blast
  show "dist_ahead (next_page i) lst < dist_ahead i lst"
    using bounds succ by (auto simp: dist_ahead_def next_page_def nat_views split: if_splits)
qed

lemma ahead_all: "user_page lst \<Longrightarrow> insert lst (ahead (next_page lst) lst) = {j. user_page j}"
proof -
  assume lst: "user_page lst"
  have bounds: "unat VM_USERLO_PI \<le> unat lst" "unat lst < unat VM_USERHI_PI"
    using lst by (simp_all add: user_page_def word_le_nat_alt word_less_nat_alt)
  have succ: "unat (lst + 1) = Suc (unat lst)"
    using bounds by (simp add: VM_PI_values unat_word_ariths)
  have "j = lst \<or> j \<in> ahead (next_page lst) lst \<longleftrightarrow> user_page j" for j
  proof (cases "j = lst")
    case True
    with lst show ?thesis by simp
  next
    case False
    then have "unat j \<noteq> unat lst" by (simp add: word_unat_eq_iff)
    with bounds succ False show ?thesis
      by (auto simp: ahead_def next_page_def user_page_def word_le_nat_alt word_less_nat_alt
          split: if_splits)
  qed
  then show ?thesis by blast
qed

lemma palloc_loop_found:
  "palloc_free_index \<noteq> NUM_PAGES s \<Longrightarrow>
   palloc_loop s lst i first palloc_free_index = Some palloc_free_index"
  by (subst palloc_loop.simps) simp

lemma palloc_loop_spec:
  assumes "user_page i" "user_page lst" "\<not> norm_free s (NUM_PAGES s)"
  shows "\<exists>r. palloc_loop s lst i False (NUM_PAGES s) = Some r \<and>
    (if \<exists>j \<in> ahead i lst. norm_free s j then r \<in> ahead i lst \<and> norm_free s r
     else r = NUM_PAGES s)"
  using assms(1)
proof (induction "dist_ahead i lst" arbitrary: i rule: less_induct)
  case less
  show ?case
  proof (cases "i = lst")
    case True
    then have "ahead i lst = {}" by (auto simp: ahead_def)
    with True show ?thesis by (subst palloc_loop.simps) simp
  next
    case False
    note step = ahead_step [OF less.prems assms(2) False]
    show ?thesis
    proof (cases "norm_free s i")
      case free: True
      with assms(3) have "i \<noteq> NUM_PAGES s" by auto
      with False free have "palloc_loop s lst i False (NUM_PAGES s) = Some i"
        by (subst palloc_loop.simps) (simp add: palloc_loop_found)
      with free show ?thesis by (auto simp: step(1))
    next
      case busy: False
      have "palloc_loop s lst i False (NUM_PAGES s) =
          palloc_loop s lst (next_page i) False (NUM_PAGES s)"
        using False busy by (subst palloc_loop.simps) simp
      with less.hyps [OF step(2) user_page_next [OF less.prems]] busy show ?thesis
        by (auto simp: step(1) split: if_splits)
    qed
  qed
qed

lemma palloc_loop_start:
  assumes "user_page lst" "\<not> norm_free s (NUM_PAGES s)"
  shows "\<exists>r. palloc_loop s lst lst True (NUM_PAGES s) = Some r \<and>
    (if \<exists>j. user_page j \<and> norm_free s j then user_page r \<and> norm_free s r else r = NUM_PAGES s)"
proof -
  have all: "user_page j \<longleftrightarrow> j = lst \<or> j \<in> ahead (next_page lst) lst" for j
    using ahead_all [OF assms(1)] by blast
  show ?thesis
  proof (cases "norm_free s lst")
    case True
    with assms(2) have "lst \<noteq> NUM_PAGES s" by auto
    with True have "palloc_loop s lst lst True (NUM_PAGES s) = Some lst"
      by (subst palloc_loop.simps) (simp add: palloc_loop_found)
    with True assms(1) show ?thesis by auto
  next
    case False
    then have "palloc_loop s lst lst True (NUM_PAGES s) =
        palloc_loop s lst (next_page lst) False (NUM_PAGES s)"
      by (subst palloc_loop.simps) simp
    with palloc_loop_spec [OF user_page_next [OF assms(1)] assms] False show ?thesis
      by (auto simp: all split: if_splits)
  qed
qed

section \<open>The allocator's contract\<close>

definition mat_inv :: "'a mat_scheme \<Rightarrow> bool" where
  "mat_inv s \<longleftrightarrow> cpu_ok s \<and> locks s Mem_lk = spin_free \<and> user_page (last_palloc_index s) \<and>
     (\<forall>pg. perm (AT s pg) > 1 \<longrightarrow> user_page pg \<and> pg < NUM_PAGES s)"

definition norm_pages :: "'a mat_scheme \<Rightarrow> u32 set" where
  "norm_pages s = {pg. perm (AT s pg) > 1}"

definition free_pages :: "'a mat_scheme \<Rightarrow> u32 set" where
  "free_pages s = {pg. norm_free s pg}"

lemma mat_lock_frame [simp]:
  "norm_free (take_lock lk s) = norm_free s" "norm_free (drop_lock lk s) = norm_free s"
  "AT (take_lock lk s) = AT s" "AT (drop_lock lk s) = AT s"
  "NUM_PAGES (take_lock lk s) = NUM_PAGES s" "NUM_PAGES (drop_lock lk s) = NUM_PAGES s"
  "last_palloc_index (take_lock lk s) = last_palloc_index s"
  "last_palloc_index (drop_lock lk s) = last_palloc_index s"
  by (simp_all add: take_lock_def drop_lock_def norm_free_def fun_eq_iff)

lemma drop_lock_mat [simp]:
  "drop_lock lk (s\<lparr>AT := a\<rparr>) = (drop_lock lk s)\<lparr>AT := a\<rparr>"
  "drop_lock lk (s\<lparr>last_palloc_index := i\<rparr>) = (drop_lock lk s)\<lparr>last_palloc_index := i\<rparr>"
  by (simp_all add: drop_lock_def)

lemma norm_free_user: "mat_inv s \<Longrightarrow> norm_free s pg \<Longrightarrow> user_page pg \<and> pg < NUM_PAGES s"
  by (simp add: mat_inv_def norm_free_def)

lemma palloc_cases:
  assumes "mat_inv s"
  shows "(\<exists>pg. norm_free s pg \<and> palloc s = Inr (pg, s\<lparr>AT := (AT s)(pg := (AT s pg)\<lparr>allocated := 1\<rparr>),
           last_palloc_index := pg\<rparr>)) \<or>
    (\<forall>pg. \<not> norm_free s pg) \<and> palloc s = Inr (0, s\<lparr>last_palloc_index := VM_USERLO_PI\<rparr>)"
proof -
  let ?s = "take_lock Mem_lk s" and ?lst = "last_palloc_index s"
  note inv = assms [unfolded mat_inv_def]
  have "\<not> norm_free s (NUM_PAGES s)" using norm_free_user [OF assms] by auto
  then have "\<exists>r. palloc_loop ?s ?lst ?lst True (NUM_PAGES s) = Some r \<and>
      (if \<exists>j. user_page j \<and> norm_free s j then user_page r \<and> norm_free s r else r = NUM_PAGES s)"
    using palloc_loop_start [of ?lst ?s] inv by (simp cong: if_cong)
  then obtain r where r: "palloc_loop ?s ?lst ?lst True (NUM_PAGES s) = Some r"
      "if \<exists>j. user_page j \<and> norm_free s j then user_page r \<and> norm_free s r else r = NUM_PAGES s"
    by blast
  have lk: "cpu_ok s" "lock_free Mem_lk s" "drop_lock Mem_lk (take_lock Mem_lk s) = s"
    using inv by (simp_all add: lock_free_spin_free drop_take_lock)
  have lst: "?lst < AT_SIZE" using inv by (simp add: user_page_bounds)
  show ?thesis
  proof (cases "\<exists>j. norm_free s j")
    case True
    then have free: "user_page r" "norm_free s r" "r \<noteq> NUM_PAGES s"
      using r(2) norm_free_user [OF assms] by (auto split: if_splits)
    have "palloc s = Inr (r, s\<lparr>AT := (AT s)(r := (AT s r)\<lparr>allocated := 1\<rparr>), last_palloc_index := r\<rparr>)"
      unfolding palloc_def
      by (subst critical_spec [OF lk(1,2)])
        (use free lst r(1) lk(3) user_page_bounds(1) [OF free(1)] in
          \<open>auto simp: monad_defs get_nps_def at_set_allocated_def\<close>)
    with free show ?thesis by blast
  next
    case False
    then have "r = NUM_PAGES s" using r(2) by auto
    then have "palloc s = Inr (0, s\<lparr>last_palloc_index := VM_USERLO_PI\<rparr>)"
      unfolding palloc_def
      by (subst critical_spec [OF lk(1,2)])
        (use lst r(1) lk(3) in \<open>auto simp: monad_defs get_nps_def\<close>)
    with False show ?thesis by blast
  qed
qed

lemma pfree_eq:
  assumes "mat_inv s" "pg < AT_SIZE"
  shows "pfree pg s = Inr ((), s\<lparr>AT := (AT s)(pg := (AT s pg)\<lparr>allocated := 0\<rparr>)\<rparr>)"
proof -
  have lk: "cpu_ok s" "lock_free Mem_lk s" "drop_lock Mem_lk (take_lock Mem_lk s) = s"
    using assms(1) by (simp_all add: mat_inv_def lock_free_spin_free drop_take_lock)
  show ?thesis
    unfolding pfree_def
    by (subst critical_spec [OF lk(1,2)])
      (use assms(2) lk(3) in \<open>auto simp: monad_defs at_set_allocated_def\<close>)
qed

locale page_allocator =
  fixes alloc :: "('s, u32) kern"
    and free :: "u32 \<Rightarrow> ('s, unit) kern"
    and inv :: "'s \<Rightarrow> bool"
    and pool avail :: "'s \<Rightarrow> u32 set"
  assumes alloc_some: "inv s \<Longrightarrow> avail s \<noteq> {} \<Longrightarrow> \<exists>p s'. alloc s = Inr (p, s') \<and>
      p \<in> avail s \<and> avail s' = avail s - {p} \<and> pool s' = pool s \<and> inv s'"
    and alloc_none: "inv s \<Longrightarrow> avail s = {} \<Longrightarrow> \<exists>s'. alloc s = Inr (0, s') \<and>
      avail s' = {} \<and> pool s' = pool s \<and> inv s'"
    and free_page: "inv s \<Longrightarrow> p \<in> pool s \<Longrightarrow> \<exists>s'. free p s = Inr ((), s') \<and>
      avail s' = insert p (avail s) \<and> pool s' = pool s \<and> inv s'"
    and avail_pool: "avail s \<subseteq> pool s"
    and zero_reserved: "inv s \<Longrightarrow> 0 \<notin> pool s"
begin

lemma alloc_nonzero: "inv s \<Longrightarrow> alloc s = Inr (p, s') \<Longrightarrow> p \<noteq> 0 \<longleftrightarrow> avail s \<noteq> {}"
  using alloc_some [of s] alloc_none [of s] avail_pool [of s] zero_reserved [of s] by fastforce

lemma alloc_many:
  assumes "inv s" "n \<le> card (avail s)"
  shows "\<exists>ps s'. repeatK n alloc s = Inr (ps, s') \<and> length ps = n \<and> distinct ps \<and>
    set ps \<subseteq> avail s \<and> avail s' = avail s - set ps \<and> pool s' = pool s \<and> inv s'"
  using assms
proof (induction n arbitrary: s)
  case 0
  then show ?case by (simp add: returnK_def)
next
  case (Suc n)
  then have "avail s \<noteq> {}" by auto
  with Suc.prems alloc_some [of s] obtain p s1 where p: "alloc s = Inr (p, s1)" "p \<in> avail s"
      "avail s1 = avail s - {p}" "pool s1 = pool s" "inv s1"
    by auto
  have "n \<le> card (avail s1)" using Suc.prems(2) p(2) by (simp add: p(3))
  with Suc.IH [OF p(5)] obtain ps s' where ps: "repeatK n alloc s1 = Inr (ps, s')" "length ps = n"
      "distinct ps" "set ps \<subseteq> avail s1" "avail s' = avail s1 - set ps" "pool s' = pool s1" "inv s'"
    by auto
  have "repeatK (Suc n) alloc s = Inr (p # ps, s')"
    using p(1) ps(1) by (simp add: monad_defs)
  then show ?case
    using p ps by (intro exI [of _ "p # ps"] exI [of _ s']) auto
qed

lemma alloc_free:
  assumes "inv s" "avail s \<noteq> {}"
  shows "\<exists>p s'. bindK alloc (\<lambda>p. seqK (free p) (returnK p)) s = Inr (p, s') \<and>
    p \<in> avail s \<and> avail s' = avail s \<and> pool s' = pool s \<and> inv s'"
proof -
  from alloc_some [OF assms] obtain p s1 where p: "alloc s = Inr (p, s1)" "p \<in> avail s"
      "avail s1 = avail s - {p}" "pool s1 = pool s" "inv s1"
    by auto
  then have "p \<in> pool s1" using avail_pool [of s] by auto
  from free_page [OF p(5) this] obtain s2 where "free p s1 = Inr ((), s2)"
      "avail s2 = insert p (avail s1)" "pool s2 = pool s1" "inv s2"
    by auto
  with p show ?thesis by (auto simp: monad_defs)
qed

end

lemma mat_inv_update:
  assumes "mat_inv s" "\<And>pg. perm (a pg) = perm (AT s pg)" "user_page i"
  shows "mat_inv (s\<lparr>AT := a, last_palloc_index := i\<rparr>)" "mat_inv (s\<lparr>AT := a\<rparr>)"
    "mat_inv (s\<lparr>last_palloc_index := i\<rparr>)"
  using assms by (simp_all add: mat_inv_def cpu_ok_def)

interpretation pmm: page_allocator palloc pfree mat_inv norm_pages free_pages
proof unfold_locales
  fix s :: "'a mat_scheme" and p
  assume inv: "mat_inv s"
  show "\<exists>p s'. palloc s = Inr (p, s') \<and> p \<in> free_pages s \<and>
      free_pages s' = free_pages s - {p} \<and> norm_pages s' = norm_pages s \<and> mat_inv s'"
    if "free_pages s \<noteq> {}"
  proof -
    from that palloc_cases [OF inv] obtain pg where pg: "norm_free s pg"
        "palloc s = Inr (pg, s\<lparr>AT := (AT s)(pg := (AT s pg)\<lparr>allocated := 1\<rparr>),
           last_palloc_index := pg\<rparr>)"
      by (auto simp: free_pages_def)
    have "mat_inv (s\<lparr>AT := (AT s)(pg := (AT s pg)\<lparr>allocated := 1\<rparr>), last_palloc_index := pg\<rparr>)"
      using norm_free_user [OF inv pg(1)] by (intro mat_inv_update inv) auto
    with pg show ?thesis
      by (auto simp: free_pages_def norm_pages_def norm_free_def)
  qed
  show "\<exists>s'. palloc s = Inr (0, s') \<and> free_pages s' = {} \<and> norm_pages s' = norm_pages s \<and> mat_inv s'"
    if "free_pages s = {}"
  proof -
    have "user_page VM_USERLO_PI" by (simp add: user_page_def VM_PI_values)
    then have "mat_inv (s\<lparr>last_palloc_index := VM_USERLO_PI\<rparr>)"
      by (intro mat_inv_update inv) auto
    with that palloc_cases [OF inv] show ?thesis
      by (auto simp: free_pages_def norm_pages_def norm_free_def)
  qed
  show "\<exists>s'. pfree p s = Inr ((), s') \<and> free_pages s' = insert p (free_pages s) \<and>
      norm_pages s' = norm_pages s \<and> mat_inv s'"
    if "p \<in> norm_pages s"
  proof -
    from that inv have up: "user_page p" by (simp add: norm_pages_def mat_inv_def)
    have "mat_inv (s\<lparr>AT := (AT s)(p := (AT s p)\<lparr>allocated := 0\<rparr>)\<rparr>)"
      using up by (intro mat_inv_update(2) [OF inv]) auto
    with that pfree_eq [OF inv user_page_bounds(1) [OF up]] show ?thesis
      by (auto simp: free_pages_def norm_pages_def norm_free_def)
  qed
  show "0 \<notin> norm_pages s"
    using inv by (auto simp: norm_pages_def mat_inv_def dest: user_page_bounds(2))
next
  fix s :: "'a mat_scheme"
  show "free_pages s \<subseteq> norm_pages s" by (auto simp: free_pages_def norm_pages_def norm_free_def)
qed

section \<open>The table after initialisation\<close>

text \<open>The slot holds the whole page, and the permission that follows from the first such slot.\<close>

definition holds_page :: "u32 \<Rightarrow> pmmap \<Rightarrow> bool" where
  "holds_page pg x \<longleftrightarrow> pm_start x \<le> pg * PAGESIZE \<and> (pg + 1) * PAGESIZE \<le> pm_end x"

definition page_kind :: "pmmap list \<Rightarrow> u32 \<Rightarrow> u32" where
  "page_kind xs pg = (if \<not> user_page pg then 1
     else case find (holds_page pg) xs of
       None \<Rightarrow> 0 | Some x \<Rightarrow> if pm_type x = MEM_RAM then 2 else 0)"

text \<open>The memory map as the accessors see it: \<open>get_size\<close> counts its slots.\<close>

definition wf_map :: "'a mboot_scheme \<Rightarrow> bool" where
  "wf_map s \<longleftrightarrow> get_size s = word_of_nat (length (pmmap_list s)) \<and> length (pmmap_list s) \<le> 128"

lemma nth_slots:
  assumes "wf_map s"
  shows "map (nth_slot s) (word_range 0 (get_size s)) = map Some (pmmap_list s)"
proof (rule nth_equalityI)
  have n: "unat (get_size s) = length (pmmap_list s)"
    using assms by (simp add: wf_map_def unat_of_nat)
  then show "length (map (nth_slot s) (word_range 0 (get_size s))) = length (map Some (pmmap_list s))"
    by (simp add: length_word_range)
  fix i
  assume "i < length (map (nth_slot s) (word_range 0 (get_size s)))"
  then have i: "i < length (pmmap_list s)" "i < 2 ^ 32"
    using n assms by (simp_all add: length_word_range wf_map_def)
  then have u: "unat (word_of_nat i :: u32) = i" by (simp add: unat_of_nat)
  with i n have "word_of_nat i \<noteq> pmmap_nentries s"
    by (auto simp: get_size_def)
  with i n u show "map (nth_slot s) (word_range 0 (get_size s)) ! i = map Some (pmmap_list s) ! i"
    by (simp add: word_range_def nth_slot_def)
qed

lemma scan_entries_find:
  assumes "map (nth_slot s) is = map Some xs"
  shows "(case scan_entries s pg is n of (flag, isnorm) \<Rightarrow> flag \<and> isnorm \<noteq> 0) \<longleftrightarrow>
    (\<exists>x. find (holds_page pg) xs = Some x \<and> pm_type x = MEM_RAM)"
  using assms
proof (induction xs arbitrary: "is" n)
  case Nil
  then show ?case by simp
next
  case (Cons x xs)
  then obtain i js where js: "is = i # js" "nth_slot s i = Some x" "map (nth_slot s) js = map Some xs"
    by auto
  have slot: "get_mms s i = pm_start x" "get_mms s i + get_mml s i = pm_end x"
      "is_usable s i \<noteq> 0 \<longleftrightarrow> pm_type x = MEM_RAM"
    using js(2) by (simp_all add: get_mms_def get_mml_def is_usable_def)
  show ?case
    using Cons.IH [OF js(3), of "is_usable s i"] slot
    by (simp add: js(1) Let_def holds_page_def)
qed

lemma highest_addr_fold:
  assumes "map (nth_slot s) is = map Some xs"
  shows "fold (\<lambda>i nps. let cur_addr = get_mms s i + get_mml s i in
     if nps < cur_addr then cur_addr else nps) is n = fold (\<lambda>x. max (pm_end x)) xs n"
  using assms
proof (induction xs arbitrary: "is" n)
  case (Cons x xs)
  then obtain i js where js: "is = i # js" "nth_slot s i = Some x" "map (nth_slot s) js = map Some xs"
    by auto
  have "(let cur_addr = get_mms s i + get_mml s i in if n < cur_addr then cur_addr else n) =
      max (pm_end x) n"
    using js(2) by (auto simp: get_mms_plus_get_mml max_def Let_def)
  with Cons.IH [OF js(3)] show ?case by (simp add: js(1))
qed simp

lemma highest_addr_Max:
  "wf_map s \<Longrightarrow> highest_addr s = Max (insert 0 (pm_end ` set (pmmap_list s)))"
  using Max.set_eq_fold [of 0 "map pm_end (pmmap_list s)"]
  by (simp add: highest_addr_def highest_addr_fold [OF nth_slots] fold_map comp_def)

lemma init_page_eq:
  assumes "wf_map s" "pg < AT_SIZE"
  shows "init_page pg s = Inr ((), s\<lparr>AT := (AT s)(pg :=
    \<lparr>perm = page_kind (pmmap_list s) pg, allocated = 0\<rparr>)\<rparr>)"
proof -
  let ?r = "scan_entries s pg (word_range 0 (get_size s)) 0"
  have "fst ?r \<and> snd ?r \<noteq> 0 \<longleftrightarrow>
      (\<exists>x. find (holds_page pg) (pmmap_list s) = Some x \<and> pm_type x = MEM_RAM)"
    using scan_entries_find [OF nth_slots [OF assms(1)], of pg 0] by (simp add: case_prod_unfold)
  with assms(2) show ?thesis
    by (auto simp: init_page_def page_kind_def user_page_def at_set_perm_def monad_defs not_le
        case_prod_unfold split: option.splits)
qed

lemma fold_AT_update:
  "fold (\<lambda>i s. s\<lparr>AT := (AT s)(i := g i)\<rparr>) is s = s\<lparr>AT := fold (\<lambda>i f. f(i := g i)) is (AT s)\<rparr>"
  by (induction "is" arbitrary: s) simp_all

lemma rounddown_div: "(a - a mod PAGESIZE) div PAGESIZE = a div PAGESIZE"
proof -
  have "4096 * (unat a div 4096) < 2 ^ 32"
    by (rule le_less_trans [OF times_div_less_eq_dividend]) (use unsigned_less [of a] in simp)
  then show ?thesis
    by (simp add: PAGESIZE_def word_unat_eq_iff unat_div minus_mod_eq_mult_div unat_word_ariths)
qed

lemma pmem_init_eq:
  assumes "devinit s = Inr ((), s1)" "wf_map s1"
  defines "nps \<equiv> highest_addr s1 div PAGESIZE"
  shows "pmem_init devinit s = Inr ((), s1\<lparr>locks := (locks s1)(Mem_lk := spin_free), NUM_PAGES := nps,
    AT := (\<lambda>pg. if pg < nps then \<lparr>perm = page_kind (pmmap_list s1) pg, allocated = 0\<rparr> else AT s1 pg)\<rparr>)"
proof -
  let ?s2 = "s1\<lparr>locks := (locks s1)(Mem_lk := spin_free)\<rparr>" and ?xs = "pmmap_list s1"
  let ?g = "\<lambda>pg. \<lparr>perm = page_kind ?xs pg, allocated = 0\<rparr>"
  have hi: "highest_addr ?s2 = highest_addr s1"
    by (simp add: highest_addr_def get_size_def get_mms_def get_mml_def nth_slot_def cong: if_cong)
  have nps: "(highest_addr s1 - highest_addr s1 mod PAGESIZE) div PAGESIZE = nps"
    unfolding nps_def by (rule rounddown_div)
  have "unat nps < 2 ^ 20"
    using unat_bound [of "highest_addr s1"] by (simp add: nps_def PAGESIZE_def unat_div)
  then have lt: "pg < AT_SIZE" if "pg < nps" for pg
    using that by (simp add: AT_SIZE_def word_less_nat_alt)
  have body: "init_page i t = Inr ((), t\<lparr>AT := (AT t)(i := ?g i)\<rparr>) \<and>
      wf_map (t\<lparr>AT := (AT t)(i := ?g i)\<rparr>) \<and> pmmap_list (t\<lparr>AT := (AT t)(i := ?g i)\<rparr>) = ?xs"
    if "i \<in> set (word_range 0 nps)" "wf_map t \<and> pmmap_list t = ?xs" for i t
    using that init_page_eq [of t i] lt [of i]
    by (auto simp: set_word_range wf_map_def get_size_def)
  have "forK (word_range 0 nps) init_page (?s2\<lparr>NUM_PAGES := nps\<rparr>) =
      Inr ((), fold (\<lambda>i t. t\<lparr>AT := (AT t)(i := ?g i)\<rparr>) (word_range 0 nps) (?s2\<lparr>NUM_PAGES := nps\<rparr>))"
    using assms(2) by (intro conjunct1 [OF forK_fold [where P = "\<lambda>t. wf_map t \<and> pmmap_list t = ?xs"]] body)
      (simp_all add: wf_map_def get_size_def)
  moreover have "fold (\<lambda>i f. f(i := ?g i)) (word_range 0 nps) (AT s1) =
      (\<lambda>pg. if pg < nps then ?g pg else AT s1 pg)"
    by (rule ext) (simp add: fold_fun_upd_apply distinct_word_range set_word_range)
  ultimately show ?thesis
    using assms(1) hi nps
    by (simp add: pmem_init_def mem_spinlock_init_def spinlock_init_def set_nps_def monad_defs
        fold_AT_update spin_free_def)
qed

section \<open>Properties\<close>

definition mat_start :: mat where
  "mat_start = mboot.extend mboot_start
     (mat.fields 0 (\<lambda>_. \<lparr>perm = 0, allocated = 0\<rparr>) VM_USERLO_PI)"

lemma page_bytes:
  assumes "user_page pg" "holds_page pg x" "pg * PAGESIZE \<le> a" "a < (pg + 1) * PAGESIZE"
  shows "pm_start x \<le> a \<and> a < pm_end x"
  using assms by (auto simp: holds_page_def)

lemma page_kind_ram:
  "page_kind xs pg > 1 \<longleftrightarrow>
    user_page pg \<and> (\<exists>x. find (holds_page pg) xs = Some x \<and> pm_type x = MEM_RAM)"
  by (auto simp: page_kind_def split: option.splits)

lemma ram_page_below_nps:
  assumes "wf_map s" "page_kind (pmmap_list s) pg > 1"
  shows "pg < highest_addr s div PAGESIZE"
proof -
  from assms(2) obtain x where x: "user_page pg" "x \<in> set (pmmap_list s)" "holds_page pg x"
    by (auto simp: page_kind_ram dest: find_SomeD)
  have "(pg + 1) * PAGESIZE \<le> highest_addr s"
    using x(2,3) unfolding highest_addr_Max [OF assms(1)]
    by (meson Max_ge finite_imageI finite_insert finite_set holds_page_def imageI insertI2 order_trans)
  then have "(unat pg + 1) * 4096 \<le> unat (highest_addr s)"
    using x(1) by (simp add: word_le_nat_alt unat_word_ariths PAGESIZE_def user_page_def VM_PI_values
        word_less_nat_alt)
  then have "unat pg + 1 \<le> unat (highest_addr s) div 4096"
    by (simp add: less_eq_div_iff_mult_less_eq)
  then show ?thesis by (simp add: word_less_nat_alt unat_div PAGESIZE_def)
qed

text \<open>The state \<open>pmem_init\<close> leaves behind, from the state \<open>pmmap_init\<close> leaves behind.\<close>

definition pmem_ready :: "'a mat_scheme \<Rightarrow> 'a mat_scheme" where
  "pmem_ready s = (let nps = highest_addr s div PAGESIZE in
     s\<lparr>locks := (locks s)(Mem_lk := spin_free), NUM_PAGES := nps,
       AT := (\<lambda>pg. if pg < nps then \<lparr>perm = page_kind (pmmap_list s) pg, allocated = 0\<rparr> else AT s pg)\<rparr>)"

lemma pmem_ready_perm:
  assumes "wf_map s" "\<forall>pg. perm (AT s pg) = 0"
  shows "perm (AT (pmem_ready s) pg) > 1 \<longleftrightarrow> page_kind (pmmap_list s) pg > 1"
    "perm (AT (pmem_ready s) pg) > 1 \<Longrightarrow> allocated (AT (pmem_ready s) pg) = 0"
  using ram_page_below_nps [OF assms(1), of pg] assms(2)
  by (auto simp: pmem_ready_def Let_def split: if_splits)

lemma pmem_init_run:
  assumes "wf_mmap mmap" "pmmap_slots_next_free s = 0" "pmmap_nentries s = 0"
    and "cpu_ok s" "user_page (last_palloc_index s)" "\<forall>pg. perm (AT s pg) = 0"
  shows "\<exists>s1. pmem_init (pmmap_init mmap) s = Inr ((), pmem_ready s1) \<and> map_ok mmap s1 \<and>
    map_frame s s1 \<and> mat_inv (pmem_ready s1) \<and> AT s1 = AT s"
proof -
  from pmmap_init_run [OF assms(1-3)] obtain s1 where
    s1: "pmmap_init mmap s = Inr ((), s1)" "map_ok mmap s1" "map_frame s s1"
    by blast
  have wf: "wf_map s1" using s1(2) by (simp add: map_ok_def wf_map_def)
  have keep: "cpu_ok s1" "last_palloc_index s1 = last_palloc_index s" "AT s1 = AT s"
    by (subst s1(3) [unfolded map_frame_def], use assms(4) in \<open>simp add: cpu_ok_def\<close>)+
  have run: "pmem_init (pmmap_init mmap) s = Inr ((), pmem_ready s1)"
    using pmem_init_eq [where devinit = "pmmap_init mmap", OF s1(1) wf] by (simp add: pmem_ready_def Let_def)
  have zero: "\<forall>pg. perm (AT s1 pg) = 0" using keep(3) assms(6) by simp
  have "mat_inv (pmem_ready s1)"
    unfolding mat_inv_def
  proof (intro conjI allI impI)
    show "cpu_ok (pmem_ready s1)" "locks (pmem_ready s1) Mem_lk = spin_free"
        "user_page (last_palloc_index (pmem_ready s1))"
      using keep assms(5) by (simp_all add: pmem_ready_def Let_def cpu_ok_def)
    fix pg
    assume "perm (AT (pmem_ready s1) pg) > 1"
    then have "page_kind (pmmap_list s1) pg > 1" by (simp add: pmem_ready_perm [OF wf zero])
    then show "user_page pg" "pg < NUM_PAGES (pmem_ready s1)"
      using ram_page_below_nps [OF wf] by (auto simp: page_kind_ram pmem_ready_def Let_def)
  qed
  with run s1(2,3) keep(3) show ?thesis by blast
qed

text \<open>C4: started on a fresh machine, \<open>pmem_init\<close> (with the memory map set up by
  \<open>pmmap_init\<close>) terminates in a state that satisfies the allocator's invariant: every page with
  normal permission lies in the user range, below \<open>NUM_PAGES\<close>, consists of bytes the boot loader
  reported as usable RAM only, and is free; conversely the pages of the user range whose
  first holding entry of the map is RAM are all normal.\<close>

theorem pmem_init_correct:
  assumes "wf_mmap mmap" "pmmap_slots_next_free s = 0" "pmmap_nentries s = 0"
    and "cpu_ok s" "user_page (last_palloc_index s)" "\<forall>pg. perm (AT s pg) = 0"
  shows "\<exists>s'. pmem_init (pmmap_init mmap) s = Inr ((), s') \<and> mat_inv s' \<and>
    free_pages s' = norm_pages s' \<and>
    NUM_PAGES s' = Max (insert 0 (pm_end ` set (pmmap_list s'))) div PAGESIZE \<and>
    norm_pages s' = {pg. user_page pg \<and>
      (\<exists>x. find (holds_page pg) (pmmap_list s') = Some x \<and> pm_type x = MEM_RAM)} \<and>
    (\<forall>pg \<in> norm_pages s'. \<forall>a. pg * PAGESIZE \<le> a \<and> a < (pg + 1) * PAGESIZE \<longrightarrow>
      reported mmap MEM_RAM a)"
proof -
  from pmem_init_run [OF assms] obtain s1 where
    s1: "pmem_init (pmmap_init mmap) s = Inr ((), pmem_ready s1)" "map_ok mmap s1"
      "mat_inv (pmem_ready s1)" "AT s1 = AT s"
    by blast
  have wf: "wf_map s1" using s1(2) by (simp add: map_ok_def wf_map_def)
  have zero: "\<forall>pg. perm (AT s1 pg) = 0" using s1(4) assms(6) by simp
  have list: "pmmap_list (pmem_ready s1) = pmmap_list s1"
      "NUM_PAGES (pmem_ready s1) = highest_addr s1 div PAGESIZE"
    by (simp_all add: pmem_ready_def Let_def)
  have norm: "norm_pages (pmem_ready s1) = {pg. user_page pg \<and>
      (\<exists>x. find (holds_page pg) (pmmap_list s1) = Some x \<and> pm_type x = MEM_RAM)}"
    by (auto simp: norm_pages_def page_kind_ram pmem_ready_perm(1) [OF wf zero])
  have "reported mmap MEM_RAM a"
    if "pg \<in> norm_pages (pmem_ready s1)" "pg * PAGESIZE \<le> a" "a < (pg + 1) * PAGESIZE" for pg a
  proof -
    from that(1) norm obtain x where x: "user_page pg" "x \<in> set (pmmap_list s1)" "holds_page pg x"
        "pm_type x = MEM_RAM"
      by (auto dest: find_SomeD)
    then have "covered (pmmap_list s1) MEM_RAM a"
      using page_bytes [OF x(1,3) that(2,3)] by (auto simp: covered_def)
    then show ?thesis using s1(2) by (simp add: map_ok_def)
  qed
  moreover have "free_pages (pmem_ready s1) = norm_pages (pmem_ready s1)"
    using pmem_ready_perm(2) [OF wf zero] by (auto simp: free_pages_def norm_pages_def norm_free_def)
  ultimately show ?thesis
    using s1(1,3) norm list highest_addr_Max [OF wf] by (intro exI [of _ "pmem_ready s1"]) auto
qed

lemma mat_start_ok: "pmmap_slots_next_free mat_start = 0" "pmmap_nentries mat_start = 0"
    "cpu_ok mat_start" "user_page (last_palloc_index mat_start)" "\<forall>pg. perm (AT mat_start pg) = 0"
  by (simp_all add: mat_start_def mboot_start_def base_start_def mboot.defs base.defs mat.defs
      cpu_ok_def NUM_CPUS_def user_page_def VM_PI_values)

theorem pmem_init_correct_witness:
  "\<exists>s'. pmem_init (pmmap_init demo_mmap) mat_start = Inr ((), s') \<and> mat_inv s' \<and>
    free_pages s' = norm_pages s'"
  using pmem_init_correct [OF wf_demo_mmap mat_start_ok] by auto

text \<open>C2: \<open>palloc\<close> always returns; when a normal page is free it returns such a page, marks
  exactly that page allocated and remembers it as the next starting point; when none is
  free it returns 0 and changes only the starting point.\<close>

theorem palloc_correct:
  assumes "mat_inv s"
  shows "\<exists>r s'. palloc s = Inr (r, s') \<and> mat_inv s' \<and>
    (if free_pages s \<noteq> {}
     then r \<in> free_pages s \<and> user_page r \<and> r < NUM_PAGES s \<and>
       s' = s\<lparr>AT := (AT s)(r := (AT s r)\<lparr>allocated := 1\<rparr>), last_palloc_index := r\<rparr>
     else r = 0 \<and> s' = s\<lparr>last_palloc_index := VM_USERLO_PI\<rparr>)"
proof (cases "free_pages s = {}")
  case True
  with pmm.alloc_none [OF assms] palloc_cases [OF assms] show ?thesis
    by (auto simp: free_pages_def)
next
  case False
  with pmm.alloc_some [OF assms False] palloc_cases [OF assms] show ?thesis
    by (auto simp: free_pages_def norm_free_user [OF assms])
qed

text \<open>A machine with three normal pages, of which the middle one is taken.\<close>

definition demo_mat :: mat where
  "demo_mat = mat_start\<lparr>locks := (\<lambda>_. spin_free), NUM_PAGES := 0x40003,
     AT := (\<lambda>pg. if pg \<in> {0x40000, 0x40001, 0x40002}
       then \<lparr>perm = 2, allocated = (if pg = 0x40001 then 1 else 0)\<rparr> else \<lparr>perm = 0, allocated = 0\<rparr>)\<rparr>"

lemma demo_mat_facts: "mat_inv demo_mat" "free_pages demo_mat = {0x40000, 0x40002}"
  "norm_pages demo_mat = {0x40000, 0x40001, 0x40002}"
proof -
  show "mat_inv demo_mat"
    using mat_start_ok by (auto simp: mat_inv_def demo_mat_def cpu_ok_def user_page_def VM_PI_values
        split: if_splits)
qed (auto simp: demo_mat_def free_pages_def norm_pages_def norm_free_def split: if_splits)

theorem palloc_correct_witness:
  "\<exists>r s'. palloc demo_mat = Inr (r, s') \<and> mat_inv s' \<and> r \<in> {0x40000, 0x40002}"
  using palloc_correct [OF demo_mat_facts(1)] by (auto simp: demo_mat_facts(2) split: if_splits)

text \<open>C3: as long as enough normal pages are free, \<open>n\<close> calls of \<open>palloc\<close> in a row return \<open>n\<close>
  different pages, none of which was in use, and take exactly these from the free pages.\<close>

theorem palloc_no_double_allocation:
  assumes "mat_inv s" "n \<le> card (free_pages s)"
  shows "\<exists>ps s'. repeatK n palloc s = Inr (ps, s') \<and> length ps = n \<and> distinct ps \<and>
    set ps \<subseteq> free_pages s \<and> free_pages s' = free_pages s - set ps \<and> mat_inv s'"
  using pmm.alloc_many [OF assms] by blast

theorem palloc_no_double_allocation_witness:
  "\<exists>ps s'. repeatK 2 palloc demo_mat = Inr (ps, s') \<and> distinct ps \<and> set ps = {0x40000, 0x40002} \<and>
    free_pages s' = {}"
proof -
  have "2 \<le> card (free_pages demo_mat)" by (simp add: demo_mat_facts)
  from palloc_no_double_allocation [OF demo_mat_facts(1) this] obtain ps s' where
    *: "repeatK 2 palloc demo_mat = Inr (ps, s')" "length ps = 2" "distinct ps"
      "set ps \<subseteq> {0x40000, 0x40002}" "free_pages s' = {0x40000, 0x40002} - set ps"
    by (auto simp: demo_mat_facts(2))
  have "set ps = {0x40000, 0x40002}"
    using * by (intro card_subset_eq) (simp_all add: distinct_card)
  with * show ?thesis by auto
qed

text \<open>C6: freeing the page that \<open>palloc\<close> just handed out makes the set of free pages what it
  was before, and keeps the invariant.\<close>

theorem palloc_pfree_roundtrip:
  assumes "mat_inv s" "free_pages s \<noteq> {}"
  shows "\<exists>p s'. bindK palloc (\<lambda>p. seqK (pfree p) (returnK p)) s = Inr (p, s') \<and>
    p \<in> free_pages s \<and> free_pages s' = free_pages s \<and> norm_pages s' = norm_pages s \<and> mat_inv s'"
  by (rule pmm.alloc_free [OF assms])

theorem palloc_pfree_roundtrip_witness:
  "\<exists>p s'. bindK palloc (\<lambda>p. seqK (pfree p) (returnK p)) demo_mat = Inr (p, s') \<and>
    free_pages s' = {0x40000, 0x40002}"
  using palloc_pfree_roundtrip [OF demo_mat_facts(1)] by (auto simp: demo_mat_facts(2))

end
