(* ===== verification/MContainer.thy ===== *)
theory MContainer
  imports MAT
begin

text \<open>
  Containers, \<open>kern/pmm/MContainer\<close>: every process has a quota of physical pages; a process can
  give a part of its quota to a child and can turn quota into pages.
\<close>

section \<open>State and operations\<close>

record SContainer =
  quota :: u32
  usage :: u32
  parent :: u32
  nchildren :: u32
  used :: u32

record container = mat +
  CONTAINER :: "u32 \<Rightarrow> SContainer"

definition set_container :: "u32 \<Rightarrow> (SContainer \<Rightarrow> SContainer) \<Rightarrow> 'a container_scheme \<Rightarrow> 'a container_scheme" where
  "set_container cid f s = s\<lparr>CONTAINER := (CONTAINER s)(cid := f (CONTAINER s cid))\<rparr>"

text \<open>The loop that counts the free normal pages.\<close>

definition count_quota :: "'a container_scheme \<Rightarrow> u32 \<Rightarrow> u32" where
  "count_quota s nps = fold (\<lambda>idx real_quota. if norm_free s idx then real_quota + 1 else real_quota)
     (word_range 1 nps) 0"

definition container_init :: "('a container_scheme, unit) kern \<Rightarrow> ('a container_scheme, unit) kern" where
  "container_init devinit = seqK (pmem_init devinit)
     (bindK get_nps (\<lambda>nps. bindK (readK (\<lambda>s. count_quota s nps)) (\<lambda>real_quota.
      seqK (modifyK (set_container 0 (\<lambda>_.
        \<lparr>quota = real_quota, usage = 0, parent = 0, nchildren = 0, used = 1\<rparr>)))
      (forK (word_range 0 NUM_IDS) (\<lambda>idx. spinlock_init (Container_lk idx))))))"

definition container_get_parent :: "u32 \<Rightarrow> ('a container_scheme, u32) kern" where
  "container_get_parent cid = indexK cid NUM_IDS (readK (\<lambda>s. parent (CONTAINER s cid)))"

definition container_get_nchildren :: "u32 \<Rightarrow> ('a container_scheme, u32) kern" where
  "container_get_nchildren cid = indexK cid NUM_IDS (readK (\<lambda>s. nchildren (CONTAINER s cid)))"

definition container_get_quota :: "u32 \<Rightarrow> ('a container_scheme, u32) kern" where
  "container_get_quota cid = indexK cid NUM_IDS (readK (\<lambda>s. quota (CONTAINER s cid)))"

definition container_get_usage :: "u32 \<Rightarrow> ('a container_scheme, u32) kern" where
  "container_get_usage cid = indexK cid NUM_IDS (readK (\<lambda>s. usage (CONTAINER s cid)))"

text \<open>\<open>usage + n\<close> is an unsigned sum, so the comparison is unsigned.\<close>

definition container_can_consume :: "u32 \<Rightarrow> u32 \<Rightarrow> ('a container_scheme, u32) kern" where
  "container_can_consume cid n = indexK cid NUM_IDS
     (readK (\<lambda>s. if usage (CONTAINER s cid) + n \<le> quota (CONTAINER s cid) then 1 else 0))"

text \<open>The early return leaves \<open>container_lks[id]\<close> locked.\<close>

definition container_split :: "u32 \<Rightarrow> u32 \<Rightarrow> ('a container_scheme, u32) kern" where
  "container_split cid q = indexK cid NUM_IDS (seqK (spinlock_acquire (Container_lk cid))
     (bindK (readK (\<lambda>s. nchildren (CONTAINER s cid))) (\<lambda>nc.
      let child = cid * MAX_CHILDREN + 1 + nc in
      if NUM_IDS \<le> child then returnK NUM_IDS
      else seqK (modifyK (set_container child (\<lambda>_.
             \<lparr>quota = q, usage = 0, parent = cid, nchildren = 0, used = 1\<rparr>)))
        (seqK (modifyK (set_container cid (\<lambda>c. c\<lparr>usage := usage c + q, nchildren := nchildren c + 1\<rparr>)))
        (seqK (spinlock_release (Container_lk cid)) (returnK child))))))"

text \<open>Here \<open>usage\<close> and \<open>quota\<close> are compared as signed integers.\<close>

definition container_alloc :: "u32 \<Rightarrow> ('a container_scheme, u32) kern" where
  "container_alloc cid = indexK cid NUM_IDS (critical (Container_lk cid)
     (bindK (readK (\<lambda>s. CONTAINER s cid)) (\<lambda>c.
      if sint (usage c + 1) \<le> sint (quota c)
      then seqK (modifyK (set_container cid (\<lambda>c. c\<lparr>usage := usage c + 1\<rparr>))) palloc
      else returnK 0)))"

definition container_free :: "u32 \<Rightarrow> u32 \<Rightarrow> ('a container_scheme, unit) kern" where
  "container_free cid page_index = indexK cid NUM_IDS (critical (Container_lk cid)
     (bindK (at_is_allocated page_index) (\<lambda>a.
      whenK (a \<noteq> 0) (seqK (pfree page_index)
        (bindK (readK (\<lambda>s. usage (CONTAINER s cid))) (\<lambda>u.
         whenK (sint u > 0) (modifyK (set_container cid (\<lambda>c. c\<lparr>usage := usage c - 1\<rparr>)))))))))"

section \<open>The accounting invariant\<close>

type_synonym ctr_table = "u32 \<Rightarrow> SContainer"

definition is_used :: "ctr_table \<Rightarrow> u32 \<Rightarrow> bool" where
  "is_used C i \<longleftrightarrow> i < NUM_IDS \<and> used (C i) \<noteq> 0"

text \<open>Pages a container may still turn into memory or give away, and all of them together.\<close>

definition slack :: "SContainer \<Rightarrow> nat" where
  "slack c = (if used c \<noteq> 0 then unat (quota c) - unat (usage c) else 0)"

definition total_slack :: "ctr_table \<Rightarrow> nat" where
  "total_slack C = (\<Sum>i | i < NUM_IDS. slack (C i))"

definition child_id :: "u32 \<Rightarrow> u32 \<Rightarrow> u32" where
  "child_id i k = i * MAX_CHILDREN + 1 + k"

text \<open>The used containers form a tree: the children of \<open>i\<close> in use are its first
  \<open>nchildren\<close> ones.\<close>

definition ctr_tree :: "ctr_table \<Rightarrow> bool" where
  "ctr_tree C \<longleftrightarrow> is_used C 0 \<and>
     (\<forall>i < NUM_IDS. nchildren (C i) \<le> MAX_CHILDREN \<and> (used (C i) = 0 \<longrightarrow> nchildren (C i) = 0)) \<and>
     (\<forall>i k. i < NUM_IDS \<longrightarrow> k < MAX_CHILDREN \<longrightarrow> child_id i k < NUM_IDS \<longrightarrow>
       (used (C (child_id i k)) \<noteq> 0 \<longleftrightarrow> k < nchildren (C i)) \<and>
       (used (C (child_id i k)) \<noteq> 0 \<longrightarrow> parent (C (child_id i k)) = i))"

definition ctr_bounded :: "ctr_table \<Rightarrow> bool" where
  "ctr_bounded C \<longleftrightarrow> (\<forall>i < NUM_IDS. used (C i) \<noteq> 0 \<longrightarrow>
     usage (C i) \<le> quota (C i) \<and> unat (quota (C i)) \<le> 2 ^ 20)"

text \<open>No container uses more than its quota, and the unused quota of all containers together
  is covered by free pages.\<close>

definition ctr_inv :: "'a container_scheme \<Rightarrow> bool" where
  "ctr_inv s \<longleftrightarrow> mat_inv s \<and> (\<forall>i < NUM_IDS. locks s (Container_lk i) = spin_free) \<and>
     ctr_tree (CONTAINER s) \<and> ctr_bounded (CONTAINER s) \<and>
     total_slack (CONTAINER s) \<le> card (free_pages s)"

lemma unat_child_id:
  assumes "i < NUM_IDS" "k \<le> MAX_CHILDREN"
  shows "unat (child_id i k) = 3 * unat i + 1 + unat k"
  using assms
  by (simp add: child_id_def NUM_IDS_def MAX_CHILDREN_def word_less_nat_alt word_le_nat_alt unat_word_ariths)

lemma child_id_inj:
  assumes "i < NUM_IDS" "k < MAX_CHILDREN" "j < NUM_IDS" "l < MAX_CHILDREN" "child_id i k = child_id j l"
  shows "i = j \<and> k = l"
proof -
  have "3 * unat i + 1 + unat k = 3 * unat j + 1 + unat l"
    using arg_cong [OF assms(5), of unat] unat_child_id [OF assms(1), of k] unat_child_id [OF assms(3), of l]
      assms(2,4) by simp
  moreover have "unat k < 3" "unat l < 3"
    using assms(2,4) by (simp_all add: MAX_CHILDREN_def word_less_nat_alt)
  ultimately have "unat i = unat j \<and> unat k = unat l" by presburger
  then show ?thesis by (simp add: word_unat_eq_iff)
qed

lemma child_id_gt:
  assumes "i < NUM_IDS" "k < MAX_CHILDREN"
  shows "child_id i k \<noteq> 0" "child_id i k \<noteq> i"
proof -
  have "unat (child_id i k) = 3 * unat i + 1 + unat k"
    using assms by (intro unat_child_id) auto
  then show "child_id i k \<noteq> 0" "child_id i k \<noteq> i" by auto
qed

lemma total_slack_update:
  assumes "i < NUM_IDS"
  shows "total_slack (C(i := c)) + slack (C i) = total_slack C + slack c"
proof -
  let ?I = "{i. i < NUM_IDS}"
  have "total_slack (C(i := c)) = slack c + (\<Sum>j \<in> ?I - {i}. slack (C j))"
    using assms by (simp add: total_slack_def sum.remove [of ?I i])
  moreover have "total_slack C = slack (C i) + (\<Sum>j \<in> ?I - {i}. slack (C j))"
    using assms by (simp add: total_slack_def sum.remove [of ?I i])
  ultimately show ?thesis by simp
qed

lemma slack_le_total: "i < NUM_IDS \<Longrightarrow> slack (C i) \<le> total_slack C"
  unfolding total_slack_def by (intro member_le_sum) auto

text \<open>Changing \<open>usage\<close> alone leaves the tree.\<close>

lemma ctr_tree_usage:
  assumes "ctr_tree C"
  shows "ctr_tree (C(i := (C i)\<lparr>usage := u\<rparr>))"
proof -
  have "used ((C(i := (C i)\<lparr>usage := u\<rparr>)) j) = used (C j)"
    "nchildren ((C(i := (C i)\<lparr>usage := u\<rparr>)) j) = nchildren (C j)"
    "parent ((C(i := (C i)\<lparr>usage := u\<rparr>)) j) = parent (C j)" for j
    by simp_all
  with assms show ?thesis unfolding ctr_tree_def is_used_def by presburger
qed

lemma ctr_mat_frame [simp]:
  "mat_inv (set_container i f s) = mat_inv s" "free_pages (set_container i f s) = free_pages s"
  "norm_pages (set_container i f s) = norm_pages s" "locks (set_container i f s) = locks s"
  "cpu_ok (set_container i f s) = cpu_ok s" "norm_free (set_container i f s) = norm_free s"
  "AT (set_container i f s) = AT s"
  by (simp_all add: set_container_def mat_inv_def cpu_ok_def free_pages_def norm_pages_def norm_free_def
      fun_eq_iff)

lemma ctr_lock_frame [simp]:
  "mat_inv (take_lock (Container_lk i) s) = mat_inv s"
  "CONTAINER (take_lock lk s) = CONTAINER s" "CONTAINER (drop_lock lk s) = CONTAINER s"
  "free_pages (take_lock lk s) = free_pages s" "free_pages (drop_lock lk s) = free_pages s"
  "norm_pages (take_lock lk s) = norm_pages s" "norm_pages (drop_lock lk s) = norm_pages s"
  "drop_lock lk (set_container i f s) = set_container i f (drop_lock lk s)"
  "set_container i f (take_lock lk s) = take_lock lk (set_container i f s)"
  "(take_lock lk s)\<lparr>AT := a\<rparr> = take_lock lk (s\<lparr>AT := a\<rparr>)"
  "(take_lock lk s)\<lparr>last_palloc_index := n\<rparr> = take_lock lk (s\<lparr>last_palloc_index := n\<rparr>)"
  by (simp_all add: take_lock_def drop_lock_def set_container_def mat_inv_def free_pages_def norm_pages_def
      norm_free_def cpu_ok_def this_cpu_def)

lemma CONTAINER_set_container: "CONTAINER (set_container i f s) = (CONTAINER s)(i := f (CONTAINER s i))"
  by (simp add: set_container_def)

lemma ctr_lock:
  assumes "ctr_inv s" "i < NUM_IDS"
  shows "cpu_ok s" "lock_free (Container_lk i) s" "locks s (Container_lk i) = spin_free"
    "mat_inv s"
  using assms by (auto simp: ctr_inv_def mat_inv_def lock_free_spin_free)

section \<open>Behaviour of the operations\<close>

text \<open>With quota left, \<open>container_alloc\<close> never comes back empty-handed.\<close>

lemma free_page_exists:
  assumes "ctr_inv s" "is_used (CONTAINER s) i" "usage (CONTAINER s i) < quota (CONTAINER s i)"
  shows "free_pages s \<noteq> {}"
proof -
  have "0 < slack (CONTAINER s i)"
    using assms(2,3) by (simp add: slack_def is_used_def word_less_nat_alt)
  also have "\<dots> \<le> total_slack (CONTAINER s)"
    using assms(2) by (intro slack_le_total) (simp add: is_used_def)
  finally show ?thesis using assms(1) by (auto simp: ctr_inv_def)
qed

lemma quota_signed:
  assumes "ctr_inv s" "is_used (CONTAINER s) i"
  shows "sint (usage (CONTAINER s i) + 1) \<le> sint (quota (CONTAINER s i)) \<longleftrightarrow>
    usage (CONTAINER s i) < quota (CONTAINER s i)"
    "sint (usage (CONTAINER s i)) > 0 \<longleftrightarrow> usage (CONTAINER s i) > 0"
proof -
  let ?u = "usage (CONTAINER s i)" and ?q = "quota (CONTAINER s i)"
  have b: "unat ?u \<le> unat ?q" "unat ?q \<le> 2 ^ 20"
    using assms by (auto simp: ctr_inv_def ctr_bounded_def is_used_def word_le_nat_alt)
  from b have u: "unat (?u + 1) = Suc (unat ?u)" by (simp add: unat_word_ariths)
  show "sint ?u > 0 \<longleftrightarrow> ?u > 0"
    using b by (intro sint_cmp_unat(3) [of _ ?u]) simp_all
  have "sint (?u + 1) \<le> sint ?q \<longleftrightarrow> ?u + 1 \<le> ?q"
    using b u by (intro sint_cmp_unat(1)) simp_all
  then show "sint (?u + 1) \<le> sint ?q \<longleftrightarrow> ?u < ?q"
    by (simp add: u word_le_nat_alt word_less_nat_alt Suc_le_eq)
qed

lemma container_alloc_quota:
  assumes "ctr_inv s" "is_used (CONTAINER s) i" "usage (CONTAINER s i) < quota (CONTAINER s i)"
  shows "\<exists>pg. norm_free s pg \<and> container_alloc i s = Inr (pg,
    set_container i (\<lambda>c. c\<lparr>usage := usage c + 1\<rparr>)
      (s\<lparr>AT := (AT s)(pg := (AT s pg)\<lparr>allocated := 1\<rparr>), last_palloc_index := pg\<rparr>))"
proof -
  have i: "i < NUM_IDS" using assms(2) by (simp add: is_used_def)
  note lk = ctr_lock [OF assms(1) i]
  let ?s1 = "set_container i (\<lambda>c. c\<lparr>usage := usage c + 1\<rparr>) (take_lock (Container_lk i) s)"
  have "mat_inv ?s1" using lk by simp
  moreover have "free_pages ?s1 \<noteq> {}" using free_page_exists [OF assms] by simp
  ultimately obtain pg where pg: "norm_free s pg" "palloc ?s1 = Inr (pg,
      ?s1\<lparr>AT := (AT s)(pg := (AT s pg)\<lparr>allocated := 1\<rparr>), last_palloc_index := pg\<rparr>)"
    using palloc_cases [of ?s1] by (auto simp: free_pages_def)
  have "container_alloc i s = Inr (pg, drop_lock (Container_lk i)
      (?s1\<lparr>AT := (AT s)(pg := (AT s pg)\<lparr>allocated := 1\<rparr>), last_palloc_index := pg\<rparr>))"
    unfolding container_alloc_def
    using i pg quota_signed(1) [OF assms(1,2)] assms(3)
    by (simp add: indexK_def critical_spec [OF lk(1,2)] monad_defs)
  also have "drop_lock (Container_lk i)
      (?s1\<lparr>AT := (AT s)(pg := (AT s pg)\<lparr>allocated := 1\<rparr>), last_palloc_index := pg\<rparr>) =
    set_container i (\<lambda>c. c\<lparr>usage := usage c + 1\<rparr>)
      (s\<lparr>AT := (AT s)(pg := (AT s pg)\<lparr>allocated := 1\<rparr>), last_palloc_index := pg\<rparr>)"
    using lk(3) by (simp add: drop_lock_def take_lock_def set_container_def fun_upd_same_value)
  finally show ?thesis using pg(1) by blast
qed

lemma container_alloc_full:
  assumes "ctr_inv s" "is_used (CONTAINER s) i" "\<not> usage (CONTAINER s i) < quota (CONTAINER s i)"
  shows "container_alloc i s = Inr (0, s)"
proof -
  have i: "i < NUM_IDS" using assms(2) by (simp add: is_used_def)
  note lk = ctr_lock [OF assms(1) i]
  show ?thesis
    unfolding container_alloc_def
    using i quota_signed(1) [OF assms(1,2)] assms(3) lk(3)
    by (simp add: indexK_def critical_spec [OF lk(1,2)] monad_defs drop_take_lock)
qed

lemma container_split_eq:
  fixes s :: "'a container_scheme"
  assumes "ctr_inv s" "i < NUM_IDS"
  defines "child \<equiv> child_id i (nchildren (CONTAINER s i))"
  shows "container_split i q s = (if NUM_IDS \<le> child then Inr (NUM_IDS, take_lock (Container_lk i) s)
    else Inr (child, set_container i (\<lambda>c. c\<lparr>usage := usage c + q, nchildren := nchildren c + 1\<rparr>)
      (set_container child (\<lambda>_. \<lparr>quota = q, usage = 0, parent = i, nchildren = 0, used = 1\<rparr>) s)))"
proof -
  note lk = ctr_lock [OF assms(1,2)]
  show ?thesis
    unfolding container_split_def
    using assms(2) lk
    by (simp add: monad_defs spin.acquire_free spin.release_eq child_def child_id_def
        drop_take_lock Let_def)
qed

lemma container_free_eq:
  assumes "ctr_inv s" "is_used (CONTAINER s) i" "pg < AT_SIZE"
  shows "container_free i pg s = Inr ((),
    if allocated (AT s pg) = 0 then s
    else (let s1 = s\<lparr>AT := (AT s)(pg := (AT s pg)\<lparr>allocated := 0\<rparr>)\<rparr> in
      if usage (CONTAINER s i) > 0 then set_container i (\<lambda>c. c\<lparr>usage := usage c - 1\<rparr>) s1 else s1))"
proof -
  have i: "i < NUM_IDS" using assms(2) by (simp add: is_used_def)
  note lk = ctr_lock [OF assms(1) i]
  let ?t = "take_lock (Container_lk i) s"
  have "mat_inv ?t" using lk by simp
  note pf = pfree_eq [OF this assms(3)]
  have drop: "drop_lock (Container_lk i) (take_lock (Container_lk i) u) = u"
    if "locks u = locks s" for u :: "'a container_scheme"
    using that lk(3) by (simp add: drop_take_lock)
  show ?thesis
    unfolding container_free_def
    using i assms(3) quota_signed(2) [OF assms(1,2)]
    by (simp add: indexK_def critical_spec [OF lk(1,2)] at_is_allocated_def monad_defs pf drop Let_def
        word_greater_zero_iff)
qed

section \<open>The invariant is kept\<close>

lemma ctr_bounded_usage:
  assumes "ctr_bounded C" "u \<le> quota (C i)"
  shows "ctr_bounded (C(i := (C i)\<lparr>usage := u\<rparr>))"
  using assms by (simp add: ctr_bounded_def)

lemma slack_step:
  assumes "used c \<noteq> 0" "usage c < quota c"
  shows "slack (c\<lparr>usage := usage c + 1\<rparr>) + 1 = slack c" "usage c + 1 \<le> quota c"
proof -
  have lt: "unat (usage c) < unat (quota c)" using assms(2) by (simp add: word_less_nat_alt)
  moreover have "unat (quota c) < 2 ^ 32" using unat_bound [of "quota c"] by simp
  ultimately have "unat (usage c + 1) = Suc (unat (usage c))" by (simp add: unat_word_ariths)
  with lt assms(1) show "slack (c\<lparr>usage := usage c + 1\<rparr>) + 1 = slack c" "usage c + 1 \<le> quota c"
    by (simp_all add: slack_def word_le_nat_alt)
qed

lemma slack_unstep:
  assumes "used c \<noteq> 0" "0 < usage c" "usage c \<le> quota c"
  shows "slack (c\<lparr>usage := usage c - 1\<rparr>) = slack c + 1" "usage c - 1 \<le> quota c"
proof -
  have "0 < unat (usage c)" "unat (usage c) \<le> unat (quota c)"
    using assms(2,3) by (simp_all add: word_less_nat_alt word_le_nat_alt)
  moreover have "unat (usage c - 1) = unat (usage c) - 1"
    using assms(2) by (intro unat_minus_one) auto
  ultimately show "slack (c\<lparr>usage := usage c - 1\<rparr>) = slack c + 1" "usage c - 1 \<le> quota c"
    using assms(1) by (simp_all add: slack_def word_le_nat_alt)
qed

lemma container_alloc_inv:
  assumes "ctr_inv s" "is_used (CONTAINER s) i"
  shows "wpK (container_alloc i) (\<lambda>_. ctr_inv) s"
proof (cases "usage (CONTAINER s i) < quota (CONTAINER s i)")
  case False
  then show ?thesis using assms container_alloc_full [OF assms] by (simp add: wpK_def)
next
  case True
  let ?C = "CONTAINER s"
  from container_alloc_quota [OF assms True] obtain pg where pg: "norm_free s pg"
      "container_alloc i s = Inr (pg, set_container i (\<lambda>c. c\<lparr>usage := usage c + 1\<rparr>)
        (s\<lparr>AT := (AT s)(pg := (AT s pg)\<lparr>allocated := 1\<rparr>), last_palloc_index := pg\<rparr>))"
    (is "_ = Inr (_, set_container i _ ?s1)")
    by blast
  have i: "i < NUM_IDS" "used (?C i) \<noteq> 0" using assms(2) by (simp_all add: is_used_def)
  have mat: "mat_inv s" using assms(1) by (simp add: ctr_inv_def)
  have "mat_inv ?s1"
    using norm_free_user [OF mat pg(1)] by (intro mat_inv_update mat) auto
  moreover have "free_pages ?s1 = free_pages s - {pg}"
    by (auto simp: free_pages_def norm_free_def)
  moreover have "pg \<in> free_pages s" using pg(1) by (simp add: free_pages_def)
  moreover have "total_slack (?C(i := (?C i)\<lparr>usage := usage (?C i) + 1\<rparr>)) + 1 = total_slack ?C"
    using total_slack_update [OF i(1), of ?C "(?C i)\<lparr>usage := usage (?C i) + 1\<rparr>"]
      slack_step(1) [OF i(2) True] by linarith
  ultimately show ?thesis
    using assms(1) slack_step(2) [OF i(2) True] unfolding wpK_Inr [where m = "container_alloc i", OF pg(2)]
    by (auto simp: ctr_inv_def CONTAINER_set_container ctr_tree_usage ctr_bounded_usage
        card_Diff_singleton)
qed

lemma container_free_inv:
  assumes "ctr_inv s" "is_used (CONTAINER s) i" "pg \<in> norm_pages s"
  shows "wpK (container_free i pg) (\<lambda>_. ctr_inv) s"
proof -
  let ?C = "CONTAINER s" and ?s1 = "s\<lparr>AT := (AT s)(pg := (AT s pg)\<lparr>allocated := 0\<rparr>)\<rparr>"
  have i: "i < NUM_IDS" "used (?C i) \<noteq> 0" using assms(2) by (simp_all add: is_used_def)
  have mat: "mat_inv s" and up: "user_page pg"
    using assms(1,3) by (auto simp: ctr_inv_def mat_inv_def norm_pages_def)
  note run = container_free_eq [OF assms(1,2) user_page_bounds(1) [OF up]]
  have mat1: "mat_inv ?s1" by (rule mat_inv_update(2) [OF mat _ up]) simp
  have free1: "free_pages ?s1 = insert pg (free_pages s)"
    using assms(3) by (auto simp: free_pages_def norm_free_def norm_pages_def)
  have new: "card (free_pages ?s1) = Suc (card (free_pages s))" if "allocated (AT s pg) \<noteq> 0"
    using that unfolding free1 by (subst card_insert_disjoint) (auto simp: free_pages_def norm_free_def)
  have slk: "total_slack (?C(i := (?C i)\<lparr>usage := usage (?C i) - 1\<rparr>)) = total_slack ?C + 1"
      "usage (?C i) - 1 \<le> quota (?C i)" if "0 < usage (?C i)"
  proof -
    have "usage (?C i) \<le> quota (?C i)" using assms(1) i by (simp add: ctr_inv_def ctr_bounded_def)
    note st = slack_unstep [OF i(2) that this]
    show "usage (?C i) - 1 \<le> quota (?C i)" by (rule st(2))
    show "total_slack (?C(i := (?C i)\<lparr>usage := usage (?C i) - 1\<rparr>)) = total_slack ?C + 1"
      using total_slack_update [OF i(1), of ?C "(?C i)\<lparr>usage := usage (?C i) - 1\<rparr>"] st(1) by linarith
  qed
  show ?thesis
    unfolding wpK_Inr [where m = "container_free i pg", OF run]
    using assms(1) mat1 new slk
    by (auto simp: ctr_inv_def CONTAINER_set_container ctr_tree_usage ctr_bounded_usage Let_def)
qed

text \<open>What \<open>container_split\<close> does to the table.\<close>

definition split_table :: "ctr_table \<Rightarrow> u32 \<Rightarrow> u32 \<Rightarrow> ctr_table" where
  "split_table C i q =
     (C(child_id i (nchildren (C i)) := \<lparr>quota = q, usage = 0, parent = i, nchildren = 0, used = 1\<rparr>))
       (i := (C i)\<lparr>usage := usage (C i) + q, nchildren := nchildren (C i) + 1\<rparr>)"

text \<open>The caller's checks: the parent is in use and can have one more child, whose id exists,
  and the quota is there.\<close>

definition can_split :: "ctr_table \<Rightarrow> u32 \<Rightarrow> u32 \<Rightarrow> bool" where
  "can_split C i q \<longleftrightarrow> is_used C i \<and> nchildren (C i) < MAX_CHILDREN \<and>
     child_id i (nchildren (C i)) < NUM_IDS \<and> unat (usage (C i)) + unat q \<le> unat (quota (C i))"

lemma child_unused:
  assumes "ctr_tree C" "can_split C i q"
  shows "used (C (child_id i (nchildren (C i)))) = 0" "nchildren (C (child_id i (nchildren (C i)))) = 0"
proof -
  have c: "i < NUM_IDS" "nchildren (C i) < MAX_CHILDREN" "child_id i (nchildren (C i)) < NUM_IDS"
    using assms(2) by (auto simp: can_split_def is_used_def)
  with assms(1) show "used (C (child_id i (nchildren (C i)))) = 0"
    unfolding ctr_tree_def by blast
  with assms(1) c(3) show "nchildren (C (child_id i (nchildren (C i)))) = 0"
    unfolding ctr_tree_def by blast
qed

lemma ctr_tree_split:
  assumes "ctr_tree C" "can_split C i q"
  shows "ctr_tree (split_table C i q)"
proof -
  let ?nc = "nchildren (C i)" and ?C = "split_table C i q"
  let ?ch = "child_id i ?nc"
  have c: "i < NUM_IDS" "used (C i) \<noteq> 0" "?nc < MAX_CHILDREN" "?ch < NUM_IDS"
    using assms(2) by (auto simp: can_split_def is_used_def)
  note new = child_unused [OF assms] child_id_gt [OF c(1,3)]
  have nc: "?nc + 1 \<le> MAX_CHILDREN" "k < ?nc + 1 \<longleftrightarrow> k = ?nc \<or> k < ?nc" for k
    using c(3) by (auto simp: MAX_CHILDREN_def word_le_nat_alt word_less_nat_alt word_unat_eq_iff
        unat_word_ariths)
  have used: "used (?C j) = (if j = ?ch then 1 else used (C j))" for j
    using new(4) by (simp add: split_table_def)
  have nch: "nchildren (?C j) = (if j = i then ?nc + 1 else nchildren (C j))" for j
    using new by (simp add: split_table_def)
  have par: "parent (?C j) = (if j = ?ch then i else parent (C j))" for j
    using new(4) by (simp add: split_table_def)
  have "(used (?C (child_id j k)) \<noteq> 0 \<longleftrightarrow> k < nchildren (?C j)) \<and>
      (used (?C (child_id j k)) \<noteq> 0 \<longrightarrow> parent (?C (child_id j k)) = j)"
    if j: "j < NUM_IDS" "k < MAX_CHILDREN" "child_id j k < NUM_IDS" for j k
  proof (cases "child_id j k = ?ch")
    case True
    then have "j = i" "k = ?nc" using child_id_inj [OF j(1,2) c(1,3)] by auto
    then show ?thesis by (simp add: used nch par nc(2))
  next
    case False
    then have "j \<noteq> i \<or> k \<noteq> ?nc" by auto
    moreover have "(used (C (child_id j k)) \<noteq> 0 \<longleftrightarrow> k < nchildren (C j)) \<and>
        (used (C (child_id j k)) \<noteq> 0 \<longrightarrow> parent (C (child_id j k)) = j)"
      using assms(1) j unfolding ctr_tree_def by blast
    ultimately show ?thesis using False by (auto simp: used nch par nc(2))
  qed
  moreover have "nchildren (?C j) \<le> MAX_CHILDREN \<and> (used (?C j) = 0 \<longrightarrow> nchildren (?C j) = 0)"
    if "j < NUM_IDS" for j
    using assms(1) that c(2) nc(1) new(4) by (auto simp: used nch ctr_tree_def)
  moreover have "is_used ?C 0"
    using assms(1) by (simp add: is_used_def used ctr_tree_def)
  ultimately show ?thesis unfolding ctr_tree_def by blast
qed

lemma total_slack_split:
  assumes "ctr_tree C" "can_split C i q"
  shows "total_slack (split_table C i q) = total_slack C"
proof -
  let ?ch = "child_id i (nchildren (C i))"
  let ?new = "\<lparr>quota = q, usage = 0, parent = i, nchildren = 0, used = 1\<rparr>"
  have c: "i < NUM_IDS" "used (C i) \<noteq> 0" "nchildren (C i) < MAX_CHILDREN" "?ch < NUM_IDS"
      "unat (usage (C i)) + unat q \<le> unat (quota (C i))"
    using assms(2) by (auto simp: can_split_def is_used_def)
  have "unat (usage (C i) + q) = unat (usage (C i)) + unat q"
    using c(5) unat_bound [of "quota (C i)"] by (intro unat_add_lem [THEN iffD1]) simp
  with c(2,5) have "slack ((C i)\<lparr>usage := usage (C i) + q, nchildren := nchildren (C i) + 1\<rparr>) + unat q = slack (C i)"
    by (simp add: slack_def)
  moreover have "slack (C ?ch) = 0" "slack ?new = unat q"
    using child_unused [OF assms] by (simp_all add: slack_def)
  ultimately show ?thesis
    using total_slack_update [OF c(4), of C ?new] child_id_gt(2) [OF c(1,3)]
      total_slack_update [OF c(1), of "C(?ch := ?new)"
        "(C i)\<lparr>usage := usage (C i) + q, nchildren := nchildren (C i) + 1\<rparr>"]
    by (simp add: split_table_def)
qed

lemma ctr_bounded_split:
  assumes "ctr_bounded C" "can_split C i q"
  shows "ctr_bounded (split_table C i q)"
proof -
  have c: "i < NUM_IDS" "used (C i) \<noteq> 0" "unat (usage (C i)) + unat q \<le> unat (quota (C i))"
    using assms(2) by (auto simp: can_split_def is_used_def)
  have "unat (usage (C i) + q) = unat (usage (C i)) + unat q"
    using c(3) unat_bound [of "quota (C i)"] by (intro unat_add_lem [THEN iffD1]) simp
  moreover have "unat (quota (C i)) \<le> 2 ^ 20" using assms(1) c by (simp add: ctr_bounded_def)
  ultimately show ?thesis
    using assms(1) c by (auto simp: ctr_bounded_def split_table_def word_le_nat_alt)
qed

lemma container_split_run:
  assumes "ctr_inv s" "can_split (CONTAINER s) i q"
  defines "child \<equiv> child_id i (nchildren (CONTAINER s i))"
  shows "container_split i q s = Inr (child, s\<lparr>CONTAINER := split_table (CONTAINER s) i q\<rparr>)"
    "ctr_inv (s\<lparr>CONTAINER := split_table (CONTAINER s) i q\<rparr>)"
proof -
  have c: "i < NUM_IDS" "nchildren (CONTAINER s i) < MAX_CHILDREN" "\<not> NUM_IDS \<le> child"
    using assms(2) by (auto simp: can_split_def is_used_def child_def)
  show "container_split i q s = Inr (child, s\<lparr>CONTAINER := split_table (CONTAINER s) i q\<rparr>)"
    using container_split_eq [OF assms(1) c(1), of q] c child_id_gt(2) [OF c(1,2)]
    by (simp add: child_def split_table_def set_container_def)
  show "ctr_inv (s\<lparr>CONTAINER := split_table (CONTAINER s) i q\<rparr>)"
    using assms(1) ctr_tree_split [OF _ assms(2)] ctr_bounded_split [OF _ assms(2)]
      total_slack_split [OF _ assms(2)]
    by (simp add: ctr_inv_def mat_inv_def cpu_ok_def free_pages_def norm_free_def)
qed

section \<open>Initialisation\<close>

lemma count_fold:
  "fold (\<lambda>idx n. if P idx then n + 1 else n) xs (n :: u32) = n + word_of_nat (length (filter P xs))"
  by (induction xs arbitrary: n) simp_all

lemma count_quota_card:
  assumes "mat_inv s"
  shows "count_quota s (NUM_PAGES s) = word_of_nat (card (free_pages s))"
proof -
  let ?xs = "filter (norm_free s) (word_range 1 (NUM_PAGES s))"
  have "set ?xs = free_pages s"
    using norm_free_user [OF assms] user_page_bounds(2)
    by (auto simp: set_word_range free_pages_def word_le_nat_alt Suc_le_eq unat_gt_0)
  then have "length ?xs = card (free_pages s)"
    by (metis distinct_card distinct_filter distinct_word_range)
  then show ?thesis by (simp add: count_quota_def count_fold)
qed

lemma card_free_pages:
  assumes "mat_inv s"
  shows "card (free_pages s) \<le> 2 ^ 20"
proof -
  have "free_pages s \<subseteq> set (word_range 0 AT_SIZE)"
    using norm_free_user [OF assms] user_page_bounds(1) by (auto simp: set_word_range free_pages_def)
  then have "card (free_pages s) \<le> length (word_range 0 AT_SIZE)"
    by (meson card_length card_mono finite_set order_trans)
  then show ?thesis by (simp add: length_word_range AT_SIZE_def)
qed

lemma init_locks:
  "forK is (\<lambda>i. spinlock_init (Container_lk i)) s = Inr ((), s\<lparr>locks := (\<lambda>lk.
     if lk \<in> Container_lk ` set is then spin_free else locks s lk)\<rparr>)"
  by (induction "is" arbitrary: s)
    (auto simp: monad_defs spinlock_init_def spin_free_def fun_eq_iff intro!: arg_cong [where f = "\<lambda>l. locks_update l s" for s])

lemma ctr_tree_root: "\<forall>i < NUM_IDS. used (C i) = 0 \<and> nchildren (C i) = 0 \<Longrightarrow>
    ctr_tree (C(0 := \<lparr>quota = q, usage = 0, parent = 0, nchildren = 0, used = 1\<rparr>))"
  using child_id_gt(1) by (auto simp: ctr_tree_def is_used_def NUM_IDS_def)

lemma total_slack_root:
  assumes "\<forall>i < NUM_IDS. used (C i) = 0"
  shows "total_slack (C(0 := \<lparr>quota = q, usage = 0, parent = 0, nchildren = 0, used = 1\<rparr>)) = unat q"
proof -
  have "total_slack C = 0" using assms by (simp add: total_slack_def slack_def)
  moreover have "slack (C 0) = 0" using assms by (simp add: slack_def NUM_IDS_def)
  ultimately show ?thesis
    using total_slack_update [of 0 C "\<lparr>quota = q, usage = 0, parent = 0, nchildren = 0, used = 1\<rparr>"]
    by (simp add: slack_def NUM_IDS_def)
qed

lemma container_init_run:
  assumes "pmem_init devinit s = Inr ((), s1)" "mat_inv s1"
    and "\<forall>i < NUM_IDS. used (CONTAINER s1 i) = 0 \<and> nchildren (CONTAINER s1 i) = 0"
  shows "\<exists>s'. container_init devinit s = Inr ((), s') \<and> ctr_inv s' \<and>
    free_pages s' = free_pages s1 \<and> quota (CONTAINER s' 0) = word_of_nat (card (free_pages s1)) \<and>
    (\<forall>i. is_used (CONTAINER s') i \<longleftrightarrow> i = 0) \<and> container.more s' = container.more s1"
proof -
  let ?q = "word_of_nat (card (free_pages s1)) :: u32"
  let ?C = "(CONTAINER s1)(0 := \<lparr>quota = ?q, usage = 0, parent = 0, nchildren = 0, used = 1\<rparr>)"
  let ?l = "\<lambda>lk. if lk \<in> Container_lk ` set (word_range 0 NUM_IDS) then spin_free else locks s1 lk"
  let ?s' = "s1\<lparr>CONTAINER := ?C, locks := ?l\<rparr>"
  have q: "unat ?q = card (free_pages s1)"
    using card_free_pages [OF assms(2)] by (simp add: unat_of_nat)
  have run: "container_init devinit s = Inr ((), ?s')"
    using assms(1) count_quota_card [OF assms(2)]
    by (simp add: container_init_def monad_defs get_nps_def init_locks set_container_def cong: if_cong)
  have free: "free_pages ?s' = free_pages s1"
    by (simp add: free_pages_def norm_free_def)
  have "mat_inv ?s'"
    using assms(2) by (auto simp: mat_inv_def cpu_ok_def)
  moreover have "\<forall>i < NUM_IDS. ?l (Container_lk i) = spin_free"
    by (auto simp: set_word_range)
  moreover have "ctr_tree ?C" by (rule ctr_tree_root [OF assms(3)])
  moreover have "ctr_bounded ?C"
    using assms(3) card_free_pages [OF assms(2)] q by (simp add: ctr_bounded_def)
  moreover have "total_slack ?C = card (free_pages s1)"
    using total_slack_root [of "CONTAINER s1" ?q] assms(3) q by simp
  ultimately have "ctr_inv ?s'" by (simp add: ctr_inv_def free)
  with run free assms(3) show ?thesis
    by (intro exI [of _ ?s']) (auto simp: is_used_def NUM_IDS_def)
qed

section \<open>Runs of the container operations\<close>

text \<open>The states reachable from \<open>s0\<close> by calls that callers are allowed to make.\<close>

inductive ctr_reach :: "'a container_scheme \<Rightarrow> 'a container_scheme \<Rightarrow> bool" for s0 where
  reach_start: "ctr_reach s0 s0"
| reach_alloc: "ctr_reach s0 s \<Longrightarrow> is_used (CONTAINER s) i \<Longrightarrow> container_alloc i s = Inr (pg, s') \<Longrightarrow>
     ctr_reach s0 s'"
| reach_free: "ctr_reach s0 s \<Longrightarrow> is_used (CONTAINER s) i \<Longrightarrow> pg \<in> norm_pages s \<Longrightarrow>
     container_free i pg s = Inr ((), s') \<Longrightarrow> ctr_reach s0 s'"
| reach_split: "ctr_reach s0 s \<Longrightarrow> can_split (CONTAINER s) i q \<Longrightarrow> container_split i q s = Inr (c, s') \<Longrightarrow>
     ctr_reach s0 s'"

lemma ctr_reach_inv: "ctr_reach s0 s \<Longrightarrow> ctr_inv s0 \<Longrightarrow> ctr_inv s"
proof (induction rule: ctr_reach.induct)
  case (reach_alloc s i pg s')
  then show ?case using container_alloc_inv [of s i] by (simp add: wpK_def)
next
  case (reach_free s i pg s')
  then show ?case using container_free_inv [of s i pg] by (simp add: wpK_def)
next
  case (reach_split s i q c s')
  then show ?case using container_split_run [of s i q] by simp
qed simp

lemma unat_uminus:
  fixes w :: u32
  assumes "w \<noteq> 0"
  shows "unat (- w) = 2 ^ 32 - unat w"
proof -
  have "(unat (- w) + unat w) mod 2 ^ 32 = 0"
    using unat_word_ariths(1) [of "- w" w] by simp
  moreover have "0 < unat w" using assms by (simp add: unat_gt_0)
  moreover have "unat (- w) < 2 ^ 32" "unat w < 2 ^ 32"
    using unat_bound [of "- w"] unat_bound [of w] by simp_all
  ultimately obtain k where "unat (- w) + unat w = 2 ^ 32 * k" "0 < k" "k < 2"
    by (auto simp: mod_eq_0_iff_dvd dvd_def intro: ccontr)
  moreover from this have "k = 1" by simp
  ultimately show ?thesis by simp
qed

section \<open>Properties\<close>

definition ctr_start :: container where
  "ctr_start = mat.extend mat_start
     (container.fields (\<lambda>_. \<lparr>quota = 0, usage = 0, parent = 0, nchildren = 0, used = 0\<rparr>))"


lemma ctr_start_ok: "pmmap_slots_next_free ctr_start = 0" "pmmap_nentries ctr_start = 0"
    "cpu_ok ctr_start" "user_page (last_palloc_index ctr_start)" "\<forall>pg. perm (AT ctr_start pg) = 0"
    "\<forall>i < NUM_IDS. used (CONTAINER ctr_start i) = 0 \<and> nchildren (CONTAINER ctr_start i) = 0"
  by (simp_all add: ctr_start_def mat_start_def mboot_start_def base_start_def mboot.defs base.defs mat.defs
      container.defs cpu_ok_def NUM_CPUS_def user_page_def VM_PI_values)


text \<open>The demonstration machine with a root container that holds two pages of quota.\<close>

definition demo_ctr :: "u32 \<Rightarrow> u32 \<Rightarrow> container" where
  "demo_ctr q u = mat.extend demo_mat
     (container.fields ((\<lambda>_. \<lparr>quota = 0, usage = 0, parent = 0, nchildren = 0, used = 0\<rparr>)
       (0 := \<lparr>quota = q, usage = u, parent = 0, nchildren = 0, used = 1\<rparr>)))"

lemma demo_ctr_simps [simp]:
  "CONTAINER (demo_ctr q u) = (\<lambda>_. \<lparr>quota = 0, usage = 0, parent = 0, nchildren = 0, used = 0\<rparr>)
       (0 := \<lparr>quota = q, usage = u, parent = 0, nchildren = 0, used = 1\<rparr>)"
  "mat_inv (demo_ctr q u)" "locks (demo_ctr q u) lk = spin_free"
  "free_pages (demo_ctr q u) = {0x40000, 0x40002}"
  using demo_mat_facts
  by (simp_all add: demo_ctr_def container.defs mat.defs mat_inv_def cpu_ok_def free_pages_def norm_free_def)
    (simp add: demo_mat_def)

lemma demo_ctr_inv: "u \<le> q \<Longrightarrow> unat q \<le> 2 \<Longrightarrow> ctr_inv (demo_ctr q u)"
proof -
  assume a: "u \<le> q" "unat q \<le> 2"
  let ?Z = "\<lambda>_::u32. \<lparr>quota = 0, usage = 0, parent = 0, nchildren = 0, used = 0\<rparr>"
  have "total_slack (?Z(0 := \<lparr>quota = q, usage = u, parent = 0, nchildren = 0, used = 1\<rparr>)) = unat q - unat u"
    using total_slack_update [of 0 ?Z "\<lparr>quota = q, usage = u, parent = 0, nchildren = 0, used = 1\<rparr>"]
    by (simp add: slack_def total_slack_def NUM_IDS_def)
  moreover have "ctr_tree (?Z(0 := \<lparr>quota = q, usage = u, parent = 0, nchildren = 0, used = 1\<rparr>))"
    using ctr_tree_usage [OF ctr_tree_root [of ?Z q], of 0 u] by simp
  moreover have "ctr_bounded (?Z(0 := \<lparr>quota = q, usage = u, parent = 0, nchildren = 0, used = 1\<rparr>))"
    using a by (simp add: ctr_bounded_def)
  ultimately show ?thesis
    using a by (simp add: ctr_inv_def)
qed

text \<open>C9: when the caller's checks hold, \<open>container_split\<close> returns a container id that was not in
  use, makes it a child of the caller with the given quota, charges exactly that quota to the
  caller, changes no other container, and keeps the accounting invariant.\<close>

theorem container_split_correct:
  assumes "ctr_inv s" "can_split (CONTAINER s) i q"
  shows "\<exists>c s'. container_split i q s = Inr (c, s') \<and> ctr_inv s' \<and>
    \<not> is_used (CONTAINER s) c \<and> c \<noteq> i \<and>
    CONTAINER s' c = \<lparr>quota = q, usage = 0, parent = i, nchildren = 0, used = 1\<rparr> \<and>
    unat (usage (CONTAINER s' i)) = unat (usage (CONTAINER s i)) + unat q \<and>
    (\<forall>j. j \<noteq> c \<and> j \<noteq> i \<longrightarrow> CONTAINER s' j = CONTAINER s j) \<and>
    total_slack (CONTAINER s') = total_slack (CONTAINER s)"
proof -
  let ?C = "CONTAINER s"
  let ?c = "child_id i (nchildren (?C i))"
  have tree: "ctr_tree ?C" using assms(1) by (simp add: ctr_inv_def)
  have c: "i < NUM_IDS" "nchildren (?C i) < MAX_CHILDREN"
      "unat (usage (?C i)) + unat q \<le> unat (quota (?C i))"
    using assms(2) by (auto simp: can_split_def is_used_def)
  have "unat (usage (?C i) + q) = unat (usage (?C i)) + unat q"
    using c(3) unat_bound [of "quota (?C i)"] by (intro unat_add_lem [THEN iffD1]) simp
  then show ?thesis
    using container_split_run [OF assms] child_unused [OF tree assms(2)] child_id_gt(2) [OF c(1,2)]
      total_slack_split [OF tree assms(2)]
    by (intro exI [of _ ?c] exI [of _ "s\<lparr>CONTAINER := split_table ?C i q\<rparr>"])
      (simp add: is_used_def split_table_def)
qed

theorem container_split_correct_witness:
  "\<exists>c s'. container_split 0 1 (demo_ctr 2 0) = Inr (c, s') \<and> ctr_inv s' \<and> c \<noteq> 0 \<and>
    CONTAINER s' c = \<lparr>quota = 1, usage = 0, parent = 0, nchildren = 0, used = 1\<rparr>"
proof -
  have "can_split (CONTAINER (demo_ctr 2 0)) 0 1"
    by (simp add: can_split_def is_used_def child_id_def NUM_IDS_def MAX_CHILDREN_def)
  with container_split_correct [OF demo_ctr_inv [of 0 2], of 0 1] show ?thesis
    by (simp del: demo_ctr_simps) blast
qed

text \<open>C10: when the tree has no room for the child, \<open>container_split\<close> returns \<open>NUM_IDS\<close> but keeps
  the lock of the parent's container: every later allocation, release or split for that
  process spins forever.\<close>

theorem container_split_leaks_lock:
  assumes "ctr_inv s" "i < NUM_IDS" "NUM_IDS \<le> child_id i (nchildren (CONTAINER s i))"
  shows "\<exists>s'. container_split i q s = Inr (NUM_IDS, s') \<and> container_alloc i s' = Inl Spin \<and>
    container_free i pg s' = Inl Spin \<and> container_split i r s' = Inl Spin"
proof -
  let ?s' = "take_lock (Container_lk i) s"
  have "container_split i q s = Inr (NUM_IDS, ?s')"
    using container_split_eq [OF assms(1,2)] assms(3) by simp
  moreover have "spinlock_acquire (Container_lk i) ?s' = Inl Spin"
    by (simp add: spin.acquire_held spin.free_taken)
  ultimately show ?thesis
    using assms(2)
    by (simp add: container_alloc_def container_free_def container_split_def critical_def monad_defs)
qed

text \<open>Container 63, whose first child would be number 190.\<close>

lemma demo_leak: "NUM_IDS \<le> child_id 63 (nchildren (CONTAINER (demo_ctr 2 0) 63))" "63 < NUM_IDS"
  by (simp_all add: child_id_def NUM_IDS_def MAX_CHILDREN_def)

theorem container_split_leaks_lock_witness:
  "\<exists>s'. container_split 63 0 (demo_ctr 2 0) = Inr (NUM_IDS, s') \<and> container_alloc 63 s' = Inl Spin"
  using container_split_leaks_lock [OF demo_ctr_inv demo_leak(2,1), of 0] by auto

text \<open>C11: \<open>container_can_consume\<close> adds in 32 bit arithmetic, so a process with usage \<open>u > 0\<close> passes
  the check with the quota \<open>2^32 - u\<close>; splitting off that quota sets the usage of the parent back
  to zero and gives a child that passes the check for up to \<open>2^31\<close> pages.\<close>

theorem container_quota_wraps:
  assumes "ctr_inv s" "is_used (CONTAINER s) i" "0 < usage (CONTAINER s i)"
    and "nchildren (CONTAINER s i) < MAX_CHILDREN" "child_id i (nchildren (CONTAINER s i)) < NUM_IDS"
  shows "container_can_consume i (- usage (CONTAINER s i)) s = Inr (1, s) \<and>
    (\<exists>c s'. container_split i (- usage (CONTAINER s i)) s = Inr (c, s') \<and>
      usage (CONTAINER s' i) = 0 \<and> (\<forall>n. unat n \<le> 2 ^ 31 \<longrightarrow> container_can_consume c n s' = Inr (1, s')))"
proof -
  let ?u = "usage (CONTAINER s i)" and ?c = "child_id i (nchildren (CONTAINER s i))"
  have i: "i < NUM_IDS" "used (CONTAINER s i) \<noteq> 0" using assms(2) by (simp_all add: is_used_def)
  have "unat ?u \<le> 2 ^ 20"
    using assms(1) i by (auto simp: ctr_inv_def ctr_bounded_def word_le_nat_alt intro: order_trans)
  moreover have "unat (- ?u) = 2 ^ 32 - unat ?u"
    using assms(3) by (intro unat_uminus) auto
  ultimately have big: "unat n \<le> 2 ^ 31 \<Longrightarrow> n \<le> - ?u" for n :: u32
    by (simp add: word_le_nat_alt)
  have "container_split i (- ?u) s = Inr (?c,
      set_container i (\<lambda>c. c\<lparr>usage := usage c + - ?u, nchildren := nchildren c + 1\<rparr>)
        (set_container ?c (\<lambda>_. \<lparr>quota = - ?u, usage = 0, parent = i, nchildren = 0, used = 1\<rparr>) s))"
    using container_split_eq [OF assms(1) i(1), of "- ?u"] assms(5) by (simp add: not_le [symmetric])
  then show ?thesis
    using i assms(5) big child_id_gt(2) [OF i(1) assms(4)]
    by (simp add: container_can_consume_def monad_defs CONTAINER_set_container)
qed

theorem container_quota_wraps_witness:
  "container_can_consume 0 (- 1) (demo_ctr 1 1) = Inr (1, demo_ctr 1 1) \<and>
   (\<exists>c s'. container_split 0 (- 1) (demo_ctr 1 1) = Inr (c, s') \<and> usage (CONTAINER s' 0) = 0)"
proof -
  have "ctr_inv (demo_ctr 1 1)" by (rule demo_ctr_inv) simp_all
  moreover have "is_used (CONTAINER (demo_ctr 1 1)) 0" "usage (CONTAINER (demo_ctr 1 1) 0) = 1"
      "nchildren (CONTAINER (demo_ctr 1 1) 0) < MAX_CHILDREN"
      "child_id 0 (nchildren (CONTAINER (demo_ctr 1 1) 0)) < NUM_IDS"
    by (simp_all add: is_used_def NUM_IDS_def MAX_CHILDREN_def child_id_def)
  ultimately show ?thesis
    using container_quota_wraps [of "demo_ctr 1 1" 0] by auto
qed

end
