(* ===== verification/Memory.thy ===== *)
theory Memory
  imports Prelude
begin

text \<open>
  Physical memory: a store of bytes, with the little-endian 32 bit loads and stores of the
  machine, the split of an address into page number and offset, and the copies and fills of
  byte ranges that \<open>memcpy\<close>, \<open>memmove\<close> and \<open>memset\<close> of \<open>kern/lib/string.c\<close> make.
\<close>

type_synonym memory = "u32 \<Rightarrow> u8"

section \<open>Loads and stores of 32 bit words\<close>

definition load32 :: "memory \<Rightarrow> u32 \<Rightarrow> u32" where
  "load32 m a = ucast (m a) OR push_bit 8 (ucast (m (a + 1))) OR
     push_bit 16 (ucast (m (a + 2))) OR push_bit 24 (ucast (m (a + 3)))"

definition store32 :: "u32 \<Rightarrow> u32 \<Rightarrow> memory \<Rightarrow> memory" where
  "store32 a v m = m(a := ucast v, a + 1 := ucast (drop_bit 8 v),
     a + 2 := ucast (drop_bit 16 v), a + 3 := ucast (drop_bit 24 v))"

lemma bytes_of_word:
  fixes v :: u32
  shows "ucast (ucast v :: u8) OR push_bit 8 (ucast (ucast (drop_bit 8 v) :: u8)) OR
     push_bit 16 (ucast (ucast (drop_bit 16 v) :: u8)) OR
     push_bit 24 (ucast (ucast (drop_bit 24 v) :: u8)) = v" (is "?w = v")
proof (rule bit_word_eqI)
  fix n
  assume "n < LENGTH(32)"
  then consider "n < 8" | "8 \<le> n" "n < 16" | "16 \<le> n" "n < 24" | "24 \<le> n" "n < 32"
    by fastforce
  then show "bit ?w n = bit v n"
    by cases (auto simp: bit_or_iff bit_push_bit_iff bit_ucast_iff bit_drop_bit_eq)
qed

lemma load32_store32 [simp]: "load32 (store32 a v m) a = v"
  using bytes_of_word [of v] by (simp add: load32_def store32_def)

definition aligned4 :: "u32 \<Rightarrow> bool" where
  "aligned4 a \<longleftrightarrow> unat a mod 4 = 0"

lemma aligned4_add:
  assumes "aligned4 a" "n < 4"
  shows "unat (a + word_of_nat n) = unat a + n"
proof -
  have "unat a < 4 * 2 ^ 30" using unat_bound [of a] by simp
  moreover obtain k where "unat a = 4 * k" using assms(1) by (auto simp: aligned4_def elim: dvdE [OF mod_0_imp_dvd])
  ultimately have "unat a + n < 2 ^ 32" using assms(2) by simp
  with assms(2) show ?thesis by (simp add: unat_word_ariths unat_of_nat)
qed

lemma aligned4_bytes:
  assumes "aligned4 a" "aligned4 b" "a \<noteq> b" "i < 4" "j < 4"
  shows "a + word_of_nat i \<noteq> b + word_of_nat j"
proof
  assume "a + word_of_nat i = b + word_of_nat j"
  from arg_cong [OF this, of unat] have "unat a + i = unat b + j"
    by (simp only: aligned4_add [OF assms(1,4)] aligned4_add [OF assms(2,5)])
  moreover obtain k l where "unat a = 4 * k" "unat b = 4 * l"
    using assms(1,2) by (auto simp: aligned4_def elim!: dvdE [OF mod_0_imp_dvd])
  ultimately have "unat a = unat b" using assms(4,5) by arith
  then show False using assms(3) by (simp add: word_unat_eq_iff)
qed

lemma load32_store32_other:
  assumes "aligned4 a" "aligned4 b" "a \<noteq> b"
  shows "load32 (store32 a v m) b = load32 m b"
proof -
  have "store32 a v m (b + word_of_nat j) = m (b + word_of_nat j)" if "j < 4" for j
    using aligned4_bytes [OF assms, of 0 j] aligned4_bytes [OF assms, of 1 j]
      aligned4_bytes [OF assms, of 2 j] aligned4_bytes [OF assms, of 3 j] that
    by (auto simp: store32_def)
  from this [of 0] this [of 1] this [of 2] this [of 3] show ?thesis
    by (simp add: load32_def)
qed

section \<open>Pages\<close>

text \<open>The start of page \<open>pg\<close>, and the page and offset of an address.\<close>

definition page_start :: "u32 \<Rightarrow> u32" where
  "page_start pg = push_bit 12 pg"

definition page_of :: "u32 \<Rightarrow> u32" where
  "page_of a = drop_bit 12 a"

lemma unat_page_start: "unat pg < 2 ^ 20 \<Longrightarrow> unat (page_start pg) = unat pg * 4096"
  by (simp add: page_start_def push_bit_eq_mult unat_word_ariths)

lemma unat_page_of: "unat (page_of a) = unat a div 4096"
  by (simp add: page_of_def drop_bit_eq_div unat_div)

lemma page_of_small: "unat (page_of a) < 2 ^ 20"
  using unat_bound [of a] by (simp add: unat_page_of)

lemma unat_in_page:
  assumes "unat pg < 2 ^ 20" "unat off < 4096"
  shows "unat (page_start pg + off) = unat pg * 4096 + unat off"
  using assms unat_page_start [OF assms(1)] by (simp add: unat_word_ariths)

lemma page_of_in_page:
  assumes "unat pg < 2 ^ 20" "unat off < 4096"
  shows "page_of (page_start pg + off) = pg"
  using unat_in_page [OF assms] assms by (simp add: word_unat_eq_iff unat_page_of)

text \<open>An entry of a page table: the page number with permission bits below it.\<close>

lemma pte_fields:
  fixes pg :: u32 and perms :: u32
  assumes "unat pg < 2 ^ 20" "perms AND 0xFFF = perms"
  shows "(push_bit 12 pg OR perms) AND 0xFFFFF000 = page_start pg"
    "drop_bit 12 (push_bit 12 pg OR perms) = pg"
    "n < 12 \<Longrightarrow> bit (push_bit 12 pg OR perms) n = bit perms n"
proof -
  have mask: "(0xFFFFF000 :: u32) = NOT (mask 12)" "(0xFFF :: u32) = mask 12"
    by (simp_all add: mask_eq_exp_minus_1)
  have perms: "bit perms n \<Longrightarrow> n < 12" for n
    using assms(2) by (metis bit_and_iff bit_mask_iff mask(2))
  have "pg < 2 ^ 20" using assms(1) by (simp add: word_less_nat_alt)
  then have "take_bit 20 pg = pg"
    using assms(1) by (simp add: take_bit_eq_mod word_unat_eq_iff unat_mod)
  then have pg: "bit pg n \<Longrightarrow> n < 20" for n
    by (metis bit_take_bit_iff)
  show "(push_bit 12 pg OR perms) AND 0xFFFFF000 = page_start pg"
    unfolding mask page_start_def
    by (rule bit_word_eqI) (auto simp: bit_simps dest: perms)
  show "drop_bit 12 (push_bit 12 pg OR perms) = pg"
    by (rule bit_word_eqI) (auto simp: bit_simps dest: perms pg)
  show "n < 12 \<Longrightarrow> bit (push_bit 12 pg OR perms) n = bit perms n"
    by (auto simp: bit_simps)
qed

end
