(* ===== verification/MPT.thy ===== *)
theory MPT
  imports MContainer Memory
begin

text \<open>
  Page tables, \<open>kern/vmm\<close>: the page directories of all processes, the second-level tables that
  live in physical pages, the identity tables of the kernel, and the operations that map, unmap
  and allocate pages.
\<close>

section \<open>State\<close>

text \<open>\<open>mem\<close> is physical memory; the kernel runs on the identity map, so that its pointers are
  physical addresses.  The identity tables are part of it, at a link-time address; the
  page directories are only ever accessed by name.\<close>

record vmm = container +
  mem :: memory
  IDPTbl_addr :: u32
  PDirPool_addr :: u32
  PDirPool :: "u32 \<Rightarrow> u32 \<Rightarrow> u32"
  cr3 :: u32
  cr0 :: u32
  cr4 :: u32

definition PTE_P :: u32 where "PTE_P = 1"
definition PTE_W :: u32 where "PTE_W = 2"
definition PTE_U :: u32 where "PTE_U = 4"
definition PTE_G :: u32 where "PTE_G = 0x100"
definition PT_PERM_PTU :: u32 where "PT_PERM_PTU = PTE_P OR PTE_W OR PTE_U"
definition CR0_PE :: u32 where "CR0_PE = 1"
definition CR0_MP :: u32 where "CR0_MP = 2"
definition CR0_EM :: u32 where "CR0_EM = 4"
definition CR0_TS :: u32 where "CR0_TS = 8"
definition CR0_NE :: u32 where "CR0_NE = 0x20"
definition CR0_WP :: u32 where "CR0_WP = 0x10000"
definition CR0_AM :: u32 where "CR0_AM = 0x40000"
definition CR0_PG :: u32 where "CR0_PG = 0x80000000"
definition CR4_PGE :: u32 where "CR4_PGE = 0x80"
definition PDIRSIZE :: u32 where "PDIRSIZE = PAGESIZE * 1024"
definition VM_USERLO_PDE :: u32 where "VM_USERLO_PDE = VM_USERLO div PDIRSIZE"
definition VM_USERHI_PDE :: u32 where "VM_USERHI_PDE = VM_USERHI div PDIRSIZE"

definition ADDR_MASK :: "u32 \<Rightarrow> u32" where
  "ADDR_MASK x = x AND 0xfffff000"

definition PDE_ADDR :: "u32 \<Rightarrow> u32" where
  "PDE_ADDR x = drop_bit 22 x"

definition PTE_ADDR :: "u32 \<Rightarrow> u32" where
  "PTE_ADDR x = drop_bit 12 x AND 0x3ff"

section \<open>MPTIntro\<close>

definition set_cr3 :: "u32 \<Rightarrow> ('a vmm_scheme, unit) kern" where
  "set_cr3 pdir = modifyK (\<lambda>s. s\<lparr>cr3 := pdir\<rparr>)"

definition set_pdir_base :: "u32 \<Rightarrow> ('a vmm_scheme, unit) kern" where
  "set_pdir_base index = indexK index NUM_IDS
     (bindK (readK PDirPool_addr) (\<lambda>a. set_cr3 (a + index * 4096)))"

text \<open>\<open>PDirPool[proc_index][pde_index]\<close> as a value and as a target of an assignment.\<close>

definition pdir_index :: "u32 \<Rightarrow> u32 \<Rightarrow> ('a vmm_scheme, 'b) kern \<Rightarrow> ('a vmm_scheme, 'b) kern" where
  "pdir_index proc_index pde_index m = indexK proc_index NUM_IDS (indexK pde_index 1024 m)"

definition get_pdir_entry :: "u32 \<Rightarrow> u32 \<Rightarrow> ('a vmm_scheme, u32) kern" where
  "get_pdir_entry proc_index pde_index = pdir_index proc_index pde_index
     (readK (\<lambda>s. PDirPool s proc_index pde_index))"

definition write_pdir :: "u32 \<Rightarrow> u32 \<Rightarrow> u32 \<Rightarrow> 'a vmm_scheme \<Rightarrow> 'a vmm_scheme" where
  "write_pdir proc_index pde_index v s = s\<lparr>PDirPool := (PDirPool s)
     (proc_index := (PDirPool s proc_index)(pde_index := v))\<rparr>"

definition set_pdir_entry :: "u32 \<Rightarrow> u32 \<Rightarrow> u32 \<Rightarrow> ('a vmm_scheme, unit) kern" where
  "set_pdir_entry proc_index pde_index page_index = pdir_index proc_index pde_index
     (modifyK (write_pdir proc_index pde_index (push_bit 12 page_index OR PT_PERM_PTU)))"

text \<open>The address of \<open>IDPTbl[pde_index]\<close>.\<close>

definition idptbl_row :: "'a vmm_scheme \<Rightarrow> u32 \<Rightarrow> u32" where
  "idptbl_row s pde_index = IDPTbl_addr s + pde_index * 4096"

definition set_pdir_entry_identity :: "u32 \<Rightarrow> u32 \<Rightarrow> ('a vmm_scheme, unit) kern" where
  "set_pdir_entry_identity proc_index pde_index = pdir_index proc_index pde_index
     (modifyK (\<lambda>s. write_pdir proc_index pde_index (idptbl_row s pde_index OR PT_PERM_PTU) s))"

definition rmv_pdir_entry :: "u32 \<Rightarrow> u32 \<Rightarrow> ('a vmm_scheme, unit) kern" where
  "rmv_pdir_entry proc_index pde_index = pdir_index proc_index pde_index
     (modifyK (write_pdir proc_index pde_index 0))"

text \<open>The address of \<open>pt[pte_index]\<close> for the table that a directory entry points to.\<close>

definition pte_addr :: "'a vmm_scheme \<Rightarrow> u32 \<Rightarrow> u32 \<Rightarrow> u32 \<Rightarrow> u32" where
  "pte_addr s proc_index pde_index pte_index =
     ADDR_MASK (PDirPool s proc_index pde_index) + 4 * pte_index"

definition get_ptbl_entry :: "u32 \<Rightarrow> u32 \<Rightarrow> u32 \<Rightarrow> ('a vmm_scheme, u32) kern" where
  "get_ptbl_entry proc_index pde_index pte_index = pdir_index proc_index pde_index
     (readK (\<lambda>s. load32 (mem s) (pte_addr s proc_index pde_index pte_index)))"

definition set_ptbl_entry :: "u32 \<Rightarrow> u32 \<Rightarrow> u32 \<Rightarrow> u32 \<Rightarrow> u32 \<Rightarrow> ('a vmm_scheme, unit) kern" where
  "set_ptbl_entry proc_index pde_index pte_index page_index prm = pdir_index proc_index pde_index
     (modifyK (\<lambda>s. s\<lparr>mem := store32 (pte_addr s proc_index pde_index pte_index)
        (push_bit 12 page_index OR prm) (mem s)\<rparr>))"

definition set_ptbl_entry_identity :: "u32 \<Rightarrow> u32 \<Rightarrow> u32 \<Rightarrow> ('a vmm_scheme, unit) kern" where
  "set_ptbl_entry_identity pde_index pte_index prm = indexK pde_index 1024 (indexK pte_index 1024
     (let addr = push_bit 22 pde_index OR push_bit 12 pte_index in
      modifyK (\<lambda>s. s\<lparr>mem := store32 (idptbl_row s pde_index + 4 * pte_index) (addr OR prm) (mem s)\<rparr>)))"

definition rmv_ptbl_entry :: "u32 \<Rightarrow> u32 \<Rightarrow> u32 \<Rightarrow> ('a vmm_scheme, unit) kern" where
  "rmv_ptbl_entry proc_index pde_index pte_index = pdir_index proc_index pde_index
     (modifyK (\<lambda>s. s\<lparr>mem := store32 (pte_addr s proc_index pde_index pte_index) 0 (mem s)\<rparr>))"

section \<open>MPTOp\<close>

definition get_ptbl_entry_by_va :: "u32 \<Rightarrow> u32 \<Rightarrow> ('a vmm_scheme, u32) kern" where
  "get_ptbl_entry_by_va proc_index vaddr = bindK (get_pdir_entry proc_index (PDE_ADDR vaddr)) (\<lambda>e.
     if e \<noteq> 0 then get_ptbl_entry proc_index (PDE_ADDR vaddr) (PTE_ADDR vaddr) else returnK 0)"

definition get_pdir_entry_by_va :: "u32 \<Rightarrow> u32 \<Rightarrow> ('a vmm_scheme, u32) kern" where
  "get_pdir_entry_by_va proc_index vaddr = get_pdir_entry proc_index (PDE_ADDR vaddr)"

definition rmv_ptbl_entry_by_va :: "u32 \<Rightarrow> u32 \<Rightarrow> ('a vmm_scheme, unit) kern" where
  "rmv_ptbl_entry_by_va proc_index vaddr = bindK (get_pdir_entry proc_index (PDE_ADDR vaddr)) (\<lambda>e.
     whenK (e \<noteq> 0) (rmv_ptbl_entry proc_index (PDE_ADDR vaddr) (PTE_ADDR vaddr)))"

definition rmv_pdir_entry_by_va :: "u32 \<Rightarrow> u32 \<Rightarrow> ('a vmm_scheme, unit) kern" where
  "rmv_pdir_entry_by_va proc_index vaddr = rmv_pdir_entry proc_index (PDE_ADDR vaddr)"

definition set_ptbl_entry_by_va :: "u32 \<Rightarrow> u32 \<Rightarrow> u32 \<Rightarrow> u32 \<Rightarrow> ('a vmm_scheme, unit) kern" where
  "set_ptbl_entry_by_va proc_index vaddr page_index prm =
     set_ptbl_entry proc_index (PDE_ADDR vaddr) (PTE_ADDR vaddr) page_index prm"

definition set_pdir_entry_by_va :: "u32 \<Rightarrow> u32 \<Rightarrow> u32 \<Rightarrow> ('a vmm_scheme, unit) kern" where
  "set_pdir_entry_by_va proc_index vaddr page_index =
     set_pdir_entry proc_index (PDE_ADDR vaddr) page_index"

definition kern_pde :: "u32 \<Rightarrow> bool" where
  "kern_pde pde_index \<longleftrightarrow> pde_index < VM_USERLO_PDE \<or> VM_USERHI_PDE \<le> pde_index"

definition idptbl_init :: "('a vmm_scheme, unit) kern \<Rightarrow> ('a vmm_scheme, unit) kern" where
  "idptbl_init devinit = seqK (container_init devinit)
     (forK (word_range 0 1024) (\<lambda>pde_index.
        let prm = (if kern_pde pde_index then PTE_P OR PTE_W OR PTE_G else PTE_P OR PTE_W) in
        forK (word_range 0 1024) (\<lambda>pte_index. set_ptbl_entry_identity pde_index pte_index prm)))"

section \<open>MPTComm\<close>

definition pdir_init :: "('a vmm_scheme, unit) kern \<Rightarrow> ('a vmm_scheme, unit) kern" where
  "pdir_init devinit = seqK (idptbl_init devinit)
     (forK (word_range 0 NUM_IDS) (\<lambda>proc_index. forK (word_range 0 1024) (\<lambda>pde_index.
        if kern_pde pde_index then set_pdir_entry_identity proc_index pde_index
        else rmv_pdir_entry proc_index pde_index)))"

definition alloc_ptbl :: "u32 \<Rightarrow> u32 \<Rightarrow> ('a vmm_scheme, u32) kern" where
  "alloc_ptbl proc_index vaddr = bindK (container_alloc proc_index) (\<lambda>page_index.
     if page_index = 0 then returnK 0
     else seqK (set_pdir_entry_by_va proc_index vaddr page_index)
       (seqK (forK (word_range 0 1024) (\<lambda>pte_index. rmv_ptbl_entry proc_index (PDE_ADDR vaddr) pte_index))
         (returnK page_index)))"

definition free_ptbl :: "u32 \<Rightarrow> u32 \<Rightarrow> ('a vmm_scheme, unit) kern" where
  "free_ptbl proc_index vaddr = bindK (get_pdir_entry_by_va proc_index vaddr) (\<lambda>e.
     let page_index = drop_bit 12 e in
     seqK (rmv_pdir_entry proc_index (PDE_ADDR vaddr)) (container_free proc_index page_index))"

section \<open>MPTKern, MPTNew and MPTInit\<close>

definition pdir_init_kern :: "('a vmm_scheme, unit) kern \<Rightarrow> ('a vmm_scheme, unit) kern" where
  "pdir_init_kern devinit = seqK (pdir_init devinit)
     (forK (word_range VM_USERLO_PDE VM_USERHI_PDE) (set_pdir_entry_identity 0))"

definition map_page :: "u32 \<Rightarrow> u32 \<Rightarrow> u32 \<Rightarrow> u32 \<Rightarrow> ('a vmm_scheme, u32) kern" where
  "map_page proc_index vaddr page_index prm = bindK (get_pdir_entry_by_va proc_index vaddr) (\<lambda>pde_entry.
     bindK (if pde_entry = 0 then alloc_ptbl proc_index vaddr else returnK (drop_bit 12 pde_entry))
       (\<lambda>pde_page_index.
         if pde_entry = 0 \<and> pde_page_index = 0 then returnK MagicNumber
         else seqK (set_ptbl_entry_by_va proc_index vaddr page_index prm) (returnK pde_page_index)))"

definition unmap_page :: "u32 \<Rightarrow> u32 \<Rightarrow> ('a vmm_scheme, u32) kern" where
  "unmap_page proc_index vaddr = bindK (get_ptbl_entry_by_va proc_index vaddr) (\<lambda>pte_entry.
     seqK (whenK (pte_entry \<noteq> 0) (rmv_ptbl_entry_by_va proc_index vaddr)) (returnK pte_entry))"

definition alloc_page :: "u32 \<Rightarrow> u32 \<Rightarrow> u32 \<Rightarrow> ('a vmm_scheme, u32) kern" where
  "alloc_page proc_index vaddr prm = bindK (container_alloc proc_index) (\<lambda>page_index.
     if page_index \<noteq> 0 then map_page proc_index vaddr page_index prm else returnK MagicNumber)"

definition alloc_mem_quota :: "u32 \<Rightarrow> u32 \<Rightarrow> ('a vmm_scheme, u32) kern" where
  "alloc_mem_quota i q = container_split i q"

definition enable_paging :: "('a vmm_scheme, unit) kern" where
  "enable_paging = seqK (modifyK (\<lambda>s. s\<lparr>cr4 := cr4 s OR CR4_PGE\<rparr>))
     (modifyK (\<lambda>s. s\<lparr>cr0 := (cr0 s OR (CR0_PE OR CR0_PG OR CR0_AM OR CR0_WP OR CR0_NE OR CR0_MP))
        AND NOT (CR0_EM OR CR0_TS)\<rparr>))"

definition paging_init :: "('a vmm_scheme, unit) kern \<Rightarrow> ('a vmm_scheme, unit) kern" where
  "paging_init devinit = seqK (pdir_init_kern devinit) (seqK (set_pdir_base 0) enable_paging)"

definition paging_init_ap :: "('a vmm_scheme, unit) kern" where
  "paging_init_ap = seqK (set_pdir_base 0) enable_paging"

section \<open>The machine's view: address translation\<close>

text \<open>The two-level walk of the memory management unit for a user-mode access: the physical
  address, and whether the page may be written.\<close>

definition pde_at :: "'a vmm_scheme \<Rightarrow> u32 \<Rightarrow> u32 \<Rightarrow> u32" where
  "pde_at s p va = PDirPool s p (PDE_ADDR va)"

definition pte_at :: "'a vmm_scheme \<Rightarrow> u32 \<Rightarrow> u32 \<Rightarrow> u32" where
  "pte_at s p va = load32 (mem s) (pte_addr s p (PDE_ADDR va) (PTE_ADDR va))"

definition user_translate :: "'a vmm_scheme \<Rightarrow> u32 \<Rightarrow> u32 \<Rightarrow> u32 option" where
  "user_translate s p va =
     (if bit (pde_at s p va) 0 \<and> bit (pde_at s p va) 2 \<and> bit (pte_at s p va) 0 \<and> bit (pte_at s p va) 2
      then Some (ADDR_MASK (pte_at s p va) + (va AND 0xfff)) else None)"

end
