(* ===== verification/VMSpace.thy ===== *)
theory VMSpace
  imports MPT
begin

text \<open>
  Address spaces: who owns which physical page.  A physical page that is in use backs either
  one second-level page table or one virtual page of one process.  The operations of \<open>kern/vmm\<close>
  keep this, and isolation of processes follows from it.
\<close>

section \<open>Addresses, table indices and entries\<close>

definition user_va :: "u32 \<Rightarrow> bool" where
  "user_va va \<longleftrightarrow> VM_USERLO \<le> va \<and> va < VM_USERHI"

text \<open>Directory and table index of a virtual page number.\<close>

definition vpn_dir :: "u32 \<Rightarrow> u32" where
  "vpn_dir v = drop_bit 10 v"

definition vpn_idx :: "u32 \<Rightarrow> u32" where
  "vpn_idx v = v AND 0x3ff"

lemma PDE_ADDR_vpn: "PDE_ADDR va = vpn_dir (page_of va)"
  by (simp add: PDE_ADDR_def vpn_dir_def page_of_def)

lemma PTE_ADDR_vpn: "PTE_ADDR va = vpn_idx (page_of va)"
  by (simp add: PTE_ADDR_def vpn_idx_def page_of_def)

lemma unat_vpn: "unat (vpn_dir v) = unat v div 1024" "unat (vpn_idx v) = unat v mod 1024"
proof -
  show "unat (vpn_dir v) = unat v div 1024"
    by (simp add: vpn_dir_def drop_bit_eq_div unat_div)
  have "(0x3ff :: u32) = mask 10" by (simp add: mask_eq_exp_minus_1)
  then have "vpn_idx v = take_bit 10 v" by (simp only: vpn_idx_def take_bit_eq_mask)
  then have "vpn_idx v = v mod 1024" by (simp add: take_bit_eq_mod)
  then show "unat (vpn_idx v) = unat v mod 1024" by (simp add: unat_mod)
qed

lemma vpn_eq: "v = w" if "vpn_dir v = vpn_dir w" "vpn_idx v = vpn_idx w"
proof -
  have "unat v div 1024 = unat w div 1024" "unat v mod 1024 = unat w mod 1024"
    using arg_cong [OF that(1), of unat] arg_cong [OF that(2), of unat] by (simp_all add: unat_vpn)
  then have "unat v = unat w" by (metis div_mult_mod_eq)
  then show ?thesis by (simp add: word_unat_eq_iff)
qed

lemma user_va_page: "user_va va \<longleftrightarrow> user_page (page_of va)"
  by (auto simp: user_va_def user_page_def VM_PI_values VM_USERLO_def VM_USERHI_def word_le_nat_alt
      word_less_nat_alt unat_page_of less_eq_div_iff_mult_less_eq div_less_iff_less_mult)

lemma VM_PDE_values: "VM_USERLO_PDE = 256" "VM_USERHI_PDE = 960"
  by (simp_all add: VM_USERLO_PDE_def VM_USERHI_PDE_def VM_USERLO_def VM_USERHI_def PDIRSIZE_def PAGESIZE_def)

lemma user_page_dir: "user_page v \<Longrightarrow> \<not> kern_pde (vpn_dir v)"
  by (auto simp: user_page_def VM_PI_values kern_pde_def VM_PDE_values word_le_nat_alt word_less_nat_alt
      unat_vpn less_eq_div_iff_mult_less_eq div_less_iff_less_mult)

lemma user_pde_bound: "\<not> kern_pde d \<Longrightarrow> d < 1024"
  by (auto simp: kern_pde_def VM_PDE_values word_le_nat_alt word_less_nat_alt)

text \<open>Any entry is a page number above twelve bits of permissions.\<close>

lemma entry_split:
  fixes e :: u32
  shows "e = push_bit 12 (drop_bit 12 e) OR (e AND 0xFFF)" "ADDR_MASK e = page_start (drop_bit 12 e)"
    "unat (drop_bit 12 e) < 2 ^ 20"
proof -
  have mask: "(0xFFFFF000 :: u32) = NOT (mask 12)" "(0xFFF :: u32) = mask 12"
    by (simp_all add: mask_eq_exp_minus_1)
  show "e = push_bit 12 (drop_bit 12 e) OR (e AND 0xFFF)"
    unfolding mask by (rule bit_word_eqI) (auto simp: bit_simps)
  show "ADDR_MASK e = page_start (drop_bit 12 e)"
    unfolding mask ADDR_MASK_def page_start_def by (rule bit_word_eqI) (auto simp: bit_simps)
  show "unat (drop_bit 12 e) < 2 ^ 20"
    using page_of_small [of e] by (simp add: page_of_def)
qed

lemma entry_low_bits:
  fixes prm :: u32
  assumes "prm AND 0xFFF = prm"
  shows "(push_bit 12 pg OR prm) AND 0xFFF = prm"
proof -
  have mask: "(0xFFF :: u32) = mask 12" by (simp add: mask_eq_exp_minus_1)
  have "bit prm n \<Longrightarrow> n < 12" for n
    using assms unfolding mask by (metis bit_and_iff bit_mask_iff)
  then show ?thesis
    unfolding mask by (intro bit_word_eqI) (auto simp: bit_simps)
qed

lemma slot_addr:
  assumes "unat t < 2 ^ 20" "unat k < 1024"
  shows "page_of (page_start t + 4 * k) = t" "aligned4 (page_start t + 4 * k)"
    "unat (page_start t + 4 * k) = unat t * 4096 + 4 * unat k"
proof -
  have k: "unat (4 * k) = 4 * unat k" using assms(2) by (simp add: unat_word_ariths)
  show "page_of (page_start t + 4 * k) = t"
    using assms k by (intro page_of_in_page) simp_all
  show "unat (page_start t + 4 * k) = unat t * 4096 + 4 * unat k"
    using unat_in_page [OF assms(1), of "4 * k"] assms(2) k by simp
  then show "aligned4 (page_start t + 4 * k)"
    by (simp add: aligned4_def mod_add_eq)
qed

lemma vpn_idx_small: "unat (vpn_idx v) < 1024"
  by (simp add: unat_vpn)

text \<open>A word store touches bytes of one page only.\<close>

lemma aligned4_page:
  assumes "aligned4 a" "i < 4"
  shows "page_of (a + word_of_nat i) = page_of a"
proof -
  obtain k where "unat a = 4 * k" using assms(1) by (auto simp: aligned4_def elim: dvdE [OF mod_0_imp_dvd])
  then have "(unat a + i) div (4 * 1024) = unat a div (4 * 1024)"
    using assms(2) by (simp only: div_mult2_eq) simp
  then have "unat (page_of (a + word_of_nat i)) = unat (page_of a)"
    by (simp add: unat_page_of aligned4_add [OF assms])
  then show ?thesis by (simp only: word_unat_eq_iff)
qed

lemma store32_other_page:
  assumes "aligned4 a" "page_of x \<noteq> page_of a"
  shows "store32 a v m x = m x"
proof -
  have "x \<noteq> a + word_of_nat i" if "i < 4" for i
    using assms(2) aligned4_page [OF assms(1) that] by auto
  from this [of 0] this [of 1] this [of 2] this [of 3] show ?thesis
    by (simp add: store32_def)
qed

lemma load32_page_cong:
  assumes "aligned4 a" "\<And>x. page_of x = page_of a \<Longrightarrow> m x = m' x"
  shows "load32 m a = load32 m' a"
proof -
  have "m (a + word_of_nat i) = m' (a + word_of_nat i)" if "i < 4" for i
    using assms(2) aligned4_page [OF assms(1) that] by auto
  from this [of 0] this [of 1] this [of 2] this [of 3] show ?thesis
    by (simp add: load32_def)
qed

section \<open>Ownership of physical pages\<close>

definition user_proc :: "u32 \<Rightarrow> bool" where
  "user_proc p \<longleftrightarrow> p < NUM_IDS \<and> p \<noteq> 0"

definition tbl_page :: "'a vmm_scheme \<Rightarrow> u32 \<Rightarrow> u32 \<Rightarrow> u32" where
  "tbl_page s p d = drop_bit 12 (PDirPool s p d)"

definition entry_addr :: "'a vmm_scheme \<Rightarrow> u32 \<Rightarrow> u32 \<Rightarrow> u32" where
  "entry_addr s p v = page_start (tbl_page s p (vpn_dir v)) + 4 * vpn_idx v"

definition entry :: "'a vmm_scheme \<Rightarrow> u32 \<Rightarrow> u32 \<Rightarrow> u32" where
  "entry s p v = load32 (mem s) (entry_addr s p v)"

text \<open>The abstract address space: the page table entry of a virtual page, 0 if there is none.\<close>

definition mapping :: "'a vmm_scheme \<Rightarrow> u32 \<Rightarrow> u32 \<Rightarrow> u32" where
  "mapping s p v = (if PDirPool s p (vpn_dir v) = 0 then 0 else entry s p v)"

text \<open>The uses a physical page can be put to: the table for directory entry \<open>d\<close> of process
  \<open>p\<close>, or the memory of its virtual page \<open>v\<close>.\<close>

datatype slot = Table u32 u32 | Data u32 u32

fun slot_page :: "'a vmm_scheme \<Rightarrow> slot \<Rightarrow> u32 option" where
  "slot_page s (Table p d) =
     (if user_proc p \<and> \<not> kern_pde d \<and> PDirPool s p d \<noteq> 0 then Some (tbl_page s p d) else None)"
| "slot_page s (Data p v) =
     (if user_proc p \<and> user_page v \<and> mapping s p v \<noteq> 0 then Some (drop_bit 12 (mapping s p v)) else None)"

definition slots_ok :: "'a vmm_scheme \<Rightarrow> bool" where
  "slots_ok s \<longleftrightarrow>
     (\<forall>a pg. slot_page s a = Some pg \<longrightarrow> pg \<in> norm_pages s \<and> pg \<notin> free_pages s) \<and>
     (\<forall>a b pg. slot_page s a = Some pg \<longrightarrow> slot_page s b = Some pg \<longrightarrow> a = b)"

definition pdes_ok :: "'a vmm_scheme \<Rightarrow> bool" where
  "pdes_ok s \<longleftrightarrow> (\<forall>p d. user_proc p \<longrightarrow> d < 1024 \<longrightarrow>
     (if kern_pde d then PDirPool s p d = idptbl_row s d OR PT_PERM_PTU
      else PDirPool s p d = 0 \<or> PDirPool s p d AND 0xFFF = PT_PERM_PTU))"

text \<open>The identity tables lie in kernel memory and map every address to itself, without
  user access.\<close>

definition id_perm :: "u32 \<Rightarrow> u32" where
  "id_perm d = (if kern_pde d then PTE_P OR PTE_W OR PTE_G else PTE_P OR PTE_W)"

definition idptbl_placed :: "'a vmm_scheme \<Rightarrow> bool" where
  "idptbl_placed s \<longleftrightarrow> unat (IDPTbl_addr s) mod 4096 = 0 \<and> unat (IDPTbl_addr s) + 2 ^ 22 \<le> unat VM_USERLO"

definition identity_ok :: "'a vmm_scheme \<Rightarrow> bool" where
  "identity_ok s \<longleftrightarrow> idptbl_placed s \<and> (\<forall>d k. d < 1024 \<longrightarrow> k < 1024 \<longrightarrow>
     load32 (mem s) (idptbl_row s d + 4 * k) = (push_bit 22 d OR push_bit 12 k) OR id_perm d)"

definition vm_inv :: "'a vmm_scheme \<Rightarrow> bool" where
  "vm_inv s \<longleftrightarrow> ctr_inv s \<and> pdes_ok s \<and> identity_ok s \<and> slots_ok s"

lemma tbl_page_small: "unat (tbl_page s p d) < 2 ^ 20"
  by (simp only: tbl_page_def entry_split)

lemma entry_addr_facts:
  "page_of (entry_addr s p v) = tbl_page s p (vpn_dir v)" "aligned4 (entry_addr s p v)"
  "unat (entry_addr s p v) = unat (tbl_page s p (vpn_dir v)) * 4096 + 4 * unat (vpn_idx v)"
  unfolding entry_addr_def by (rule slot_addr [OF tbl_page_small vpn_idx_small])+

lemma entry_addr_mem [simp]: "entry_addr (s\<lparr>mem := m\<rparr>) q w = entry_addr s q w"
  by (simp add: entry_addr_def tbl_page_def)

lemma entry_mem: "entry (s\<lparr>mem := m\<rparr>) q w = load32 m (entry_addr s q w)"
  by (simp add: entry_def)

lemma pte_addr_entry: "pte_addr s p (PDE_ADDR va) (PTE_ADDR va) = entry_addr s p (page_of va)"
  by (simp add: pte_addr_def entry_addr_def tbl_page_def PDE_ADDR_vpn PTE_ADDR_vpn entry_split(2))

lemma pte_at_entry: "pte_at s p va = entry s p (page_of va)"
  by (simp add: pte_at_def entry_def pte_addr_entry)

lemma slot_TableI:
  "user_proc p \<Longrightarrow> \<not> kern_pde d \<Longrightarrow> PDirPool s p d \<noteq> 0 \<Longrightarrow> slot_page s (Table p d) = Some (tbl_page s p d)"
  by simp

lemma slots_inj: "slots_ok s \<Longrightarrow> slot_page s a = Some pg \<Longrightarrow> slot_page s b = Some pg \<Longrightarrow> a = b"
  unfolding slots_ok_def by blast

lemma slots_taken: "slots_ok s \<Longrightarrow> slot_page s a = Some pg \<Longrightarrow> pg \<in> norm_pages s \<and> pg \<notin> free_pages s"
  unfolding slots_ok_def by blast

lemma entry_addr_inj:
  assumes "slots_ok s" "user_proc p" "user_page v" "PDirPool s p (vpn_dir v) \<noteq> 0"
    and "user_proc q" "user_page w" "PDirPool s q (vpn_dir w) \<noteq> 0"
    and "entry_addr s p v = entry_addr s q w"
  shows "p = q \<and> v = w"
proof -
  have "tbl_page s p (vpn_dir v) = tbl_page s q (vpn_dir w)"
    using arg_cong [OF assms(8), of page_of] by (simp add: entry_addr_facts)
  then have "slot_page s (Table p (vpn_dir v)) = Some (tbl_page s p (vpn_dir v))"
      "slot_page s (Table q (vpn_dir w)) = Some (tbl_page s p (vpn_dir v))"
    using slot_TableI [OF assms(2) user_page_dir [OF assms(3)] assms(4)]
      slot_TableI [OF assms(5) user_page_dir [OF assms(6)] assms(7)] by simp_all
  then have "Table p (vpn_dir v) = Table q (vpn_dir w)"
    by (rule slots_inj [OF assms(1)])
  then have pd: "p = q" "vpn_dir v = vpn_dir w" by auto
  have "unat (vpn_idx v) = unat (vpn_idx w)"
    using arg_cong [OF assms(8), of unat] by (simp add: entry_addr_facts(3) pd)
  then have "vpn_idx v = vpn_idx w" by (simp only: word_unat_eq_iff)
  with pd show ?thesis using vpn_eq by blast
qed

lemma entry_store:
  assumes "slots_ok s" "user_proc p" "user_page v" "PDirPool s p (vpn_dir v) \<noteq> 0"
    and "user_proc q" "user_page w" "PDirPool s q (vpn_dir w) \<noteq> 0"
  shows "entry (s\<lparr>mem := store32 (entry_addr s p v) e (mem s)\<rparr>) q w = (if q = p \<and> w = v then e else entry s q w)"
proof (cases "q = p \<and> w = v")
  case True
  then show ?thesis by (simp add: entry_mem)
next
  case False
  then have "entry_addr s p v \<noteq> entry_addr s q w"
    using entry_addr_inj [OF assms] by blast
  then have "load32 (store32 (entry_addr s p v) e (mem s)) (entry_addr s q w) = load32 (mem s) (entry_addr s q w)"
    by (intro load32_store32_other entry_addr_facts(2))
  with False show ?thesis by (auto simp: entry_mem entry_def [of s])
qed

text \<open>Bytes that change in pages which are no page tables leave every table alone.\<close>

lemma mapping_mem:
  assumes "\<And>x. page_of x \<notin> P \<Longrightarrow> m x = mem s x"
    and "\<And>p d. user_proc p \<Longrightarrow> \<not> kern_pde d \<Longrightarrow> PDirPool s p d \<noteq> 0 \<Longrightarrow> tbl_page s p d \<notin> P"
    and "user_proc p" "user_page v"
  shows "mapping (s\<lparr>mem := m\<rparr>) p v = mapping s p v"
proof (cases "PDirPool s p (vpn_dir v) = 0")
  case False
  then have "tbl_page s p (vpn_dir v) \<notin> P" using assms(2-4) user_page_dir by blast
  then have "load32 m (entry_addr s p v) = load32 (mem s) (entry_addr s p v)"
    by (intro load32_page_cong entry_addr_facts(2)) (auto simp: entry_addr_facts(1) intro: assms(1))
  then show ?thesis by (simp add: mapping_def entry_mem entry_def [of s])
qed (simp add: mapping_def)

lemma slot_page_eqI:
  assumes "\<And>p d. user_proc p \<Longrightarrow> \<not> kern_pde d \<Longrightarrow> PDirPool s' p d = PDirPool s p d"
    and "\<And>p v. user_proc p \<Longrightarrow> user_page v \<Longrightarrow> mapping s' p v = mapping s p v"
  shows "slot_page s' a = slot_page s a"
  using assms by (cases a) (auto simp: tbl_page_def)

lemma identity_row:
  assumes "idptbl_placed s" "d < 1024" "k < 1024"
  shows "unat (idptbl_row s d + 4 * k) = unat (IDPTbl_addr s) + unat d * 4096 + 4 * unat k"
    "aligned4 (idptbl_row s d + 4 * k)" "\<not> user_page (page_of (idptbl_row s d + 4 * k))"
proof -
  have b: "unat (IDPTbl_addr s) + 2 ^ 22 \<le> 2 ^ 30" "unat d < 1024" "unat k < 1024"
    using assms by (simp_all add: idptbl_placed_def VM_USERLO_def word_less_nat_alt)
  then have m: "unat (d * 4096) = unat d * 4096" "unat (4 * k) = 4 * unat k"
    by (simp_all add: unat_word_ariths)
  show a: "unat (idptbl_row s d + 4 * k) = unat (IDPTbl_addr s) + unat d * 4096 + 4 * unat k"
    using b m by (simp add: idptbl_row_def unat_word_ariths)
  obtain j where "unat (IDPTbl_addr s) = 4096 * j"
    using assms(1) by (auto simp: idptbl_placed_def elim: dvdE [OF mod_0_imp_dvd])
  then have "unat (idptbl_row s d + 4 * k) = 4 * (1024 * j + unat d * 1024 + unat k)"
    using a by simp
  then show "aligned4 (idptbl_row s d + 4 * k)" by (simp add: aligned4_def)
  have "unat (idptbl_row s d + 4 * k) < 0x40000 * 4096" using a b by simp
  then show "\<not> user_page (page_of (idptbl_row s d + 4 * k))"
    by (simp add: user_page_def VM_PI_values word_le_nat_alt unat_page_of less_eq_div_iff_mult_less_eq)
qed

lemma identity_ok_mem:
  assumes "identity_ok s" "\<And>x. \<not> user_page (page_of x) \<Longrightarrow> m x = mem s x"
  shows "identity_ok (s\<lparr>mem := m\<rparr>)"
proof -
  have placed: "idptbl_placed s" using assms(1) by (simp add: identity_ok_def)
  have "load32 m (idptbl_row s d + 4 * k) = load32 (mem s) (idptbl_row s d + 4 * k)"
    if "d < 1024" "k < 1024" for d k
    using identity_row(2,3) [OF placed that] by (intro load32_page_cong) (auto intro: assms(2))
  then show ?thesis
    using assms(1) by (simp add: identity_ok_def idptbl_placed_def idptbl_row_def)
qed

section \<open>Steps on the abstract address space\<close>

text \<open>Storing an entry into an existing table.\<close>

lemma mapping_store:
  assumes "slots_ok s" "user_proc p" "user_page v" "PDirPool s p (vpn_dir v) \<noteq> 0"
    and "user_proc q" "user_page w"
  shows "mapping (s\<lparr>mem := store32 (entry_addr s p v) e (mem s)\<rparr>) q w =
    (if q = p \<and> w = v then e else mapping s q w)"
  using entry_store [OF assms] assms(4) by (auto simp: mapping_def)

text \<open>Clearing a page.\<close>

definition zero_table :: "u32 \<Rightarrow> memory \<Rightarrow> memory" where
  "zero_table pg m = fold (\<lambda>k m. store32 (page_start pg + 4 * k) 0 m) (word_range 0 1024) m"

lemma fold_store_other_page:
  assumes "unat pg < 2 ^ 20" "\<forall>k \<in> set ks. unat k < 1024" "page_of x \<noteq> pg"
  shows "fold (\<lambda>k m. store32 (page_start pg + 4 * k) 0 m) ks m x = m x"
  using assms(2)
proof (induction ks arbitrary: m)
  case (Cons k ks)
  then have "store32 (page_start pg + 4 * k) 0 m x = m x"
    using assms(1,3) by (intro store32_other_page) (simp_all add: slot_addr)
  with Cons show ?case by simp
qed simp

lemma fold_store_load:
  assumes "unat pg < 2 ^ 20" "\<forall>k \<in> set ks. unat k < 1024" "unat j < 1024"
  shows "load32 (fold (\<lambda>k m. store32 (page_start pg + 4 * k) 0 m) ks m) (page_start pg + 4 * j) =
    (if j \<in> set ks then 0 else load32 m (page_start pg + 4 * j))"
  using assms(2)
proof (induction ks arbitrary: m)
  case (Cons k ks)
  have "load32 (store32 (page_start pg + 4 * k) 0 m) (page_start pg + 4 * j) =
      (if j = k then 0 else load32 m (page_start pg + 4 * j))"
  proof (cases "j = k")
    case False
    have "unat (page_start pg + 4 * k) \<noteq> unat (page_start pg + 4 * j)"
      using Cons.prems False by (simp add: slot_addr(3) [OF assms(1)] assms(3) word_unat_eq_iff)
    then have "page_start pg + 4 * k \<noteq> page_start pg + 4 * j" by auto
    then show ?thesis
      using False Cons.prems assms(3) by (simp add: load32_store32_other slot_addr(2) [OF assms(1)])
  qed simp
  with Cons show ?case by auto
qed simp

lemma zero_table_facts:
  assumes "unat pg < 2 ^ 20"
  shows "page_of x \<noteq> pg \<Longrightarrow> zero_table pg m x = m x"
    "unat j < 1024 \<Longrightarrow> load32 (zero_table pg m) (page_start pg + 4 * j) = 0"
  unfolding zero_table_def
  using fold_store_other_page [OF assms, of "word_range 0 1024"]
    fold_store_load [OF assms, of "word_range 0 1024"]
  by (simp_all add: set_word_range word_less_nat_alt)

text \<open>Entering a fresh, cleared page as a table.\<close>

definition add_table :: "u32 \<Rightarrow> u32 \<Rightarrow> u32 \<Rightarrow> 'a vmm_scheme \<Rightarrow> 'a vmm_scheme" where
  "add_table p d pg s = (write_pdir p d (push_bit 12 pg OR PT_PERM_PTU) s)\<lparr>mem := zero_table pg (mem s)\<rparr>"

lemma PTU_bits: "PT_PERM_PTU AND 0xFFF = PT_PERM_PTU" "PT_PERM_PTU \<noteq> 0"
  by (simp_all add: PT_PERM_PTU_def PTE_P_def PTE_W_def PTE_U_def)

lemma or_nonzero: "b \<noteq> 0 \<Longrightarrow> a OR b \<noteq> 0" for a b :: u32
  by (metis or_eq_0_iff)

lemma add_table_pdir:
  assumes "unat pg < 2 ^ 20"
  shows "PDirPool (add_table p d pg s) q e = (if q = p \<and> e = d then push_bit 12 pg OR PT_PERM_PTU else PDirPool s q e)"
    "tbl_page (add_table p d pg s) q e = (if q = p \<and> e = d then pg else tbl_page s q e)"
  using pte_fields(2) [OF assms PTU_bits(1)]
  by (auto simp: add_table_def write_pdir_def tbl_page_def)

lemma add_table_mapping:
  assumes "unat pg < 2 ^ 20" "PDirPool s p d = 0"
    and "\<And>p d. user_proc p \<Longrightarrow> \<not> kern_pde d \<Longrightarrow> PDirPool s p d \<noteq> 0 \<Longrightarrow> tbl_page s p d \<noteq> pg"
    and "user_proc q" "user_page w"
  shows "mapping (add_table p d pg s) q w = mapping s q w"
proof (cases "q = p \<and> vpn_dir w = d")
  case True
  have "entry (add_table p d pg s) q w = load32 (zero_table pg (mem s)) (page_start pg + 4 * vpn_idx w)"
    using True by (simp add: entry_def entry_addr_def add_table_pdir(2) [OF assms(1)]) (simp add: add_table_def)
  then show ?thesis
    using True assms(2) by (simp add: mapping_def zero_table_facts(2) [OF assms(1) vpn_idx_small])
next
  case False
  show ?thesis
  proof (cases "PDirPool s q (vpn_dir w) = 0")
    case True
    with False show ?thesis by (auto simp: mapping_def add_table_pdir(1) [OF assms(1)])
  next
    case nz: False
    then have "tbl_page s q (vpn_dir w) \<noteq> pg" using assms(3-5) user_page_dir by blast
    then have "load32 (zero_table pg (mem s)) (entry_addr s q w) = load32 (mem s) (entry_addr s q w)"
      by (intro load32_page_cong entry_addr_facts(2))
        (simp add: entry_addr_facts(1) zero_table_facts(1) [OF assms(1)])
    moreover have "entry_addr (add_table p d pg s) q w = entry_addr s q w"
      using False by (auto simp: entry_addr_def add_table_pdir(2) [OF assms(1)])
    moreover have "mem (add_table p d pg s) = zero_table pg (mem s)" by (simp add: add_table_def)
    moreover have "PDirPool (add_table p d pg s) q (vpn_dir w) = PDirPool s q (vpn_dir w)"
      using False by (auto simp: add_table_pdir(1) [OF assms(1)])
    ultimately show ?thesis by (simp add: mapping_def entry_def)
  qed
qed

section \<open>The operations keep the invariant\<close>

lemma vm_frame [simp]:
  "ctr_inv (s\<lparr>mem := m\<rparr>) = ctr_inv s" "free_pages (s\<lparr>mem := m\<rparr>) = free_pages s"
  "norm_pages (s\<lparr>mem := m\<rparr>) = norm_pages s" "pdes_ok (s\<lparr>mem := m\<rparr>) = pdes_ok s"
  "ctr_inv (write_pdir p d e s) = ctr_inv s" "free_pages (write_pdir p d e s) = free_pages s"
  "norm_pages (write_pdir p d e s) = norm_pages s" "CONTAINER (write_pdir p d e s) = CONTAINER s"
  "mem (write_pdir p d e s) = mem s" "IDPTbl_addr (write_pdir p d e s) = IDPTbl_addr s"
  by (simp_all add: ctr_inv_def mat_inv_def cpu_ok_def free_pages_def norm_pages_def norm_free_def
      pdes_ok_def idptbl_row_def write_pdir_def)

lemma PDE_ADDR_bound: "PDE_ADDR va < 1024"
  using unat_bound [of va] by (simp add: PDE_ADDR_def drop_bit_eq_div word_less_nat_alt unat_div)

lemma pdir_index_ok: "p < NUM_IDS \<Longrightarrow> d < 1024 \<Longrightarrow> pdir_index p d m s = m s"
  by (simp add: pdir_index_def indexK_def)

lemma get_pdir_entry_by_va_eq: "p < NUM_IDS \<Longrightarrow>
    get_pdir_entry_by_va p va s = Inr (PDirPool s p (vpn_dir (page_of va)), s)"
  using PDE_ADDR_bound [of va]
  by (simp add: get_pdir_entry_by_va_def get_pdir_entry_def pdir_index_ok readK_def PDE_ADDR_vpn)

lemma get_ptbl_entry_by_va_eq: "p < NUM_IDS \<Longrightarrow>
    get_ptbl_entry_by_va p va s = Inr (mapping s p (page_of va), s)"
  using PDE_ADDR_bound [of va]
  by (simp add: get_ptbl_entry_by_va_def get_pdir_entry_def get_ptbl_entry_def pdir_index_ok monad_defs
      mapping_def entry_def pte_addr_entry) (simp add: PDE_ADDR_vpn)

lemma set_ptbl_entry_by_va_eq: "p < NUM_IDS \<Longrightarrow> set_ptbl_entry_by_va p va pg prm s =
    Inr ((), s\<lparr>mem := store32 (entry_addr s p (page_of va)) (push_bit 12 pg OR prm) (mem s)\<rparr>)"
  using PDE_ADDR_bound [of va]
  by (simp add: set_ptbl_entry_by_va_def set_ptbl_entry_def pdir_index_ok monad_defs pte_addr_entry)

lemma rmv_ptbl_entry_by_va_eq: "p < NUM_IDS \<Longrightarrow> rmv_ptbl_entry_by_va p va s = Inr ((),
    if PDirPool s p (vpn_dir (page_of va)) = 0 then s
    else s\<lparr>mem := store32 (entry_addr s p (page_of va)) 0 (mem s)\<rparr>)"
  using PDE_ADDR_bound [of va]
  by (simp add: rmv_ptbl_entry_by_va_def get_pdir_entry_def rmv_ptbl_entry_def pdir_index_ok monad_defs
      pte_addr_entry) (simp add: PDE_ADDR_vpn)

lemma fold_mem_update:
  "fold (\<lambda>k t. t\<lparr>mem := f k (mem t)\<rparr>) ks t = t\<lparr>mem := fold f ks (mem t)\<rparr>"
  by (induction ks arbitrary: t) simp_all

lemma alloc_ptbl_run:
  assumes "container_alloc p s = Inr (pg, s1)" "pg \<noteq> 0" "unat pg < 2 ^ 20" "p < NUM_IDS"
  shows "alloc_ptbl p va s = Inr (pg, add_table p (PDE_ADDR va) pg s1)"
proof -
  let ?d = "PDE_ADDR va" and ?s2 = "write_pdir p (PDE_ADDR va) (push_bit 12 pg OR PT_PERM_PTU) s1"
  have body: "rmv_ptbl_entry p ?d k t = Inr ((), t\<lparr>mem := store32 (page_start pg + 4 * k) 0 (mem t)\<rparr>) \<and>
      PDirPool (t\<lparr>mem := store32 (page_start pg + 4 * k) 0 (mem t)\<rparr>) = PDirPool ?s2"
    if "PDirPool t = PDirPool ?s2" for t k
    using that assms(4) PDE_ADDR_bound pte_fields(1) [OF assms(3) PTU_bits(1)]
    by (simp add: rmv_ptbl_entry_def pdir_index_ok modifyK_def pte_addr_def ADDR_MASK_def write_pdir_def)
  have "forK (word_range 0 1024) (rmv_ptbl_entry p ?d) ?s2 =
      Inr ((), fold (\<lambda>k t. t\<lparr>mem := store32 (page_start pg + 4 * k) 0 (mem t)\<rparr>) (word_range 0 1024) ?s2)"
    by (rule conjunct1 [OF forK_fold [where P = "\<lambda>t. PDirPool t = PDirPool ?s2"]]) (rule body, assumption, rule refl)
  then show ?thesis
    using assms PDE_ADDR_bound
    by (simp add: alloc_ptbl_def set_pdir_entry_by_va_def set_pdir_entry_def pdir_index_ok monad_defs
        fold_mem_update [where f = "\<lambda>k. store32 (page_start pg + 4 * k) 0"] add_table_def zero_table_def)
qed

lemma slots_extend:
  assumes "slots_ok s" "\<And>b. slot_page s' b = (if b = a then Some pg else slot_page s b)"
    and "\<And>b. slot_page s b \<noteq> Some pg" "norm_pages s' = norm_pages s" "free_pages s' \<subseteq> free_pages s"
    and "pg \<in> norm_pages s" "pg \<notin> free_pages s'"
  shows "slots_ok s'"
  using assms unfolding slots_ok_def by (smt (verit) option.inject subsetD)

lemma slots_remove:
  assumes "slots_ok s" "\<And>b. slot_page s' b = (if b = a then None else slot_page s b)"
    and "norm_pages s' = norm_pages s" "free_pages s' \<subseteq> free_pages s"
  shows "slots_ok s'"
  using assms unfolding slots_ok_def by (smt (verit) option.distinct(1) subsetD)

lemma free_page_facts:
  assumes "ctr_inv s" "pg \<in> free_pages s"
  shows "user_page pg" "unat pg < 2 ^ 20" "pg \<noteq> 0" "pg \<in> norm_pages s"
proof -
  show "user_page pg" "pg \<in> norm_pages s"
    using assms norm_free_user [of s pg] by (auto simp: ctr_inv_def free_pages_def norm_pages_def norm_free_def)
  then show "unat pg < 2 ^ 20" "pg \<noteq> 0"
    using user_page_bounds [of pg] by (auto simp: AT_SIZE_def word_less_nat_alt)
qed

lemma vm_container_alloc:
  assumes "vm_inv s" "is_used (CONTAINER s) p" "usage (CONTAINER s p) < quota (CONTAINER s p)"
  obtains pg s1 where "container_alloc p s = Inr (pg, s1)" "pg \<in> free_pages s"
    "free_pages s1 = free_pages s - {pg}" "norm_pages s1 = norm_pages s" "vm_inv s1"
    "mem s1 = mem s" "PDirPool s1 = PDirPool s" "mapping s1 = mapping s" "slot_page s1 = slot_page s"
    "CONTAINER s1 = (CONTAINER s)(p := (CONTAINER s p)\<lparr>usage := usage (CONTAINER s p) + 1\<rparr>)"
proof -
  have ctr: "ctr_inv s" using assms(1) by (simp add: vm_inv_def)
  obtain pg s1 where pg: "norm_free s pg" "container_alloc p s = Inr (pg, s1)"
    and s1: "s1 = set_container p (\<lambda>c. c\<lparr>usage := usage c + 1\<rparr>)
        (s\<lparr>AT := (AT s)(pg := (AT s pg)\<lparr>allocated := 1\<rparr>), last_palloc_index := pg\<rparr>)"
    using container_alloc_quota [OF ctr assms(2,3)] by blast
  have same: "mem s1 = mem s" "PDirPool s1 = PDirPool s" "IDPTbl_addr s1 = IDPTbl_addr s"
      "CONTAINER s1 = (CONTAINER s)(p := (CONTAINER s p)\<lparr>usage := usage (CONTAINER s p) + 1\<rparr>)"
    by (simp_all add: s1 set_container_def)
  have pages: "free_pages s1 = free_pages s - {pg}" "norm_pages s1 = norm_pages s"
    by (auto simp: s1 set_container_def free_pages_def norm_pages_def norm_free_def)
  have map: "mapping s1 = mapping s"
    by (intro ext) (simp add: mapping_def entry_def entry_addr_def tbl_page_def same)
  have slot: "slot_page s1 = slot_page s"
    by (rule ext, rule slot_page_eqI) (simp_all add: map same)
  have "ctr_inv s1"
    using container_alloc_inv [OF ctr assms(2)] pg(2) by (simp add: wpK_def)
  moreover have "pdes_ok s1" "identity_ok s1" "slots_ok s1"
    using assms(1) by (simp_all add: vm_inv_def pdes_ok_def identity_ok_def idptbl_placed_def idptbl_row_def
        slots_ok_def same slot pages)
  ultimately have "vm_inv s1" by (simp add: vm_inv_def)
  moreover have "pg \<in> free_pages s" using pg(1) by (simp add: free_pages_def)
  ultimately show ?thesis
    using that [OF pg(2)] pages same map slot by simp
qed

lemma table_not_fresh:
  assumes "\<And>a. slot_page s a \<noteq> Some pg" "user_proc q" "\<not> kern_pde e" "PDirPool s q e \<noteq> 0"
  shows "tbl_page s q e \<noteq> pg"
  using assms(1) [of "Table q e"] assms(2-4) by simp

lemma add_table_inv:
  assumes "vm_inv s" "user_proc p" "\<not> kern_pde d" "PDirPool s p d = 0"
    and "user_page pg" "pg \<in> norm_pages s" "pg \<notin> free_pages s" "\<And>a. slot_page s a \<noteq> Some pg"
  shows "vm_inv (add_table p d pg s)"
    "slot_page (add_table p d pg s) a = (if a = Table p d then Some pg else slot_page s a)"
    "user_proc q \<Longrightarrow> user_page w \<Longrightarrow> mapping (add_table p d pg s) q w = mapping s q w"
proof -
  have small: "unat pg < 2 ^ 20"
    using user_page_bounds(1) [OF assms(5)] by (simp add: AT_SIZE_def word_less_nat_alt)
  note pdir = add_table_pdir [OF small, of p d s]
  have map: "mapping (add_table p d pg s) q w = mapping s q w" if "user_proc q" "user_page w" for q w
    using that by (intro add_table_mapping small assms(4) table_not_fresh [OF assms(8)])
  then show "user_proc q \<Longrightarrow> user_page w \<Longrightarrow> mapping (add_table p d pg s) q w = mapping s q w" .
  have slot: "slot_page (add_table p d pg s) a = (if a = Table p d then Some pg else slot_page s a)" for a
    using assms(2,3) map by (cases a) (auto simp: pdir or_nonzero PTU_bits(2))
  then show "slot_page (add_table p d pg s) a = (if a = Table p d then Some pg else slot_page s a)" .
  have pages: "norm_pages (add_table p d pg s) = norm_pages s" "free_pages (add_table p d pg s) = free_pages s"
      "ctr_inv (add_table p d pg s) = ctr_inv s" "idptbl_row (add_table p d pg s) = idptbl_row s"
    by (simp_all add: add_table_def idptbl_row_def fun_eq_iff)
  have "pdes_ok (add_table p d pg s)"
    unfolding pdes_ok_def
  proof (intro allI impI)
    fix q e :: u32
    assume qe: "user_proc q" "e < 1024"
    have old: "if kern_pde e then PDirPool s q e = idptbl_row s e OR PT_PERM_PTU
        else PDirPool s q e = 0 \<or> PDirPool s q e AND 0xFFF = PT_PERM_PTU"
      using assms(1) qe unfolding vm_inv_def pdes_ok_def by blast
    show "if kern_pde e then PDirPool (add_table p d pg s) q e = idptbl_row (add_table p d pg s) e OR PT_PERM_PTU
        else PDirPool (add_table p d pg s) q e = 0 \<or> PDirPool (add_table p d pg s) q e AND 0xFFF = PT_PERM_PTU"
    proof (cases "q = p \<and> e = d")
      case True
      then show ?thesis using assms(3) entry_low_bits [OF PTU_bits(1)] by (simp add: pdir)
    next
      case False
      then have "PDirPool (add_table p d pg s) q e = PDirPool s q e" by (simp only: pdir if_False)
      with old show ?thesis by (simp only: pages)
    qed
  qed
  moreover have "identity_ok (add_table p d pg s)"
    unfolding add_table_def
  proof (rule identity_ok_mem)
    show "identity_ok (write_pdir p d (push_bit 12 pg OR PT_PERM_PTU) s)"
      using assms(1) by (simp add: vm_inv_def identity_ok_def idptbl_placed_def idptbl_row_def)
    show "zero_table pg (mem s) x = mem (write_pdir p d (push_bit 12 pg OR PT_PERM_PTU) s) x"
      if "\<not> user_page (page_of x)" for x
      using that assms(5) zero_table_facts(1) [OF small, of x] by auto
  qed
  moreover have "slots_ok (add_table p d pg s)"
  proof (rule slots_extend [OF _ slot assms(8)])
    show "slots_ok s" using assms(1) by (simp only: vm_inv_def)
  qed (simp_all add: pages assms(6,7))
  ultimately show "vm_inv (add_table p d pg s)"
    using assms(1) by (simp add: vm_inv_def pages)
qed

text \<open>Writing an entry of a table keeps everything but the one virtual page.\<close>

lemma entry_page_taken:
  assumes "slots_ok s" "user_proc p" "user_page v" "PDirPool s p (vpn_dir v) \<noteq> 0"
  shows "tbl_page s p (vpn_dir v) \<in> norm_pages s"
  using slots_taken [OF assms(1) slot_TableI [OF assms(2) user_page_dir [OF assms(3)] assms(4)]] by simp

lemma norm_user: "ctr_inv s \<Longrightarrow> pg \<in> norm_pages s \<Longrightarrow> user_page pg"
  by (simp add: ctr_inv_def mat_inv_def norm_pages_def)

lemma store_entry_frame:
  fixes s :: "'a vmm_scheme" and e :: u32
  assumes "vm_inv s" "user_proc p" "user_page v" "PDirPool s p (vpn_dir v) \<noteq> 0"
  defines "s' \<equiv> s\<lparr>mem := store32 (entry_addr s p v) e (mem s)\<rparr>"
  shows "user_proc q \<Longrightarrow> user_page w \<Longrightarrow> mapping s' q w = (if q = p \<and> w = v then e else mapping s q w)"
    "identity_ok s'" "pdes_ok s'" "ctr_inv s'" "norm_pages s' = norm_pages s" "free_pages s' = free_pages s"
    "slot_page s' a = (if a = Data p v then (if e \<noteq> 0 then Some (drop_bit 12 e) else None) else slot_page s a)"
proof -
  have ok: "slots_ok s" "ctr_inv s" "pdes_ok s" "identity_ok s"
    using assms(1) by (simp_all add: vm_inv_def)
  have map: "mapping s' q w = (if q = p \<and> w = v then e else mapping s q w)"
    if "user_proc q" "user_page w" for q w
    unfolding s'_def by (rule mapping_store [OF ok(1) assms(2-4) that])
  then show "user_proc q \<Longrightarrow> user_page w \<Longrightarrow> mapping s' q w = (if q = p \<and> w = v then e else mapping s q w)" .
  have up: "user_page (page_of (entry_addr s p v))"
    using norm_user [OF ok(2) entry_page_taken [OF ok(1) assms(2-4)]] by (simp add: entry_addr_facts(1))
  show "identity_ok s'"
    unfolding s'_def
  proof (rule identity_ok_mem [OF ok(4)])
    show "store32 (entry_addr s p v) e (mem s) x = mem s x" if "\<not> user_page (page_of x)" for x
      using that up by (intro store32_other_page entry_addr_facts(2)) auto
  qed
  show "pdes_ok s'" "ctr_inv s'" "norm_pages s' = norm_pages s" "free_pages s' = free_pages s"
    using ok by (simp_all add: s'_def)
  show "slot_page s' a = (if a = Data p v then (if e \<noteq> 0 then Some (drop_bit 12 e) else None) else slot_page s a)"
  proof (cases a)
    case (Table q d)
    then show ?thesis by (simp add: s'_def tbl_page_def)
  next
    case (Data q w)
    then show ?thesis using assms(2,3) map by auto
  qed
qed

lemma map_entry_inv:
  assumes "vm_inv s" "user_proc p" "user_page v" "PDirPool s p (vpn_dir v) \<noteq> 0"
    and "user_page pg" "pg \<in> norm_pages s" "pg \<notin> free_pages s" "\<And>a. slot_page s a \<noteq> Some pg"
    and "prm AND 0xFFF = prm" "prm \<noteq> 0"
  shows "vm_inv (s\<lparr>mem := store32 (entry_addr s p v) (push_bit 12 pg OR prm) (mem s)\<rparr>)"
proof -
  have small: "unat pg < 2 ^ 20"
    using user_page_bounds(1) [OF assms(5)] by (simp add: AT_SIZE_def word_less_nat_alt)
  note fr = store_entry_frame [OF assms(1-4), where e = "push_bit 12 pg OR prm"]
  have slot: "slot_page (s\<lparr>mem := store32 (entry_addr s p v) (push_bit 12 pg OR prm) (mem s)\<rparr>) b =
      (if b = Data p v then Some pg else slot_page s b)" for b
    using fr(7) [of b] pte_fields(2) [OF small assms(9)] or_nonzero [OF assms(10)] by simp
  have "slots_ok (s\<lparr>mem := store32 (entry_addr s p v) (push_bit 12 pg OR prm) (mem s)\<rparr>)"
  proof (rule slots_extend [OF _ slot assms(8)])
    show "slots_ok s" using assms(1) by (simp only: vm_inv_def)
  qed (simp_all add: assms(6,7))
  with fr(2-4) show ?thesis by (simp add: vm_inv_def)
qed

lemma unmap_entry_inv:
  assumes "vm_inv s" "user_proc p" "user_page v" "PDirPool s p (vpn_dir v) \<noteq> 0"
  shows "vm_inv (s\<lparr>mem := store32 (entry_addr s p v) 0 (mem s)\<rparr>)"
proof -
  note fr = store_entry_frame [OF assms, where e = 0]
  have "slots_ok (s\<lparr>mem := store32 (entry_addr s p v) 0 (mem s)\<rparr>)"
  proof (rule slots_remove [of s _ "Data p v"])
    show "slots_ok s" using assms(1) by (simp only: vm_inv_def)
    show "slot_page (s\<lparr>mem := store32 (entry_addr s p v) 0 (mem s)\<rparr>) b =
        (if b = Data p v then None else slot_page s b)" for b
      using fr(7) [of b] by (simp only: if_False if_True not_True_eq_False simp_thms)
  qed simp_all
  with fr(2-4) show ?thesis by (simp add: vm_inv_def)
qed

text \<open>The first half of \<open>map_page\<close>: afterwards the directory has a table for the address.\<close>

definition has_table :: "'a vmm_scheme \<Rightarrow> u32 \<Rightarrow> u32 \<Rightarrow> bool" where
  "has_table s p va \<longleftrightarrow> PDirPool s p (vpn_dir (page_of va)) \<noteq> 0"

definition ensure_table :: "u32 \<Rightarrow> u32 \<Rightarrow> ('a vmm_scheme, u32) kern" where
  "ensure_table p va s = (if has_table s p va then Inr (tbl_page s p (vpn_dir (page_of va)), s) else alloc_ptbl p va s)"

lemma map_page_ensure:
  assumes "p < NUM_IDS"
  shows "map_page p va pg prm s = bindK (ensure_table p va) (\<lambda>r.
    if \<not> has_table s p va \<and> r = 0 then returnK MagicNumber
    else seqK (set_ptbl_entry_by_va p va pg prm) (returnK r)) s"
  using assms
  by (simp add: map_page_def bindK_def get_pdir_entry_by_va_eq ensure_table_def has_table_def tbl_page_def
      returnK_def split: sum.splits)

lemma ensure_table_ok:
  assumes "vm_inv s" "user_proc p" "is_used (CONTAINER s) p" "user_va va"
    and "has_table s p va \<or> usage (CONTAINER s p) < quota (CONTAINER s p)"
  obtains r s' where "ensure_table p va s = Inr (r, s')" "r \<noteq> 0" "r \<noteq> MagicNumber" "vm_inv s'" "has_table s' p va"
    "\<And>q w. user_proc q \<Longrightarrow> user_page w \<Longrightarrow> mapping s' q w = mapping s q w"
    "norm_pages s' = norm_pages s" "free_pages s' \<subseteq> free_pages s"
    "\<And>a. slot_page s' a = slot_page s a \<or> (\<exists>pg \<in> free_pages s. slot_page s' a = Some pg)"
    "\<And>x. (\<forall>d. slot_page s' (Table p d) \<noteq> Some (page_of x)) \<Longrightarrow> mem s' x = mem s x"
proof -
  let ?d = "vpn_dir (page_of va)"
  have up: "user_page (page_of va)" using assms(4) by (simp add: user_va_page)
  have d: "\<not> kern_pde ?d" using user_page_dir [OF up] .
  have ok: "slots_ok s" "ctr_inv s" using assms(1) by (simp_all add: vm_inv_def)
  have small: "r \<noteq> 0 \<and> r \<noteq> MagicNumber" if "user_page r" for r
    using that user_page_bounds [of r] by (auto simp: AT_SIZE_def MagicNumber_def)
  show thesis
  proof (cases "has_table s p va")
    case True
    then have "user_page (tbl_page s p ?d)"
      using norm_user [OF ok(2) entry_page_taken [OF ok(1) assms(2) up]] by (simp add: has_table_def)
    with True small assms(1) that [of "tbl_page s p ?d" s] show thesis by (simp add: ensure_table_def)
  next
    case False
    with assms(5) have "usage (CONTAINER s p) < quota (CONTAINER s p)" by simp
    from vm_container_alloc [OF assms(1,3) this] obtain pg s1 where
      s1: "container_alloc p s = Inr (pg, s1)" "pg \<in> free_pages s" "free_pages s1 = free_pages s - {pg}"
        "norm_pages s1 = norm_pages s" "vm_inv s1" "mem s1 = mem s" "PDirPool s1 = PDirPool s"
        "mapping s1 = mapping s" "slot_page s1 = slot_page s" by metis
    note pg = free_page_facts [OF ok(2) s1(2)]
    have fresh: "slot_page s1 a \<noteq> Some pg" for a
      using slots_taken [OF ok(1), of a pg] s1(2,9) by auto
    have zero: "PDirPool s1 p ?d = 0" using False s1(7) by (simp add: has_table_def)
    note add = add_table_inv [OF s1(5) assms(2) d zero pg(1) _ _ fresh]
    have add': "pg \<in> norm_pages s1" "pg \<notin> free_pages s1" using pg(4) s1(3,4) by simp_all
    have run: "ensure_table p va s = Inr (pg, add_table p ?d pg s1)"
      using alloc_ptbl_run [OF s1(1) pg(3,2)] assms(2) False
      by (simp add: ensure_table_def PDE_ADDR_vpn user_proc_def)
    show thesis
    proof (rule that [OF run])
      show "pg \<noteq> 0" "pg \<noteq> MagicNumber" using small [OF pg(1)] by simp_all
      show "vm_inv (add_table p ?d pg s1)" by (rule add(1) [OF add'])
      show "has_table (add_table p ?d pg s1) p va"
        by (simp add: has_table_def add_table_pdir [OF pg(2)] or_nonzero PTU_bits(2))
      show "mapping (add_table p ?d pg s1) q w = mapping s q w" if "user_proc q" "user_page w" for q w
        using add(3) [OF add' that] s1(8) by simp
      show "norm_pages (add_table p ?d pg s1) = norm_pages s" "free_pages (add_table p ?d pg s1) \<subseteq> free_pages s"
        using s1(3,4) by (auto simp: add_table_def)
      show "slot_page (add_table p ?d pg s1) a = slot_page s a \<or>
          (\<exists>r \<in> free_pages s. slot_page (add_table p ?d pg s1) a = Some r)" for a
        using add(2) [OF add', of a] s1(2) unfolding s1(9) by metis
      show "mem (add_table p ?d pg s1) x = mem s x"
        if "\<forall>d. slot_page (add_table p ?d pg s1) (Table p d) \<noteq> Some (page_of x)" for x
      proof -
        have "page_of x \<noteq> pg"
          using that [rule_format, of ?d] add(2) [OF add', of "Table p ?d"] by metis
        then show ?thesis using s1(6) zero_table_facts(1) [OF pg(2)] by (simp add: add_table_def)
      qed
    qed
  qed
qed

text \<open>The pages \<open>alloc_page\<close> takes from the quota: one, and one more for a new table.\<close>

definition pages_needed :: "'a vmm_scheme \<Rightarrow> u32 \<Rightarrow> u32 \<Rightarrow> nat" where
  "pages_needed s p va = (if has_table s p va then 1 else 2)"

definition page_quota_left :: "'a vmm_scheme \<Rightarrow> u32 \<Rightarrow> nat" where
  "page_quota_left s p = unat (quota (CONTAINER s p)) - unat (usage (CONTAINER s p))"

lemma usage_inc: "usage (c::SContainer) < quota c \<Longrightarrow> unat (usage c + 1) = Suc (unat (usage c))"
  using unat_bound [of "quota c"] by (simp add: word_less_nat_alt unat_word_ariths)

lemma alloc_page_maps:
  assumes "vm_inv s" "user_proc p" "is_used (CONTAINER s) p" "user_va va" "prm AND 0xFFF = prm" "prm \<noteq> 0"
    and "pages_needed s p va \<le> page_quota_left s p"
  shows "\<exists>r pg s'. alloc_page p va prm s = Inr (r, s') \<and> r \<noteq> MagicNumber \<and> pg \<in> free_pages s \<and> vm_inv s' \<and>
    (\<forall>q w. user_proc q \<and> user_page w \<longrightarrow> mapping s' q w =
      (if q = p \<and> w = page_of va then push_bit 12 pg OR prm else mapping s q w)) \<and>
    (\<forall>x. (\<forall>d. slot_page s' (Table p d) \<noteq> Some (page_of x)) \<longrightarrow> mem s' x = mem s x)"
proof -
  let ?v = "page_of va"
  have up: "user_page ?v" using assms(4) by (simp add: user_va_page)
  have ok: "slots_ok s" "ctr_inv s" using assms(1) by (simp_all add: vm_inv_def)
  have lt: "usage (CONTAINER s p) < quota (CONTAINER s p)"
    using assms(7) by (simp add: pages_needed_def page_quota_left_def word_less_nat_alt split: if_splits)
  from vm_container_alloc [OF assms(1,3) lt] obtain pg s1 where
    s1: "container_alloc p s = Inr (pg, s1)" "pg \<in> free_pages s" "free_pages s1 = free_pages s - {pg}"
      "norm_pages s1 = norm_pages s" "vm_inv s1" "mem s1 = mem s" "PDirPool s1 = PDirPool s"
      "mapping s1 = mapping s" "slot_page s1 = slot_page s"
      "CONTAINER s1 = (CONTAINER s)(p := (CONTAINER s p)\<lparr>usage := usage (CONTAINER s p) + 1\<rparr>)" by metis
  note pg = free_page_facts [OF ok(2) s1(2)]
  have used: "is_used (CONTAINER s1) p" using assms(3) s1(10) by (simp add: is_used_def)
  have "has_table s1 p va \<or> usage (CONTAINER s1 p) < quota (CONTAINER s1 p)"
    using assms(7) usage_inc [OF lt] s1(7,10)
    by (auto simp: has_table_def pages_needed_def page_quota_left_def word_less_nat_alt split: if_splits)
  then obtain r s2 where
    s2: "ensure_table p va s1 = Inr (r, s2)" "r \<noteq> 0" "r \<noteq> MagicNumber" "vm_inv s2" "has_table s2 p va"
      "\<And>q w. user_proc q \<Longrightarrow> user_page w \<Longrightarrow> mapping s2 q w = mapping s1 q w"
      "norm_pages s2 = norm_pages s1" "free_pages s2 \<subseteq> free_pages s1"
      "\<And>a. slot_page s2 a = slot_page s1 a \<or> (\<exists>pg \<in> free_pages s1. slot_page s2 a = Some pg)"
      "\<And>x. (\<forall>d. slot_page s2 (Table p d) \<noteq> Some (page_of x)) \<Longrightarrow> mem s2 x = mem s1 x"
    by (rule ensure_table_ok [OF s1(5) assms(2) used assms(4)]) (rule that)
  let ?s' = "s2\<lparr>mem := store32 (entry_addr s2 p ?v) (push_bit 12 pg OR prm) (mem s2)\<rparr>"
  have pd: "PDirPool s2 p (vpn_dir ?v) \<noteq> 0" using s2(5) by (simp add: has_table_def)
  have fresh: "slot_page s2 a \<noteq> Some pg" for a
  proof
    assume e: "slot_page s2 a = Some pg"
    from s2(9) [of a] show False
    proof
      assume "slot_page s2 a = slot_page s1 a"
      with e s1(9) have "slot_page s a = Some pg" by metis
      with slots_taken [OF ok(1) this] s1(2) show False by blast
    next
      assume "\<exists>pg \<in> free_pages s1. slot_page s2 a = Some pg"
      with e have "pg \<in> free_pages s1" by (metis option.inject)
      then show False by (simp only: s1(3) Diff_iff singletonI simp_thms)
    qed
  qed
  have run: "alloc_page p va prm s = Inr (r, ?s')"
    using s1(1) pg(3) s2(1-3) assms(2)
    by (simp add: alloc_page_def monad_defs map_page_ensure set_ptbl_entry_by_va_eq user_proc_def)
  have inv: "vm_inv ?s'"
    by (rule map_entry_inv [OF s2(4) assms(2) up pd pg(1) _ _ fresh assms(5,6)])
      (use pg(4) s1(3,4) s2(7,8) in auto)
  note fr = store_entry_frame [OF s2(4) assms(2) up pd, where e = "push_bit 12 pg OR prm"]
  have map: "mapping ?s' q w = (if q = p \<and> w = ?v then push_bit 12 pg OR prm else mapping s q w)"
    if "user_proc q" "user_page w" for q w
    using fr(1) [OF that] s2(6) [OF that] s1(8) by simp
  have mem: "mem ?s' x = mem s x" if "\<forall>d. slot_page ?s' (Table p d) \<noteq> Some (page_of x)" for x
  proof -
    have tab: "slot_page ?s' (Table p d) = slot_page s2 (Table p d)" for d
      using fr(7) [of "Table p d"] by simp
    have "slot_page s2 (Table p (vpn_dir ?v)) = Some (tbl_page s2 p (vpn_dir ?v))"
      by (rule slot_TableI [OF assms(2) user_page_dir [OF up] pd])
    then have "page_of x \<noteq> page_of (entry_addr s2 p ?v)"
      using that [unfolded tab] by (metis entry_addr_facts(1))
    then have "store32 (entry_addr s2 p ?v) (push_bit 12 pg OR prm) (mem s2) x = mem s2 x"
      by (intro store32_other_page entry_addr_facts(2))
    then show ?thesis using s2(10) [of x] that [unfolded tab] s1(6) by simp
  qed
  from run s2(3) s1(2) inv map mem show ?thesis by blast
qed

lemma alloc_page_fails:
  assumes "vm_inv s" "user_proc p" "is_used (CONTAINER s) p" "user_va va"
    and "\<not> pages_needed s p va \<le> page_quota_left s p"
  shows "\<exists>s'. alloc_page p va prm s = Inr (MagicNumber, s') \<and> vm_inv s' \<and> mapping s' = mapping s \<and> mem s' = mem s"
proof (cases "usage (CONTAINER s p) < quota (CONTAINER s p)")
  case False
  have "ctr_inv s" using assms(1) by (simp add: vm_inv_def)
  from container_alloc_full [OF this assms(3) False] assms(1) show ?thesis
    by (simp add: alloc_page_def monad_defs)
next
  case lt: True
  from vm_container_alloc [OF assms(1,3) lt] obtain pg s1 where
    s1: "container_alloc p s = Inr (pg, s1)" "pg \<in> free_pages s" "vm_inv s1" "mem s1 = mem s"
      "PDirPool s1 = PDirPool s" "mapping s1 = mapping s"
      "CONTAINER s1 = (CONTAINER s)(p := (CONTAINER s p)\<lparr>usage := usage (CONTAINER s p) + 1\<rparr>)" by metis
  have ok: "ctr_inv s" "ctr_inv s1" using assms(1) s1(3) by (simp_all add: vm_inv_def)
  note pg = free_page_facts [OF ok(1) s1(2)]
  have used: "is_used (CONTAINER s1) p" using assms(3) s1(7) by (simp add: is_used_def)
  have tab: "\<not> has_table s p va" "\<not> has_table s1 p va"
    using assms(5) lt s1(5) by (auto simp: pages_needed_def page_quota_left_def word_less_nat_alt has_table_def split: if_splits)
  have "\<not> usage (CONTAINER s1 p) < quota (CONTAINER s1 p)"
    using assms(5) tab usage_inc [OF lt] s1(7)
    by (auto simp: pages_needed_def page_quota_left_def word_less_nat_alt)
  from container_alloc_full [OF ok(2) used this]
  have "alloc_page p va prm s = Inr (MagicNumber, s1)"
    using s1(1) pg(3) assms(2) tab
    by (simp add: alloc_page_def monad_defs map_page_ensure ensure_table_def alloc_ptbl_def user_proc_def)
  with s1 show ?thesis by simp
qed

section \<open>What a user program can reach\<close>

lemma PTU_bit: "bit PT_PERM_PTU 0" "bit PT_PERM_PTU 2"
  by (simp_all add: PT_PERM_PTU_def PTE_P_def PTE_W_def PTE_U_def bit_or_iff bit_numeral_simps)

lemma mask12: "(0xFFF :: u32) = mask 12"
  by (simp add: mask_eq_exp_minus_1)

lemma low_bits_bit: "n < 12 \<Longrightarrow> bit (e AND 0xFFF) n = bit e n" for e :: u32
  unfolding mask12 by (simp add: bit_simps)

lemma user_translate_mapping:
  assumes "vm_inv s" "user_proc p" "user_va va"
  shows "user_translate s p va = (let e = mapping s p (page_of va) in
    if bit e 0 \<and> bit e 2 then Some (page_start (drop_bit 12 e) + (va AND 0xfff)) else None)"
proof -
  let ?d = "vpn_dir (page_of va)"
  have d: "\<not> kern_pde ?d" "?d < 1024"
    using assms(3) user_page_dir user_pde_bound by (auto simp: user_va_page)
  then have "PDirPool s p ?d = 0 \<or> PDirPool s p ?d AND 0xFFF = PT_PERM_PTU"
    using assms(1,2) unfolding vm_inv_def pdes_ok_def by metis
  then have "bit (PDirPool s p ?d) 0 \<and> bit (PDirPool s p ?d) 2 \<longleftrightarrow> PDirPool s p ?d \<noteq> 0"
    using PTU_bit low_bits_bit [of 0 "PDirPool s p ?d"] low_bits_bit [of 2 "PDirPool s p ?d"] by fastforce
  then show ?thesis
    by (auto simp: user_translate_def pde_at_def PDE_ADDR_vpn pte_at_entry mapping_def Let_def entry_split(2))
qed

lemma and_mod_page: "va AND 0xFFF = va mod 4096" for va :: u32
proof -
  have "va AND 0xFFF = take_bit 12 va" unfolding mask12 by (rule take_bit_eq_mask [symmetric])
  then show ?thesis by (simp add: take_bit_eq_mod)
qed

lemma offset_small: "unat (va AND 0xFFF) < 4096" for va :: u32
  by (simp add: and_mod_page unat_mod)

lemma user_translate_page:
  assumes "vm_inv s" "user_proc p" "user_va va" "user_translate s p va = Some a"
  shows "slot_page s (Data p (page_of va)) = Some (page_of a)"
proof -
  let ?e = "mapping s p (page_of va)"
  have "bit ?e 0" "a = page_start (drop_bit 12 ?e) + (va AND 0xfff)"
    using user_translate_mapping [OF assms(1-3)] assms(4) by (auto simp: Let_def split: if_splits)
  then have "page_of a = drop_bit 12 ?e" "?e \<noteq> 0"
    using page_of_in_page [OF entry_split(3) offset_small] by auto
  then show ?thesis using assms(2,3) by (simp add: user_va_page)
qed

text \<open>Addresses outside the user range go through the identity tables, which no user access
  passes.\<close>

lemma kernel_not_reachable:
  assumes "vm_inv s" "user_proc p" "\<not> user_va va"
  shows "user_translate s p va = None"
proof -
  let ?d = "vpn_dir (page_of va)" and ?k = "vpn_idx (page_of va)"
  have id: "identity_ok s" "idptbl_placed s" using assms(1) by (simp_all add: vm_inv_def identity_ok_def)
  have d: "?d < 1024" using PDE_ADDR_bound [of va] by (simp add: PDE_ADDR_vpn)
  have k: "?k < 1024" using vpn_idx_small by (simp add: word_less_nat_alt)
  have kern: "kern_pde ?d"
    using assms(3) unat_page_of [of va]
    by (auto simp: kern_pde_def VM_PDE_values user_va_def VM_USERLO_def VM_USERHI_def word_less_nat_alt
        word_le_nat_alt unat_vpn unat_page_of less_eq_div_iff_mult_less_eq div_less_iff_less_mult)
  then have pde: "PDirPool s p ?d = idptbl_row s ?d OR PT_PERM_PTU"
    using assms(1,2) d unfolding vm_inv_def pdes_ok_def by metis
  have row: "unat (idptbl_row s ?d) mod 4096 = 0"
    using identity_row(1) [OF id(2) d, of 0] id(2) by (auto simp: idptbl_placed_def)
  have "unat (idptbl_row s ?d mod 4096) = 0" using row by (simp add: unat_mod)
  then have "idptbl_row s ?d mod 4096 = 0" by (simp only: word_unat_eq_iff unat_0)
  then have "idptbl_row s ?d AND 0xFFF = 0" by (simp add: and_mod_page)
  then have "idptbl_row s ?d = push_bit 12 (drop_bit 12 (idptbl_row s ?d))"
    using entry_split(1) [of "idptbl_row s ?d"] by (metis or.right_neutral)
  then obtain r where r: "idptbl_row s ?d = push_bit 12 r" "unat r < 2 ^ 20"
    using entry_split(3) by blast
  then have "ADDR_MASK (PDirPool s p ?d) = idptbl_row s ?d"
    using pte_fields(1) [OF r(2) PTU_bits(1)] by (simp add: pde ADDR_MASK_def page_start_def)
  then have "pte_at s p va = (push_bit 22 ?d OR push_bit 12 ?k) OR id_perm ?d"
    using id(1) d k unfolding pte_at_def pte_addr_def identity_ok_def PDE_ADDR_vpn PTE_ADDR_vpn by simp
  moreover have "\<not> bit ((push_bit 22 ?d OR push_bit 12 ?k) OR id_perm ?d) 2"
    by (simp add: bit_simps id_perm_def PTE_P_def PTE_W_def PTE_G_def bit_numeral_simps)
  ultimately show ?thesis by (simp add: user_translate_def)
qed

end
