(* ===== verification/VMInit.thy ===== *)
theory VMInit
  imports VMSpace
begin

text \<open>
  Start of paging, \<open>kern/vmm/MPTOp\<close> to \<open>MPTInit\<close>: the identity tables and the page directories
  that \<open>paging_init\<close> builds satisfy the ownership invariant; and the properties of the virtual
  memory layer as a whole.
\<close>

section \<open>Sequences of word stores\<close>

lemma fold_store32_other:
  assumes "\<forall>i \<in> set is. aligned4 (f i) \<and> f i \<noteq> a" "aligned4 a"
  shows "load32 (fold (\<lambda>i. store32 (f i) (g i)) is m) a = load32 m a"
  using assms(1)
  by (induction "is" arbitrary: m) (simp_all add: load32_store32_other assms(2))

lemma fold_store32_same:
  assumes "\<forall>i \<in> set is. aligned4 (f i)" "inj_on f (set is)" "j \<in> set is"
  shows "load32 (fold (\<lambda>i. store32 (f i) (g i)) is m) (f j) = g j"
  using assms
proof (induction "is" arbitrary: m)
  case (Cons i js)
  show ?case
  proof (cases "j \<in> set js")
    case True
    with Cons show ?thesis by (simp add: inj_on_insert)
  next
    case False
    with Cons.prems have "j = i" "\<forall>k \<in> set js. f k \<noteq> f j" by (auto simp: inj_on_def)
    with Cons.prems show ?thesis by (simp add: fold_store32_other)
  qed
qed simp

section \<open>The identity tables\<close>

definition id_entry :: "u32 \<times> u32 \<Rightarrow> u32" where
  "id_entry dk = (push_bit 22 (fst dk) OR push_bit 12 (snd dk)) OR id_perm (fst dk)"

definition id_addr :: "'a vmm_scheme \<Rightarrow> u32 \<times> u32 \<Rightarrow> u32" where
  "id_addr s dk = idptbl_row s (fst dk) + 4 * snd dk"

abbreviation "id_pairs \<equiv> List.product (word_range 0 1024) (word_range 0 1024) :: (u32 \<times> u32) list"

definition id_tables :: "'a vmm_scheme \<Rightarrow> 'a vmm_scheme" where
  "id_tables s = s\<lparr>mem := fold (\<lambda>dk. store32 (id_addr s dk) (id_entry dk)) id_pairs (mem s)\<rparr>"

lemma id_pairs_set: "(d, k) \<in> set id_pairs \<longleftrightarrow> d < 1024 \<and> k < 1024"
  by (simp add: set_word_range)

lemma id_addr_inj: "idptbl_placed s \<Longrightarrow> inj_on (id_addr s) (set id_pairs)"
proof (rule inj_onI)
  fix x y
  assume placed: "idptbl_placed s" and xy: "x \<in> set id_pairs" "y \<in> set id_pairs" "id_addr s x = id_addr s y"
  obtain d k e l where [simp]: "x = (d, k)" "y = (e, l)" by (cases x, cases y)
  have b: "d < 1024" "k < 1024" "e < 1024" "l < 1024" using xy(1,2) by (simp_all add: set_word_range)
  have "unat d * 4096 + 4 * unat k = unat e * 4096 + 4 * unat l"
    using arg_cong [OF xy(3), of unat] identity_row(1) [OF placed b(1,2)] identity_row(1) [OF placed b(3,4)]
    by (simp add: id_addr_def)
  then have "unat d * 1024 + unat k = unat e * 1024 + unat l" by simp
  moreover have "unat k < 1024" "unat l < 1024" using b by (simp_all add: word_less_nat_alt)
  ultimately have "unat d = unat e \<and> unat k = unat l" by (rule radix_inj)
  then show "x = y" by (simp add: word_unat_eq_iff)
qed

lemma id_tables_ok:
  assumes "idptbl_placed s"
  shows "identity_ok (id_tables s)"
proof -
  have al: "\<forall>dk \<in> set id_pairs. aligned4 (id_addr s dk)"
    using identity_row(2) [OF assms] by (auto simp: id_addr_def set_word_range)
  have "load32 (mem (id_tables s)) (id_addr s (d, k)) = id_entry (d, k)" if "d < 1024" "k < 1024" for d k
    unfolding id_tables_def using fold_store32_same [OF al id_addr_inj [OF assms]] that id_pairs_set by simp
  with assms show ?thesis
    by (simp add: identity_ok_def idptbl_placed_def idptbl_row_def id_tables_def id_addr_def id_entry_def)
qed

lemma idptbl_loop:
  "forK (word_range 0 1024) (\<lambda>pde_index.
      let prm = (if kern_pde pde_index then PTE_P OR PTE_W OR PTE_G else PTE_P OR PTE_W) in
      forK (word_range 0 1024) (\<lambda>pte_index. set_ptbl_entry_identity pde_index pte_index prm)) s =
   Inr ((), id_tables s)"
proof -
  let ?body = "\<lambda>(d, k). set_ptbl_entry_identity d k (id_perm d)"
  let ?upd = "\<lambda>dk t. t\<lparr>mem := store32 (id_addr s dk) (id_entry dk) (mem t)\<rparr>"
  have step: "?body dk t = Inr ((), ?upd dk t) \<and> IDPTbl_addr (?upd dk t) = IDPTbl_addr s"
    if "dk \<in> set id_pairs" "IDPTbl_addr t = IDPTbl_addr s" for dk t
    using that by (auto simp: set_ptbl_entry_identity_def indexK_def modifyK_def set_word_range id_addr_def
        idptbl_row_def id_entry_def Let_def)
  have "forK id_pairs ?body s = Inr ((), fold ?upd id_pairs s)"
    by (rule conjunct1 [OF forK_fold [where P = "\<lambda>t. IDPTbl_addr t = IDPTbl_addr s"]]) (rule step, assumption+, rule refl)
  also have "fold ?upd id_pairs s = id_tables s"
    unfolding id_tables_def by (rule fold_mem_update)
  finally show ?thesis
    by (simp add: Let_def id_perm_def [symmetric] forK_product)
qed

section \<open>The page directories\<close>

definition fresh_pde :: "'a vmm_scheme \<Rightarrow> u32 \<Rightarrow> u32" where
  "fresh_pde s d = (if kern_pde d then idptbl_row s d OR PT_PERM_PTU else 0)"

definition fresh_pdirs :: "'a vmm_scheme \<Rightarrow> 'a vmm_scheme" where
  "fresh_pdirs s = s\<lparr>PDirPool := (\<lambda>p d. if p < NUM_IDS \<and> d < 1024 then fresh_pde s d else PDirPool s p d)\<rparr>"

definition kernel_pdir :: "'a vmm_scheme \<Rightarrow> 'a vmm_scheme" where
  "kernel_pdir s = s\<lparr>PDirPool := (PDirPool s)(0 := (\<lambda>d. if \<not> kern_pde d
     then idptbl_row s d OR PT_PERM_PTU else PDirPool s 0 d))\<rparr>"

lemma fold_write_pdir:
  "fold (\<lambda>pd t. write_pdir (fst pd) (snd pd) (g (snd pd)) t) xs s =
   s\<lparr>PDirPool := (\<lambda>p d. if (p, d) \<in> set xs then g d else PDirPool s p d)\<rparr>"
  by (induction xs arbitrary: s) (auto simp: write_pdir_def fun_eq_iff)

lemma pdir_loop:
  "forK (word_range 0 NUM_IDS) (\<lambda>proc_index. forK (word_range 0 1024) (\<lambda>pde_index.
        if kern_pde pde_index then set_pdir_entry_identity proc_index pde_index
        else rmv_pdir_entry proc_index pde_index)) s = Inr ((), fresh_pdirs s)"
proof -
  let ?xs = "List.product (word_range 0 NUM_IDS) (word_range 0 1024) :: (u32 \<times> u32) list"
  let ?body = "\<lambda>(p, d). if kern_pde d then set_pdir_entry_identity p d else rmv_pdir_entry p d"
  let ?upd = "\<lambda>pd t. write_pdir (fst pd) (snd pd) (fresh_pde s (snd pd)) t"
  have step: "?body pd t = Inr ((), ?upd pd t) \<and> IDPTbl_addr (?upd pd t) = IDPTbl_addr s"
    if "pd \<in> set ?xs" "IDPTbl_addr t = IDPTbl_addr s" for pd t
    using that by (auto simp: set_pdir_entry_identity_def rmv_pdir_entry_def pdir_index_ok modifyK_def
        set_word_range fresh_pde_def idptbl_row_def)
  have "forK ?xs ?body s = Inr ((), fold ?upd ?xs s)"
    by (rule conjunct1 [OF forK_fold [where P = "\<lambda>t. IDPTbl_addr t = IDPTbl_addr s"]]) (rule step, assumption+, rule refl)
  then show ?thesis
    by (simp add: forK_product fold_write_pdir fresh_pdirs_def set_word_range)
qed

lemma kern_loop:
  "forK (word_range VM_USERLO_PDE VM_USERHI_PDE) (set_pdir_entry_identity 0) s = Inr ((), kernel_pdir s)"
proof -
  let ?ds = "word_range VM_USERLO_PDE VM_USERHI_PDE"
  let ?upd = "\<lambda>d t. write_pdir 0 d (idptbl_row s d OR PT_PERM_PTU) t"
  have ds: "d \<in> set ?ds \<longleftrightarrow> \<not> kern_pde d" for d
    by (auto simp: set_word_range kern_pde_def)
  have step: "set_pdir_entry_identity 0 d t = Inr ((), ?upd d t) \<and> IDPTbl_addr (?upd d t) = IDPTbl_addr s"
    if "d \<in> set ?ds" "IDPTbl_addr t = IDPTbl_addr s" for d t
    using that user_pde_bound [of d]
    by (simp add: ds set_pdir_entry_identity_def pdir_index_ok modifyK_def idptbl_row_def NUM_IDS_def)
  have "forK ?ds (set_pdir_entry_identity 0) s = Inr ((), fold ?upd ?ds s)"
    by (rule conjunct1 [OF forK_fold [where P = "\<lambda>t. IDPTbl_addr t = IDPTbl_addr s"]]) (rule step, assumption+, rule refl)
  also have "fold ?upd ds s = s\<lparr>PDirPool := (PDirPool s)(0 := (\<lambda>d. if d \<in> set ds
      then idptbl_row s d OR PT_PERM_PTU else PDirPool s 0 d))\<rparr>" for ds
  proof -
    have "fold (\<lambda>d t. write_pdir 0 d (g d) t) ds u = u\<lparr>PDirPool := (PDirPool u)(0 := (\<lambda>d. if d \<in> set ds
        then g d else PDirPool u 0 d))\<rparr>" for g and u :: "'a vmm_scheme"
      by (induction ds arbitrary: u) (auto simp: write_pdir_def fun_eq_iff)
    then show ?thesis .
  qed
  finally show ?thesis by (simp add: ds kernel_pdir_def)
qed

text \<open>The page structures after initialisation.\<close>

definition fresh_vm :: "'a vmm_scheme \<Rightarrow> 'a vmm_scheme" where
  "fresh_vm s = kernel_pdir (fresh_pdirs (id_tables s))"

lemma fresh_vm_simps [simp]:
  "ctr_inv (fresh_vm s) = ctr_inv s" "IDPTbl_addr (fresh_vm s) = IDPTbl_addr s"
  "free_pages (fresh_vm s) = free_pages s" "norm_pages (fresh_vm s) = norm_pages s"
  "CONTAINER (fresh_vm s) = CONTAINER s" "mem (fresh_vm s) = mem (id_tables s)"
  by (simp_all add: fresh_vm_def kernel_pdir_def fresh_pdirs_def id_tables_def ctr_inv_def mat_inv_def cpu_ok_def
      free_pages_def norm_pages_def norm_free_def)

lemma fresh_vm_pdir: "user_proc p \<Longrightarrow> d < 1024 \<Longrightarrow> PDirPool (fresh_vm s) p d = fresh_pde s d"
  by (simp add: fresh_vm_def kernel_pdir_def fresh_pdirs_def id_tables_def user_proc_def fresh_pde_def
      idptbl_row_def)

lemma fresh_vm_mapping: "user_proc p \<Longrightarrow> user_page v \<Longrightarrow> mapping (fresh_vm s) p v = 0"
  using user_page_dir [of v] user_pde_bound [of "vpn_dir v"]
  by (simp add: mapping_def fresh_vm_pdir fresh_pde_def)

lemma fresh_vm_inv:
  assumes "ctr_inv s" "idptbl_placed s"
  shows "vm_inv (fresh_vm s)"
proof -
  have "slot_page (fresh_vm s) a = None" for a
  proof (cases a)
    case (Table p d)
    have "PDirPool (fresh_vm s) p d = 0" if "user_proc p" "\<not> kern_pde d"
      using that user_pde_bound [OF that(2)] by (simp add: fresh_vm_pdir fresh_pde_def)
    with Table show ?thesis by auto
  qed (auto simp: fresh_vm_mapping)
  then have "slots_ok (fresh_vm s)" by (simp add: slots_ok_def)
  moreover have "pdes_ok (fresh_vm s)"
    by (simp add: pdes_ok_def fresh_vm_pdir fresh_pde_def idptbl_row_def)
  moreover have "identity_ok (fresh_vm s)"
    using id_tables_ok [OF assms(2)]
    by (simp add: identity_ok_def idptbl_placed_def idptbl_row_def id_tables_def)
  ultimately show ?thesis using assms(1) by (simp add: vm_inv_def)
qed

lemma vm_inv_cr [simp]:
  "vm_inv (s\<lparr>cr3 := a\<rparr>) = vm_inv s" "vm_inv (s\<lparr>cr0 := a\<rparr>) = vm_inv s" "vm_inv (s\<lparr>cr4 := a\<rparr>) = vm_inv s"
  "mapping (s\<lparr>cr3 := a\<rparr>) = mapping s" "mapping (s\<lparr>cr0 := a\<rparr>) = mapping s" "mapping (s\<lparr>cr4 := a\<rparr>) = mapping s"
proof -
  have map: "mapping (s\<lparr>cr3 := a\<rparr>) = mapping s" "mapping (s\<lparr>cr0 := a\<rparr>) = mapping s"
      "mapping (s\<lparr>cr4 := a\<rparr>) = mapping s"
    by (intro ext; simp add: mapping_def entry_def entry_addr_def tbl_page_def)+
  then show "mapping (s\<lparr>cr3 := a\<rparr>) = mapping s" "mapping (s\<lparr>cr0 := a\<rparr>) = mapping s"
      "mapping (s\<lparr>cr4 := a\<rparr>) = mapping s" by -
  have slot: "slot_page (s\<lparr>cr3 := a\<rparr>) = slot_page s" "slot_page (s\<lparr>cr0 := a\<rparr>) = slot_page s"
      "slot_page (s\<lparr>cr4 := a\<rparr>) = slot_page s"
    by (rule ext, rule slot_page_eqI; simp add: map)+
  note defs = vm_inv_def ctr_inv_def mat_inv_def cpu_ok_def free_pages_def norm_pages_def norm_free_def pdes_ok_def
    identity_ok_def idptbl_placed_def idptbl_row_def slots_ok_def
  show "vm_inv (s\<lparr>cr3 := a\<rparr>) = vm_inv s" "vm_inv (s\<lparr>cr0 := a\<rparr>) = vm_inv s" "vm_inv (s\<lparr>cr4 := a\<rparr>) = vm_inv s"
    by (simp_all add: defs slot)
qed

lemma paging_init_run:
  assumes "container_init devinit s = Inr ((), s1)"
  shows "paging_init devinit s = Inr ((), (fresh_vm s1)\<lparr>cr3 := PDirPool_addr s1,
    cr4 := cr4 s1 OR CR4_PGE,
    cr0 := (cr0 s1 OR (CR0_PE OR CR0_PG OR CR0_AM OR CR0_WP OR CR0_NE OR CR0_MP)) AND NOT (CR0_EM OR CR0_TS)\<rparr>)"
proof -
  have "idptbl_init devinit s = Inr ((), id_tables s1)"
    by (simp only: idptbl_init_def seqK_def assms sum.case prod.case idptbl_loop)
  then have "pdir_init devinit s = Inr ((), fresh_pdirs (id_tables s1))"
    by (simp only: pdir_init_def seqK_def sum.case prod.case pdir_loop)
  then have "pdir_init_kern devinit s = Inr ((), fresh_vm s1)"
    by (simp only: pdir_init_kern_def seqK_def sum.case prod.case kern_loop fresh_vm_def)
  moreover have "PDirPool_addr (fresh_vm s1) = PDirPool_addr s1" "cr4 (fresh_vm s1) = cr4 s1"
      "cr0 (fresh_vm s1) = cr0 s1"
    by (simp_all add: fresh_vm_def kernel_pdir_def fresh_pdirs_def id_tables_def)
  ultimately show ?thesis
    by (simp add: paging_init_def set_pdir_base_def set_cr3_def enable_paging_def NUM_IDS_def monad_defs)
qed

section \<open>A small machine\<close>

text \<open>The demonstration machine with paging: process 1 has a quota of two pages.\<close>

definition demo_vm :: vmm where
  "demo_vm = fresh_vm (container.extend
     ((demo_ctr 2 0)\<lparr>CONTAINER := split_table (CONTAINER (demo_ctr 2 0)) 0 2\<rparr>)
     (vmm.fields (\<lambda>_. 0) 0x200000 0x700000 (\<lambda>_ _. 0) 0 0 0))"

lemma demo_ctr_can_split: "can_split (CONTAINER (demo_ctr 2 0)) 0 2"
  by (simp add: can_split_def is_used_def child_id_def NUM_IDS_def MAX_CHILDREN_def)

lemma demo_vm_facts:
  "vm_inv demo_vm" "user_proc 1" "is_used (CONTAINER demo_vm) 1" "free_pages demo_vm = {0x40000, 0x40002}"
  "quota (CONTAINER demo_vm 1) = 2" "usage (CONTAINER demo_vm 1) = 0"
proof -
  let ?c = "(demo_ctr 2 0)\<lparr>CONTAINER := split_table (CONTAINER (demo_ctr 2 0)) 0 2\<rparr>"
  let ?s = "container.extend ?c (vmm.fields (\<lambda>_. 0) 0x200000 0x700000 (\<lambda>_ _. 0) 0 0 0)"
  have inv: "ctr_inv ?c" by (rule container_split_run(2) [OF demo_ctr_inv demo_ctr_can_split]) simp_all
  then have "ctr_inv ?s"
    by (simp add: container.defs vmm.defs ctr_inv_def mat_inv_def cpu_ok_def free_pages_def norm_free_def)
  moreover have "idptbl_placed ?s" by (simp add: container.defs vmm.defs idptbl_placed_def VM_USERLO_def)
  ultimately show "vm_inv demo_vm" unfolding demo_vm_def by (rule fresh_vm_inv)
  show "user_proc 1" by (simp add: user_proc_def NUM_IDS_def)
  have one: "CONTAINER demo_vm 1 = \<lparr>quota = 2, usage = 0, parent = 0, nchildren = 0, used = 1\<rparr>"
    by (simp add: demo_vm_def container.defs vmm.defs split_table_def child_id_def MAX_CHILDREN_def)
  then show "is_used (CONTAINER demo_vm) 1" "quota (CONTAINER demo_vm 1) = 2" "usage (CONTAINER demo_vm 1) = 0"
    by (simp_all add: is_used_def NUM_IDS_def)
  have "free_pages ?s = free_pages (demo_ctr 2 0)"
    by (simp add: container.defs vmm.defs free_pages_def norm_free_def)
  then show "free_pages demo_vm = {0x40000, 0x40002}" by (simp add: demo_vm_def)
qed

lemma demo_vm_alloc:
  "user_va 0x40001234" "pages_needed demo_vm 1 0x40001234 \<le> page_quota_left demo_vm 1"
  "PT_PERM_PTU AND 0xFFF = PT_PERM_PTU" "PT_PERM_PTU \<noteq> 0"
  using demo_vm_facts
  by (simp_all add: user_va_def VM_USERLO_def VM_USERHI_def pages_needed_def page_quota_left_def PTU_bits)

section \<open>Properties\<close>


lemma alloc_page_translates:
  assumes "vm_inv s" "user_proc p" "is_used (CONTAINER s) p" "user_va va"
    and "pages_needed s p va \<le> page_quota_left s p"
  shows "\<exists>r pg s'. alloc_page p va PT_PERM_PTU s = Inr (r, s') \<and> r \<noteq> MagicNumber \<and>
    pg \<in> free_pages s \<and> vm_inv s' \<and>
    (\<forall>q vb. user_proc q \<longrightarrow> user_translate s' q vb =
      (if q = p \<and> page_of vb = page_of va then Some (page_start pg + (vb AND 0xfff))
       else user_translate s q vb))"
proof -
  from alloc_page_maps [OF assms(1-4) PTU_bits assms(5)] obtain r pg s' where
    s': "alloc_page p va PT_PERM_PTU s = Inr (r, s')" "r \<noteq> MagicNumber" "pg \<in> free_pages s" "vm_inv s'"
      "\<And>q w. user_proc q \<Longrightarrow> user_page w \<Longrightarrow> mapping s' q w =
        (if q = p \<and> w = page_of va then push_bit 12 pg OR PT_PERM_PTU else mapping s q w)"
    by blast
  have ctr: "ctr_inv s" using assms(1) by (simp add: vm_inv_def)
  note pg = free_page_facts [OF ctr s'(3)]
  note fields = pte_fields [OF pg(2) PTU_bits(1)]
  have "user_translate s' q vb =
      (if q = p \<and> page_of vb = page_of va then Some (page_start pg + (vb AND 0xfff)) else user_translate s q vb)"
    if "user_proc q" for q vb
  proof (cases "user_va vb")
    case True
    then have up: "user_page (page_of vb)" by (simp add: user_va_page)
    show ?thesis
      using user_translate_mapping [OF s'(4) that True] user_translate_mapping [OF assms(1) that True]
        s'(5) [OF that up] fields(2,3) PTU_bit by (auto simp: Let_def)
  next
    case False
    then have "page_of vb \<noteq> page_of va" using assms(4) by (auto simp: user_va_page)
    with False show ?thesis
      using kernel_not_reachable [OF s'(4) that] kernel_not_reachable [OF assms(1) that] by simp
  qed
  with s' show ?thesis by blast
qed

text \<open>C13: \<open>alloc_page\<close> on a user address with enough quota for the page and, if needed, its page
  table succeeds: afterwards every address of that page translates into one fresh free page
  and every other translation, of every process, is as before.\<close>

theorem alloc_page_correct:
  assumes "vm_inv s" "user_proc p" "is_used (CONTAINER s) p" "user_va va"
    and "pages_needed s p va \<le> page_quota_left s p"
  shows "\<exists>r pg s'. alloc_page p va PT_PERM_PTU s = Inr (r, s') \<and> r \<noteq> MagicNumber \<and>
    pg \<in> free_pages s \<and> vm_inv s' \<and>
    (\<forall>q vb. user_proc q \<longrightarrow> user_translate s' q vb =
      (if q = p \<and> page_of vb = page_of va then Some (page_start pg + (vb AND 0xfff))
       else user_translate s q vb))"
  using assms by (rule alloc_page_translates)

theorem alloc_page_correct_witness:
  "\<exists>r pg s'. alloc_page 1 0x40001234 PT_PERM_PTU demo_vm = Inr (r, s') \<and> pg \<in> {0x40000, 0x40002} \<and>
    user_translate s' 1 0x40001678 = Some (page_start pg + 0x678)"
proof -
  have "page_of (0x40001678::u32) = page_of 0x40001234" "(0x40001678::u32) AND 0xfff = 0x678"
    by (simp_all add: page_of_def)
  with alloc_page_correct [OF demo_vm_facts(1-3) demo_vm_alloc(1,2)] demo_vm_facts(2,4) show ?thesis
    by metis
qed

text \<open>The demonstration machine after that page fault.\<close>

lemma demo_vm_mapped:
  "\<exists>(s::vmm) a. vm_inv s \<and> user_translate s 1 0x40001234 = Some a"
proof -
  from alloc_page_maps [OF demo_vm_facts(1-3) demo_vm_alloc(1,3,4,2)] obtain pg and s' :: vmm where
    s': "pg \<in> free_pages demo_vm" "vm_inv s'"
      "\<forall>q w. user_proc q \<and> user_page w \<longrightarrow> mapping s' q w =
        (if q = 1 \<and> w = page_of 0x40001234 then push_bit 12 pg OR PT_PERM_PTU else mapping demo_vm q w)"
    by blast
  have ctr: "ctr_inv demo_vm" using demo_vm_facts(1) by (simp add: vm_inv_def)
  note pg = free_page_facts [OF ctr s'(1)]
  have "mapping s' 1 (page_of 0x40001234) = push_bit 12 pg OR PT_PERM_PTU"
    using s'(3) demo_vm_facts(2) demo_vm_alloc(1) by (simp add: user_va_page)
  then have "user_translate s' 1 0x40001234 = Some (page_start pg + (0x40001234 AND 0xfff))"
    using user_translate_mapping [OF s'(2) demo_vm_facts(2) demo_vm_alloc(1)]
      pte_fields(2,3) [OF pg(2) PTU_bits(1)] PTU_bit by (simp add: Let_def)
  with s'(2) show ?thesis by blast
qed


text \<open>C14: from a fresh machine whose identity tables lie in kernel memory, \<open>paging_init\<close> terminates
  with the ownership invariant established, no user page of any process mapped, the
  kernel's page directory loaded and paging with write protection switched on.\<close>

theorem paging_init_correct:
  assumes "wf_mmap mmap" "pmmap_slots_next_free s = 0" "pmmap_nentries s = 0"
    and "cpu_ok s" "user_page (last_palloc_index s)" "\<forall>pg. perm (AT s pg) = 0"
    and "\<forall>i < NUM_IDS. used (CONTAINER s i) = 0 \<and> nchildren (CONTAINER s i) = 0" "idptbl_placed s"
  shows "\<exists>s'. paging_init (pmmap_init mmap) s = Inr ((), s') \<and> vm_inv s' \<and>
    (\<forall>p v. user_proc p \<and> user_page v \<longrightarrow> mapping s' p v = 0) \<and>
    cr3 s' = PDirPool_addr s' \<and> bit (cr0 s') 31 \<and> bit (cr0 s') 16"
proof -
  from pmem_init_run [OF assms(1-6)] obtain s1 where s1:
      "pmem_init (pmmap_init mmap) s = Inr ((), pmem_ready s1)" "mat_inv (pmem_ready s1)" "map_frame s s1"
    by blast
  have same: "CONTAINER (pmem_ready s1) = CONTAINER s" "IDPTbl_addr (pmem_ready s1) = IDPTbl_addr s"
    by (subst s1(3) [unfolded map_frame_def]; simp add: pmem_ready_def Let_def)+
  with assms(7) container_init_run [OF s1(1,2)] obtain s2 where s2:
      "container_init (pmmap_init mmap) s = Inr ((), s2)" "ctr_inv s2"
      "container.more s2 = container.more (pmem_ready s1)"
    by auto
  have "IDPTbl_addr s2 = IDPTbl_addr s"
    using s2(3) same(2) by (cases s2; cases "pmem_ready s1") simp
  then have "idptbl_placed s2" using assms(8) by (simp add: idptbl_placed_def)
  note inv = fresh_vm_inv [OF s2(2) this]
  have bits: "bit ((c OR (CR0_PE OR CR0_PG OR CR0_AM OR CR0_WP OR CR0_NE OR CR0_MP)) AND NOT (CR0_EM OR CR0_TS)) 31"
      "bit ((c OR (CR0_PE OR CR0_PG OR CR0_AM OR CR0_WP OR CR0_NE OR CR0_MP)) AND NOT (CR0_EM OR CR0_TS)) 16"
      for c :: u32
    by (simp_all add: CR0_PE_def CR0_PG_def CR0_AM_def CR0_WP_def CR0_NE_def CR0_MP_def CR0_EM_def CR0_TS_def
        bit_and_iff bit_or_iff bit_not_iff bit_numeral_simps)
  have addr: "PDirPool_addr (fresh_vm s2) = PDirPool_addr s2"
    by (simp add: fresh_vm_def kernel_pdir_def fresh_pdirs_def id_tables_def)
  show ?thesis
    using paging_init_run [where devinit = "pmmap_init mmap", OF s2(1)] inv bits addr
    by (auto simp: fresh_vm_mapping)
qed

definition vmm_start :: vmm where
  "vmm_start = container.extend ctr_start (vmm.fields (\<lambda>_. 0) 0x200000 0x700000 (\<lambda>_ _. 0) 0 0 0)"

lemma vmm_start_ok: "pmmap_slots_next_free vmm_start = 0" "pmmap_nentries vmm_start = 0"
    "cpu_ok vmm_start" "user_page (last_palloc_index vmm_start)" "\<forall>pg. perm (AT vmm_start pg) = 0"
    "\<forall>i < NUM_IDS. used (CONTAINER vmm_start i) = 0 \<and> nchildren (CONTAINER vmm_start i) = 0"
    "idptbl_placed vmm_start"
  using ctr_start_ok
  by (simp_all add: vmm_start_def container.defs vmm.defs cpu_ok_def idptbl_placed_def VM_USERLO_def)

theorem paging_init_correct_witness:
  "\<exists>s'. paging_init (pmmap_init demo_mmap) vmm_start = Inr ((), s') \<and> vm_inv s' \<and> mapping s' 1 0x40001 = 0"
proof -
  have "user_proc 1" "user_page 0x40001"
    by (simp_all add: user_proc_def NUM_IDS_def user_page_def VM_PI_values)
  with paging_init_correct [OF wf_demo_mmap vmm_start_ok] show ?thesis by blast
qed

text \<open>C15: \<open>unmap_page\<close> returns the page table entry of the address and removes exactly this
  mapping; in particular it undoes the mapping made by \<open>alloc_page\<close>.\<close>

theorem unmap_page_correct:
  assumes "vm_inv s" "user_proc p" "user_va va"
  shows "\<exists>s'. unmap_page p va s = Inr (mapping s p (page_of va), s') \<and> vm_inv s' \<and>
    free_pages s' = free_pages s \<and>
    (\<forall>q w. user_proc q \<and> user_page w \<longrightarrow> mapping s' q w =
      (if q = p \<and> w = page_of va then 0 else mapping s q w))"
proof (cases "mapping s p (page_of va) = 0")
  case True
  then have "unmap_page p va s = Inr (0, s)"
    using assms(2) by (simp add: unmap_page_def monad_defs get_ptbl_entry_by_va_eq user_proc_def)
  with True assms(1) show ?thesis by auto
next
  case False
  have up: "user_page (page_of va)" using assms(3) by (simp add: user_va_page)
  have pd: "PDirPool s p (vpn_dir (page_of va)) \<noteq> 0" using False by (auto simp: mapping_def)
  let ?s' = "s\<lparr>mem := store32 (entry_addr s p (page_of va)) 0 (mem s)\<rparr>"
  have "unmap_page p va s = Inr (mapping s p (page_of va), ?s')"
    using assms(2) False pd
    by (simp add: unmap_page_def monad_defs get_ptbl_entry_by_va_eq rmv_ptbl_entry_by_va_eq user_proc_def)
  with store_entry_frame(1) [OF assms(1,2) up pd] unmap_entry_inv [OF assms(1,2) up pd] show ?thesis
    by (intro exI [of _ ?s']) simp
qed

theorem unmap_page_correct_witness:
  "\<exists>s'. unmap_page 1 0x40001234 demo_vm = Inr (mapping demo_vm 1 (page_of 0x40001234), s') \<and> vm_inv s' \<and>
    free_pages s' = {0x40000, 0x40002}"
  using unmap_page_correct [OF demo_vm_facts(1,2) demo_vm_alloc(1)] demo_vm_facts(4) by blast

text \<open>C16: when the quota is used up between the two allocations of \<open>alloc_page\<close>, the call fails with
  \<open>MagicNumber\<close> but the page it took first stays charged to the process although it is mapped
  nowhere.\<close>

theorem alloc_page_loses_page:
  assumes "vm_inv s" "user_proc p" "is_used (CONTAINER s) p" "user_va va"
    and "\<not> has_table s p va" "page_quota_left s p = 1"
  shows "\<exists>pg s'. alloc_page p va prm s = Inr (MagicNumber, s') \<and> pg \<in> free_pages s \<and>
    free_pages s' = free_pages s - {pg} \<and> page_quota_left s' p = 0 \<and> mapping s' = mapping s"
proof -
  have lt: "usage (CONTAINER s p) < quota (CONTAINER s p)"
    using assms(6) by (simp add: page_quota_left_def word_less_nat_alt)
  from vm_container_alloc [OF assms(1,3) lt] obtain pg s1 where
    s1: "container_alloc p s = Inr (pg, s1)" "pg \<in> free_pages s" "free_pages s1 = free_pages s - {pg}" "vm_inv s1"
      "PDirPool s1 = PDirPool s" "mapping s1 = mapping s"
      "CONTAINER s1 = (CONTAINER s)(p := (CONTAINER s p)\<lparr>usage := usage (CONTAINER s p) + 1\<rparr>)" by metis
  have ok: "ctr_inv s" "ctr_inv s1" using assms(1) s1(4) by (simp_all add: vm_inv_def)
  have used: "is_used (CONTAINER s1) p" using assms(3) s1(7) by (simp add: is_used_def)
  have left: "page_quota_left s1 p = 0"
    using assms(6) usage_inc [OF lt] s1(7) by (simp add: page_quota_left_def)
  then have "\<not> usage (CONTAINER s1 p) < quota (CONTAINER s1 p)"
    by (simp add: page_quota_left_def word_less_nat_alt)
  from container_alloc_full [OF ok(2) used this] have "alloc_page p va prm s = Inr (MagicNumber, s1)"
    using s1(1,5) free_page_facts(3) [OF ok(1) s1(2)] assms(2,5)
    by (simp add: alloc_page_def monad_defs map_page_ensure ensure_table_def alloc_ptbl_def user_proc_def
        has_table_def)
  with s1 left show ?thesis by blast
qed

text \<open>Process 1 after it has given one of its two pages of quota away.\<close>

lemma demo_vm_one_page:
  "\<exists>s::vmm. vm_inv s \<and> is_used (CONTAINER s) 1 \<and> \<not> has_table s 1 0x40001234 \<and> page_quota_left s 1 = 1"
proof -
  have "usage (CONTAINER demo_vm 1) < quota (CONTAINER demo_vm 1)" by (simp add: demo_vm_facts)
  from vm_container_alloc [OF demo_vm_facts(1,3) this] obtain s1 :: vmm where
    s1: "vm_inv s1" "PDirPool s1 = PDirPool demo_vm"
      "CONTAINER s1 = (CONTAINER demo_vm)(1 := (CONTAINER demo_vm 1)\<lparr>usage := usage (CONTAINER demo_vm 1) + 1\<rparr>)"
    by metis
  have "\<not> has_table demo_vm 1 0x40001234"
    using fresh_vm_mapping user_page_dir [of "page_of 0x40001234"] user_pde_bound [of "vpn_dir (page_of 0x40001234)"]
      demo_vm_alloc(1) demo_vm_facts(2)
    by (simp add: has_table_def demo_vm_def fresh_vm_pdir fresh_pde_def user_va_page)
  with s1 demo_vm_facts show ?thesis
    by (intro exI [of _ s1]) (simp add: has_table_def page_quota_left_def is_used_def)
qed

theorem alloc_page_loses_page_witness:
  "\<exists>(s::vmm) pg s'. vm_inv s \<and> alloc_page 1 0x40001234 7 s = Inr (MagicNumber, s') \<and>
    pg \<in> free_pages s \<and> pg \<notin> free_pages s' \<and> mapping s' = mapping s"
proof -
  obtain s :: vmm where s: "vm_inv s" "is_used (CONTAINER s) 1" "\<not> has_table s 1 0x40001234"
      "page_quota_left s 1 = 1" using demo_vm_one_page by blast
  from alloc_page_loses_page [OF s(1) demo_vm_facts(2) s(2) demo_vm_alloc(1) s(3,4), of 7] s(1) show ?thesis
    by blast
qed

end
