(* ===== verification/Threads.thy ===== *)
theory Threads
  imports VMInit
begin

text \<open>
  Kernel threads, \<open>kern/thread\<close>: saved contexts, thread control blocks, thread queues as doubly
  linked lists of thread ids, the current thread of each CPU, and the scheduler with
  \<open>thread_sleep\<close> and \<open>thread_wakeup\<close>.  Pointers to open files and inodes, which the thread control
  block only stores, are indices into the tables of the file system.
\<close>

section \<open>State\<close>

datatype t_state = TSTATE_READY | TSTATE_RUN | TSTATE_SLEEP | TSTATE_DEAD

text \<open>The channels threads sleep on: the kernel object whose address is used.\<close>

datatype chan = NullChan | BufChan nat | InodeChan nat | LogChan

record kctx =
  esp :: u32
  edi :: u32
  esi :: u32
  ebx :: u32
  ebp :: u32
  eip :: u32

definition NOFILE :: nat where "NOFILE = 16"

record TCB =
  state :: t_state
  cpuid :: u32
  prev :: u32
  "next" :: u32
  channel :: chan
  openfiles :: "nat option list"
  cwd :: "nat option"

record TQueue =
  head :: u32
  tail :: u32

record thr = vmm +
  regs :: kctx                      \<comment> \<open>the callee-saved registers of the running CPU\<close>
  kctx_pool :: "u32 \<Rightarrow> kctx"
  proc_kstack_addr :: u32
  thread_kstack :: "u32 \<Rightarrow> kstack"   \<comment> \<open>the stack record each thread runs on\<close>
  TCBPool :: "u32 \<Rightarrow> TCB"
  TQueuePool :: "u32 \<Rightarrow> TQueue"
  CURID :: "u32 \<Rightarrow> u32"
  sched_ticks :: "u32 \<Rightarrow> u32"

definition SCHED_SLICE :: u32 where "SCHED_SLICE = 5"
definition LAPIC_TIMER_INTR_FREQ :: u32 where "LAPIC_TIMER_INTR_FREQ = 1000"

section \<open>Kernel contexts\<close>

definition upd_kctx :: "u32 \<Rightarrow> (kctx \<Rightarrow> kctx) \<Rightarrow> ('a thr_scheme, unit) kern" where
  "upd_kctx pid f = indexK pid NUM_IDS (modifyK (\<lambda>s. s\<lparr>kctx_pool := (kctx_pool s)(pid := f (kctx_pool s pid))\<rparr>))"

definition kctx_set_esp :: "u32 \<Rightarrow> u32 \<Rightarrow> ('a thr_scheme, unit) kern" where
  "kctx_set_esp pid v = upd_kctx pid (\<lambda>k. k\<lparr>esp := v\<rparr>)"

definition kctx_set_eip :: "u32 \<Rightarrow> u32 \<Rightarrow> ('a thr_scheme, unit) kern" where
  "kctx_set_eip pid v = upd_kctx pid (\<lambda>k. k\<lparr>eip := v\<rparr>)"

text \<open>\<open>cswitch\<close> saves the registers of the caller in one context and loads the other.  With the
  stack pointer, the stack record the CPU finds its index in changes too.\<close>

definition cswitch :: "u32 \<Rightarrow> u32 \<Rightarrow> 'a thr_scheme \<Rightarrow> 'a thr_scheme" where
  "cswitch from to s =
     (let pool = (kctx_pool s)(from := regs s); stacks = (thread_kstack s)(from := cur_kstack s) in
      s\<lparr>kctx_pool := pool, regs := pool to, thread_kstack := stacks, cur_kstack := stacks to\<rparr>)"

definition kctx_switch :: "u32 \<Rightarrow> u32 \<Rightarrow> ('a thr_scheme, unit) kern" where
  "kctx_switch from_pid to_pid =
     indexK from_pid NUM_IDS (indexK to_pid NUM_IDS (modifyK (cswitch from_pid to_pid)))"

definition kstack_hi :: "'a thr_scheme \<Rightarrow> u32 \<Rightarrow> u32" where
  "kstack_hi s pid = proc_kstack_addr s + 4096 * (pid + 1)"

definition kctx_new :: "u32 \<Rightarrow> u32 \<Rightarrow> u32 \<Rightarrow> ('a thr_scheme, u32) kern" where
  "kctx_new ent i q = bindK (container_can_consume i q) (\<lambda>b.
     if b \<noteq> 0
     then bindK (alloc_mem_quota i q) (\<lambda>pid.
       seqK (whenK (pid \<noteq> NUM_IDS) (seqK
               (bindK (readK (\<lambda>s. kstack_hi s pid)) (kctx_set_esp pid))
               (kctx_set_eip pid ent)))
         (returnK pid))
     else returnK NUM_IDS)"

section \<open>Thread control blocks\<close>

definition get_tcb :: "u32 \<Rightarrow> (TCB \<Rightarrow> 'b) \<Rightarrow> ('a thr_scheme, 'b) kern" where
  "get_tcb pid f = indexK pid NUM_IDS (readK (\<lambda>s. f (TCBPool s pid)))"

definition upd_tcb :: "u32 \<Rightarrow> (TCB \<Rightarrow> TCB) \<Rightarrow> ('a thr_scheme, unit) kern" where
  "upd_tcb pid f = indexK pid NUM_IDS (modifyK (\<lambda>s. s\<lparr>TCBPool := (TCBPool s)(pid := f (TCBPool s pid))\<rparr>))"

definition tcb_get_state :: "u32 \<Rightarrow> ('a thr_scheme, t_state) kern" where
  "tcb_get_state pid = get_tcb pid state"

definition tcb_set_state :: "u32 \<Rightarrow> t_state \<Rightarrow> ('a thr_scheme, unit) kern" where
  "tcb_set_state pid st = upd_tcb pid (\<lambda>t. t\<lparr>state := st\<rparr>)"

definition tcb_get_cpu :: "u32 \<Rightarrow> ('a thr_scheme, u32) kern" where
  "tcb_get_cpu pid = get_tcb pid cpuid"

definition tcb_set_cpu :: "u32 \<Rightarrow> u32 \<Rightarrow> ('a thr_scheme, unit) kern" where
  "tcb_set_cpu pid cpu = upd_tcb pid (\<lambda>t. t\<lparr>cpuid := cpu\<rparr>)"

definition tcb_get_prev :: "u32 \<Rightarrow> ('a thr_scheme, u32) kern" where
  "tcb_get_prev pid = get_tcb pid prev"

definition tcb_set_prev :: "u32 \<Rightarrow> u32 \<Rightarrow> ('a thr_scheme, unit) kern" where
  "tcb_set_prev pid prev_pid = upd_tcb pid (\<lambda>t. t\<lparr>prev := prev_pid\<rparr>)"

definition tcb_get_next :: "u32 \<Rightarrow> ('a thr_scheme, u32) kern" where
  "tcb_get_next pid = get_tcb pid next"

definition tcb_set_next :: "u32 \<Rightarrow> u32 \<Rightarrow> ('a thr_scheme, unit) kern" where
  "tcb_set_next pid next_pid = upd_tcb pid (\<lambda>t. t\<lparr>next := next_pid\<rparr>)"

text \<open>\<open>sizeof *openfiles\<close> is the size of one pointer, so only the first entry is cleared.  The
  lookup of the root directory is an argument.\<close>

definition tcb_init_at_id :: "('a thr_scheme, nat option) kern \<Rightarrow> u32 \<Rightarrow> ('a thr_scheme, unit) kern" where
  "tcb_init_at_id namei_root pid = seqK
     (upd_tcb pid (\<lambda>t. t\<lparr>state := TSTATE_DEAD, cpuid := NUM_CPUS, prev := NUM_IDS, next := NUM_IDS,
        channel := NullChan, openfiles := (openfiles t)[0 := None]\<rparr>))
     (bindK namei_root (\<lambda>d. upd_tcb pid (\<lambda>t. t\<lparr>cwd := d\<rparr>)))"

definition tcb_get_chan :: "u32 \<Rightarrow> ('a thr_scheme, chan) kern" where
  "tcb_get_chan pid = get_tcb pid channel"

definition tcb_set_chan :: "u32 \<Rightarrow> chan \<Rightarrow> ('a thr_scheme, unit) kern" where
  "tcb_set_chan pid ch = upd_tcb pid (\<lambda>t. t\<lparr>channel := ch\<rparr>)"

definition tcb_get_openfiles :: "u32 \<Rightarrow> ('a thr_scheme, nat option list) kern" where
  "tcb_get_openfiles pid = get_tcb pid openfiles"

definition tcb_set_openfiles :: "u32 \<Rightarrow> nat \<Rightarrow> nat option \<Rightarrow> ('a thr_scheme, unit) kern" where
  "tcb_set_openfiles pid fd f = indexK fd NOFILE (upd_tcb pid (\<lambda>t. t\<lparr>openfiles := (openfiles t)[fd := f]\<rparr>))"

definition tcb_get_cwd :: "u32 \<Rightarrow> ('a thr_scheme, nat option) kern" where
  "tcb_get_cwd pid = get_tcb pid cwd"

definition tcb_set_cwd :: "u32 \<Rightarrow> nat option \<Rightarrow> ('a thr_scheme, unit) kern" where
  "tcb_set_cwd pid d = upd_tcb pid (\<lambda>t. t\<lparr>cwd := d\<rparr>)"

definition tcb_init :: "('a thr_scheme, nat option) kern \<Rightarrow> ('a thr_scheme, unit) kern \<Rightarrow> ('a thr_scheme, unit) kern" where
  "tcb_init namei_root devinit = seqK (paging_init devinit)
     (forK (word_range 0 NUM_IDS) (tcb_init_at_id namei_root))"

section \<open>Thread queues\<close>

definition NUM_QUEUES :: u32 where "NUM_QUEUES = NUM_IDS + NUM_CPUS"

definition get_tqueue :: "u32 \<Rightarrow> (TQueue \<Rightarrow> 'b) \<Rightarrow> ('a thr_scheme, 'b) kern" where
  "get_tqueue chid f = indexK chid NUM_QUEUES (readK (\<lambda>s. f (TQueuePool s chid)))"

definition upd_tqueue :: "u32 \<Rightarrow> (TQueue \<Rightarrow> TQueue) \<Rightarrow> ('a thr_scheme, unit) kern" where
  "upd_tqueue chid f = indexK chid NUM_QUEUES
     (modifyK (\<lambda>s. s\<lparr>TQueuePool := (TQueuePool s)(chid := f (TQueuePool s chid))\<rparr>))"

definition tqueue_get_head :: "u32 \<Rightarrow> ('a thr_scheme, u32) kern" where
  "tqueue_get_head chid = get_tqueue chid head"

definition tqueue_set_head :: "u32 \<Rightarrow> u32 \<Rightarrow> ('a thr_scheme, unit) kern" where
  "tqueue_set_head chid h = upd_tqueue chid (\<lambda>q. q\<lparr>head := h\<rparr>)"

definition tqueue_get_tail :: "u32 \<Rightarrow> ('a thr_scheme, u32) kern" where
  "tqueue_get_tail chid = get_tqueue chid tail"

definition tqueue_set_tail :: "u32 \<Rightarrow> u32 \<Rightarrow> ('a thr_scheme, unit) kern" where
  "tqueue_set_tail chid t = upd_tqueue chid (\<lambda>q. q\<lparr>tail := t\<rparr>)"

definition tqueue_init_at_id :: "u32 \<Rightarrow> ('a thr_scheme, unit) kern" where
  "tqueue_init_at_id chid = upd_tqueue chid (\<lambda>q. q\<lparr>head := NUM_IDS, tail := NUM_IDS\<rparr>)"

definition tqueue_init :: "('a thr_scheme, nat option) kern \<Rightarrow> ('a thr_scheme, unit) kern \<Rightarrow> ('a thr_scheme, unit) kern" where
  "tqueue_init namei_root devinit = seqK (tcb_init namei_root devinit)
     (forK (word_range 0 NUM_QUEUES) tqueue_init_at_id)"

definition tqueue_enqueue :: "u32 \<Rightarrow> u32 \<Rightarrow> ('a thr_scheme, unit) kern" where
  "tqueue_enqueue chid pid = bindK (tqueue_get_tail chid) (\<lambda>t.
     if t = NUM_IDS
     then blockK [tcb_set_prev pid NUM_IDS, tcb_set_next pid NUM_IDS,
       tqueue_set_head chid pid, tqueue_set_tail chid pid]
     else blockK [tcb_set_next t pid, tcb_set_prev pid t, tcb_set_next pid NUM_IDS, tqueue_set_tail chid pid])"

definition tqueue_dequeue :: "u32 \<Rightarrow> ('a thr_scheme, u32) kern" where
  "tqueue_dequeue chid = bindK (tqueue_get_head chid) (\<lambda>h.
     if h \<noteq> NUM_IDS
     then bindK (tcb_get_next h) (\<lambda>n.
       seqK (blockK [
         if n = NUM_IDS
         then seqK (tqueue_set_head chid NUM_IDS) (tqueue_set_tail chid NUM_IDS)
         else seqK (tcb_set_prev n NUM_IDS) (tqueue_set_head chid n),
         tcb_set_prev h NUM_IDS, tcb_set_next h NUM_IDS])
       (returnK h))
     else returnK NUM_IDS)"

definition tqueue_remove :: "u32 \<Rightarrow> u32 \<Rightarrow> ('a thr_scheme, unit) kern" where
  "tqueue_remove chid pid = bindK (tcb_get_prev pid) (\<lambda>p. bindK (tcb_get_next pid) (\<lambda>n. blockK [
     if p = NUM_IDS
     then if n = NUM_IDS
       then seqK (tqueue_set_head chid NUM_IDS) (tqueue_set_tail chid NUM_IDS)
       else seqK (tcb_set_prev n NUM_IDS) (tqueue_set_head chid n)
     else if n = NUM_IDS
       then seqK (tcb_set_next p NUM_IDS) (tqueue_set_tail chid p)
       else seqK (whenK (p \<noteq> n) (tcb_set_next p n)) (tcb_set_prev n p),
     tcb_set_prev pid NUM_IDS, tcb_set_next pid NUM_IDS]))"

section \<open>The current thread\<close>

definition get_curid :: "('a thr_scheme, u32) kern" where
  "get_curid = bindK get_pcpu_idx (\<lambda>c. indexK c NUM_CPUS (readK (\<lambda>s. CURID s c)))"

definition set_curid :: "u32 \<Rightarrow> ('a thr_scheme, unit) kern" where
  "set_curid curid = bindK get_pcpu_idx (\<lambda>c. indexK c NUM_CPUS (modifyK (\<lambda>s. s\<lparr>CURID := (CURID s)(c := curid)\<rparr>)))"

section \<open>The scheduler\<close>

definition thread_init :: "('a thr_scheme, nat option) kern \<Rightarrow> ('a thr_scheme, unit) kern \<Rightarrow> ('a thr_scheme, unit) kern" where
  "thread_init namei_root devinit = blockK [
     forK (word_range 0 NUM_CPUS) (\<lambda>i. modifyK (\<lambda>s. s\<lparr>sched_ticks := (sched_ticks s)(i := 0)\<rparr>)),
     spinlock_init Sched_lk,
     tqueue_init namei_root devinit,
     set_curid 0,
     tcb_set_state 0 TSTATE_RUN]"

definition thread_spawn :: "u32 \<Rightarrow> u32 \<Rightarrow> u32 \<Rightarrow> ('a thr_scheme, u32) kern" where
  "thread_spawn ent i q = critical Sched_lk (bindK (kctx_new ent i q) (\<lambda>pid.
     seqK (whenK (pid \<noteq> NUM_IDS) (seqK (tcb_set_state pid TSTATE_READY) (tqueue_enqueue NUM_IDS pid)))
       (returnK pid)))"

definition thread_yield :: "('a thr_scheme, unit) kern" where
  "thread_yield = seqK (spinlock_acquire Sched_lk) (bindK get_curid (\<lambda>old_cur_pid.
     seqK (tcb_set_state old_cur_pid TSTATE_READY) (
     seqK (tqueue_enqueue NUM_IDS old_cur_pid) (
     bindK (tqueue_dequeue NUM_IDS) (\<lambda>new_cur_pid.
     seqK (tcb_set_state new_cur_pid TSTATE_RUN) (
     seqK (set_curid new_cur_pid) (
     if old_cur_pid \<noteq> new_cur_pid
     then seqK (spinlock_release Sched_lk) (kctx_switch old_cur_pid new_cur_pid)
     else spinlock_release Sched_lk)))))))"

definition sched_update :: "('a thr_scheme, unit) kern" where
  "sched_update = seqK (spinlock_acquire Sched_lk) (bindK get_pcpu_idx (\<lambda>c.
     seqK (modifyK (\<lambda>s. s\<lparr>sched_ticks := (sched_ticks s)(c := sched_ticks s c + 1000 div LAPIC_TIMER_INTR_FREQ)\<rparr>))
       (bindK (readK (\<lambda>s. sched_ticks s c)) (\<lambda>t.
         if t \<ge> SCHED_SLICE
         then seqK (modifyK (\<lambda>s. s\<lparr>sched_ticks := (sched_ticks s)(c := 0)\<rparr>))
                (seqK (spinlock_release Sched_lk) thread_yield)
         else spinlock_release Sched_lk))))"

text \<open>\<open>thread_sleep\<close> up to and including the context switch, and what the thread does when it
  runs again.\<close>

definition thread_sleep :: "chan \<Rightarrow> lock_id option \<Rightarrow> ('a thr_scheme, unit) kern" where
  "thread_sleep ch lk = bindK get_curid (\<lambda>curid.
     case lk of
       None \<Rightarrow> faultK (Panic ''sleep without lock'')
     | Some l \<Rightarrow> seqK (blockK [
         spinlock_acquire Sched_lk, spinlock_release l,
         tcb_set_state curid TSTATE_SLEEP, tcb_set_chan curid ch])
         (bindK (tqueue_dequeue NUM_IDS) (\<lambda>new_pid. blockK [
           tcb_set_state new_pid TSTATE_RUN,
           set_curid new_pid,
           spinlock_release Sched_lk,
           kctx_switch curid new_pid])))"

definition thread_sleep_resume :: "u32 \<Rightarrow> lock_id \<Rightarrow> ('a thr_scheme, unit) kern" where
  "thread_sleep_resume curid l = blockK [
     spinlock_acquire Sched_lk, tcb_set_chan curid NullChan, spinlock_release Sched_lk, spinlock_acquire l]"

definition wake_thread :: "chan \<Rightarrow> u32 \<Rightarrow> ('a thr_scheme, unit) kern" where
  "wake_thread ch pid = bindK (tcb_get_chan pid) (\<lambda>c. bindK (tcb_get_state pid) (\<lambda>st.
     whenK (c = ch \<and> st = TSTATE_SLEEP) (blockK [
       tcb_set_state pid TSTATE_READY, tcb_set_chan pid NullChan, tqueue_enqueue NUM_IDS pid])))"

definition thread_wakeup :: "chan \<Rightarrow> ('a thr_scheme, unit) kern" where
  "thread_wakeup ch = critical Sched_lk (forK (word_range 1 NUM_IDS) (wake_thread ch))"

end
