(* ===== verification/TQueue.thy ===== *)
theory TQueue
  imports Threads
begin

text \<open>
  The thread queues as sequences.  A queue of \<open>kern/thread/PTQueueInit\<close> is a doubly linked list
  through the thread control blocks; \<open>queue_rep s chid xs\<close> says that in state \<open>s\<close> the queue
  \<open>chid\<close> holds the threads \<open>xs\<close> in this order.
\<close>

section \<open>Weakest preconditions of the accessors\<close>

lemma wpK_tcb [wp_simps]:
  "wpK (get_tcb pid g) Q s = (pid < NUM_IDS \<and> Q (g (TCBPool s pid)) s)"
  "wpK (upd_tcb pid f) R s = (pid < NUM_IDS \<and> R () (s\<lparr>TCBPool := (TCBPool s)(pid := f (TCBPool s pid))\<rparr>))"
  by (simp_all add: get_tcb_def upd_tcb_def wp_simps)

lemma wpK_tqueue [wp_simps]:
  "wpK (get_tqueue chid g) Q s = (chid < NUM_QUEUES \<and> Q (g (TQueuePool s chid)) s)"
  "wpK (upd_tqueue chid f) R s =
     (chid < NUM_QUEUES \<and> R () (s\<lparr>TQueuePool := (TQueuePool s)(chid := f (TQueuePool s chid))\<rparr>))"
  by (simp_all add: get_tqueue_def upd_tqueue_def wp_simps)

lemmas tcb_defs = tcb_get_state_def tcb_set_state_def tcb_get_prev_def tcb_set_prev_def tcb_get_next_def
  tcb_set_next_def tcb_get_chan_def tcb_set_chan_def tcb_get_openfiles_def tcb_get_cwd_def tcb_set_cwd_def

lemmas tqueue_defs = tqueue_get_head_def tqueue_set_head_def tqueue_get_tail_def tqueue_set_tail_def

section \<open>Linked segments\<close>

definition first_or :: "u32 list \<Rightarrow> u32 \<Rightarrow> u32" where
  "first_or xs n = (case xs of [] \<Rightarrow> n | x # _ \<Rightarrow> x)"

definition last_or :: "u32 list \<Rightarrow> u32 \<Rightarrow> u32" where
  "last_or xs p = (if xs = [] then p else last xs)"

lemma end_simps [simp]:
  "first_or [] n = n" "first_or (x # xs) n = x" "last_or [] p = p" "last_or (xs @ ys) p = last_or ys (last_or xs p)"
  "last_or [x] p = x" "last_or (x # xs) p = last_or xs x" "first_or (xs @ ys) n = first_or xs (first_or ys n)"
  by (simp_all add: first_or_def last_or_def split: list.splits)

text \<open>The threads \<open>xs\<close> are linked in order, after \<open>p\<close> and before \<open>n\<close>.\<close>

primrec seg :: "(u32 \<Rightarrow> TCB) \<Rightarrow> u32 \<Rightarrow> u32 list \<Rightarrow> u32 \<Rightarrow> bool" where
  "seg T p [] n = True"
| "seg T p (x # xs) n = (prev (T x) = p \<and> next (T x) = first_or xs n \<and> seg T x xs n)"

lemma seg_append [simp]:
  "seg T p (xs @ ys) n \<longleftrightarrow> seg T p xs (first_or ys n) \<and> seg T (last_or xs p) ys n"
  by (induction xs arbitrary: p) auto

lemma seg_cong:
  "(\<And>x. x \<in> set xs \<Longrightarrow> prev (T' x) = prev (T x) \<and> next (T' x) = next (T x)) \<Longrightarrow> seg T' p xs n = seg T p xs n"
  by (induction xs arbitrary: p) auto

definition queue_rep :: "'a thr_scheme \<Rightarrow> u32 \<Rightarrow> u32 list \<Rightarrow> bool" where
  "queue_rep s chid xs \<longleftrightarrow> chid < NUM_QUEUES \<and> distinct xs \<and> (\<forall>x \<in> set xs. x < NUM_IDS) \<and>
     seg (TCBPool s) NUM_IDS xs NUM_IDS \<and>
     head (TQueuePool s chid) = first_or xs NUM_IDS \<and> tail (TQueuePool s chid) = last_or xs NUM_IDS"

text \<open>What a queue operation may change: the links of the threads involved and the ends of its
  queue.\<close>

definition queue_frame :: "u32 \<Rightarrow> u32 set \<Rightarrow> 'a thr_scheme \<Rightarrow> 'a thr_scheme \<Rightarrow> bool" where
  "queue_frame chid X s s' \<longleftrightarrow> (\<exists>T Q. s' = s\<lparr>TCBPool := T, TQueuePool := Q\<rparr> \<and>
     (\<forall>x. \<exists>p n. T x = (TCBPool s x)\<lparr>prev := p, next := n\<rparr>) \<and>
     (\<forall>x. x \<notin> X \<longrightarrow> T x = TCBPool s x) \<and> (\<forall>c. c \<noteq> chid \<longrightarrow> Q c = TQueuePool s c))"

lemma tcb_same_links: "\<exists>p n. t = t\<lparr>prev := p, next := n\<rparr>" for t :: TCB
  by (rule exI [of _ "prev t"], rule exI [of _ "next t"]) simp

lemma tcb_link_updates:
  "\<exists>p n. (t :: TCB)\<lparr>prev := a\<rparr> = t\<lparr>prev := p, next := n\<rparr>" "\<exists>p n. (t :: TCB)\<lparr>next := b\<rparr> = t\<lparr>prev := p, next := n\<rparr>"
  "\<exists>p n. (t :: TCB)\<lparr>prev := a, next := b\<rparr> = t\<lparr>prev := p, next := n\<rparr>"
  "\<exists>p n. (t :: TCB)\<lparr>next := b, prev := a\<rparr> = t\<lparr>prev := p, next := n\<rparr>"
  by (cases t; auto)+

lemma queue_frameI:
  assumes "\<And>x. \<exists>p n. T x = (TCBPool s x)\<lparr>prev := p, next := n\<rparr>"
    and "\<And>x. x \<notin> X \<Longrightarrow> T x = TCBPool s x" "\<And>c. c \<noteq> chid \<Longrightarrow> Q c = TQueuePool s c"
  shows "queue_frame chid X s (s\<lparr>TCBPool := T, TQueuePool := Q\<rparr>)"
  unfolding queue_frame_def using assms by blast

lemma queue_frame_other:
  assumes "queue_frame chid X s s'" "queue_rep s c ys" "c \<noteq> chid" "set ys \<inter> X = {}"
  shows "queue_rep s' c ys"
proof -
  obtain T Q where s': "s' = s\<lparr>TCBPool := T, TQueuePool := Q\<rparr>" "\<And>x. x \<notin> X \<Longrightarrow> T x = TCBPool s x"
      "\<And>c. c \<noteq> chid \<Longrightarrow> Q c = TQueuePool s c"
    using assms(1) unfolding queue_frame_def by blast
  have "T x = TCBPool s x" if "x \<in> set ys" for x using s'(2) assms(4) that by blast
  then have "seg T NUM_IDS ys NUM_IDS = seg (TCBPool s) NUM_IDS ys NUM_IDS" by (intro seg_cong) simp
  with assms(2,3) s'(1,3) show ?thesis by (simp add: queue_rep_def)
qed

lemma queue_frame_tcb:
  assumes "queue_frame chid X s s'"
  shows "state (TCBPool s' x) = state (TCBPool s x)" "channel (TCBPool s' x) = channel (TCBPool s x)"
    "openfiles (TCBPool s' x) = openfiles (TCBPool s x)" "cwd (TCBPool s' x) = cwd (TCBPool s x)"
proof -
  obtain T Q p n where "s' = s\<lparr>TCBPool := T, TQueuePool := Q\<rparr>" "T x = (TCBPool s x)\<lparr>prev := p, next := n\<rparr>"
    using assms unfolding queue_frame_def by blast
  then show "state (TCBPool s' x) = state (TCBPool s x)" "channel (TCBPool s' x) = channel (TCBPool s x)"
    "openfiles (TCBPool s' x) = openfiles (TCBPool s x)" "cwd (TCBPool s' x) = cwd (TCBPool s x)" by simp_all
qed

section \<open>The operations\<close>

lemma enqueue_wp:
  assumes "queue_rep s chid xs" "pid < NUM_IDS" "pid \<notin> set xs"
  shows "wpK (tqueue_enqueue chid pid) (\<lambda>_ s'. queue_rep s' chid (xs @ [pid]) \<and>
    queue_frame chid (insert pid (set xs)) s s') s"
proof (cases xs rule: rev_cases)
  case Nil
  with assms show ?thesis
    by (auto simp: tqueue_enqueue_def tcb_defs tqueue_defs wp_simps queue_rep_def tcb_same_links tcb_link_updates
        intro!: queue_frameI split: if_splits)
next
  case (snoc ys y)
  let ?T = "(TCBPool s)(y := (TCBPool s y)\<lparr>next := pid\<rparr>,
    pid := (TCBPool s pid)\<lparr>prev := y, next := NUM_IDS\<rparr>)"
  have y: "y < NUM_IDS" "y \<notin> set ys" "pid \<noteq> y" "pid \<notin> set ys" "y \<noteq> NUM_IDS"
    using assms snoc by (auto simp: queue_rep_def)
  have "seg ?T p ys y = seg (TCBPool s) p ys y" for p
    using y by (intro seg_cong) auto
  with assms snoc y have "queue_rep (s\<lparr>TCBPool := ?T,
      TQueuePool := (TQueuePool s)(chid := (TQueuePool s chid)\<lparr>tail := pid\<rparr>)\<rparr>) chid (xs @ [pid])"
    by (auto simp: queue_rep_def)
  moreover have "queue_frame chid (insert pid (set xs)) s (s\<lparr>TCBPool := ?T,
      TQueuePool := (TQueuePool s)(chid := (TQueuePool s chid)\<lparr>tail := pid\<rparr>)\<rparr>)"
    using snoc by (intro queue_frameI) (auto simp: tcb_same_links tcb_link_updates)
  ultimately show ?thesis
    using assms snoc y
    by (simp add: tqueue_enqueue_def tcb_defs tqueue_defs wp_simps queue_rep_def)
qed

lemma dequeue_empty: "queue_rep s chid [] \<Longrightarrow> tqueue_dequeue chid s = Inr (NUM_IDS, s)"
  by (simp add: tqueue_dequeue_def tqueue_get_head_def get_tqueue_def monad_defs queue_rep_def)

text \<open>Taking a thread out of the middle: its neighbours are linked to each other.\<close>

definition unlink :: "(u32 \<Rightarrow> TCB) \<Rightarrow> u32 \<Rightarrow> u32 \<Rightarrow> u32 \<Rightarrow> u32 \<Rightarrow> TCB" where
  "unlink T p x n = (\<lambda>y. if y = x then (T x)\<lparr>prev := NUM_IDS, next := NUM_IDS\<rparr>
     else if y = NUM_IDS then T y
     else if y = p then (T p)\<lparr>next := n\<rparr> else if y = n then (T n)\<lparr>prev := p\<rparr> else T y)"

lemma unlink_rep:
  assumes "queue_rep s chid (as @ x # bs)"
    and "T = unlink (TCBPool s) (last_or as NUM_IDS) x (first_or bs NUM_IDS)"
    and "head q = first_or (as @ bs) NUM_IDS" "tail q = last_or (as @ bs) NUM_IDS"
  shows "queue_rep (s\<lparr>TCBPool := T, TQueuePool := (TQueuePool s)(chid := q)\<rparr>) chid (as @ bs)"
    "queue_frame chid (set (as @ x # bs)) s (s\<lparr>TCBPool := T, TQueuePool := (TQueuePool s)(chid := q)\<rparr>)"
proof -
  have rep: "distinct (as @ x # bs)" "\<forall>y \<in> set (as @ x # bs). y \<noteq> NUM_IDS" "chid < NUM_QUEUES"
      "\<forall>y \<in> set (as @ x # bs). y < NUM_IDS"
      "seg (TCBPool s) NUM_IDS (as @ x # bs) NUM_IDS"
    using assms(1) by (auto simp: queue_rep_def)
  have T: "prev (T y) = (if y = x then NUM_IDS else if y = last_or as NUM_IDS then prev (TCBPool s y)
        else if y = first_or bs NUM_IDS then last_or as NUM_IDS else prev (TCBPool s y))"
      "next (T y) = (if y = x then NUM_IDS else if y = last_or as NUM_IDS then first_or bs NUM_IDS
        else next (TCBPool s y))" if "y \<noteq> NUM_IDS" for y
    using that by (simp_all add: assms(2) unlink_def)
  have A: "seg T NUM_IDS as (first_or bs NUM_IDS)"
  proof (cases as rule: rev_cases)
    case (snoc cs c)
    have "seg T q cs c = seg (TCBPool s) q cs c" for q
    proof (rule seg_cong)
      fix y assume "y \<in> set cs"
      then have "y \<noteq> x" "y \<noteq> c" "y \<noteq> first_or bs NUM_IDS" "y \<noteq> NUM_IDS"
        using rep(1,2) snoc by (cases bs; auto)+
      then show "prev (T y) = prev (TCBPool s y) \<and> next (T y) = next (TCBPool s y)" using snoc by (simp add: T)
    qed
    moreover have "c \<noteq> x" "c \<noteq> NUM_IDS" using rep(1,2) snoc by auto
    ultimately show ?thesis using rep(5) snoc by (simp add: T)
  qed simp
  have B: "seg T (last_or as NUM_IDS) bs NUM_IDS"
  proof (cases bs)
    case (Cons b cs)
    have "seg T b cs NUM_IDS = seg (TCBPool s) b cs NUM_IDS"
    proof (rule seg_cong)
      fix y assume "y \<in> set cs"
      then have "y \<noteq> x" "y \<noteq> b" "y \<noteq> last_or as NUM_IDS" "y \<noteq> NUM_IDS"
        using rep(1,2) Cons by (cases as rule: rev_cases; auto)+
      then show "prev (T y) = prev (TCBPool s y) \<and> next (T y) = next (TCBPool s y)" using Cons by (simp add: T)
    qed
    moreover have "b \<noteq> x" "b \<noteq> last_or as NUM_IDS" "b \<noteq> NUM_IDS"
      using rep(1,2) Cons by (cases as rule: rev_cases; auto)+
    ultimately show ?thesis using rep(5) Cons by (simp add: T)
  qed simp
  show "queue_rep (s\<lparr>TCBPool := T, TQueuePool := (TQueuePool s)(chid := q)\<rparr>) chid (as @ bs)"
    using A B rep assms(3,4) by (auto simp: queue_rep_def)
  show "queue_frame chid (set (as @ x # bs)) s (s\<lparr>TCBPool := T, TQueuePool := (TQueuePool s)(chid := q)\<rparr>)"
  proof (rule queue_frameI)
    show "\<exists>p n. T y = (TCBPool s y)\<lparr>prev := p, next := n\<rparr>" for y
      by (auto simp: assms(2) unlink_def tcb_same_links tcb_link_updates)
    show "T y = TCBPool s y" if "y \<notin> set (as @ x # bs)" for y
      using that by (cases as rule: rev_cases; cases bs) (auto simp: assms(2) unlink_def)
  qed simp
qed

lemma thr_update_order:
  "s\<lparr>TQueuePool := Q, TCBPool := T\<rparr> = s\<lparr>TCBPool := T, TQueuePool := Q\<rparr>" for s :: "'a thr_scheme"
  by simp

lemma unlink_writes:
  assumes "x \<noteq> NUM_IDS"
  shows "unlink T NUM_IDS x NUM_IDS = T(x := (T x)\<lparr>prev := NUM_IDS, next := NUM_IDS\<rparr>)"
    "n \<noteq> x \<Longrightarrow> n \<noteq> NUM_IDS \<Longrightarrow> unlink T NUM_IDS x n =
      T(n := (T n)\<lparr>prev := NUM_IDS\<rparr>, x := (T x)\<lparr>prev := NUM_IDS, next := NUM_IDS\<rparr>)"
    "p \<noteq> x \<Longrightarrow> p \<noteq> NUM_IDS \<Longrightarrow> unlink T p x NUM_IDS =
      T(p := (T p)\<lparr>next := NUM_IDS\<rparr>, x := (T x)\<lparr>prev := NUM_IDS, next := NUM_IDS\<rparr>)"
    "p \<noteq> x \<Longrightarrow> p \<noteq> NUM_IDS \<Longrightarrow> n \<noteq> x \<Longrightarrow> n \<noteq> NUM_IDS \<Longrightarrow> p \<noteq> n \<Longrightarrow> unlink T p x n =
      T(p := (T p)\<lparr>next := n\<rparr>, n := (T n)\<lparr>prev := p\<rparr>, x := (T x)\<lparr>prev := NUM_IDS, next := NUM_IDS\<rparr>)"
  using assms by (auto simp: unlink_def)

lemma dequeue_wp:
  assumes "queue_rep s chid (x # ys)"
  shows "wpK (tqueue_dequeue chid) (\<lambda>r s'. r = x \<and> queue_rep s' chid ys \<and>
    queue_frame chid (set (x # ys)) s s') s"
proof -
  note u = unlink_rep [where as = "[]", simplified, OF assms refl]
  have x: "x \<noteq> NUM_IDS" "x < NUM_IDS" "x \<notin> set ys" "chid < NUM_QUEUES" "head (TQueuePool s chid) = x"
      "next (TCBPool s x) = first_or ys NUM_IDS"
    using assms by (auto simp: queue_rep_def)
  show ?thesis
  proof (cases ys)
    case Nil
    with u [of "\<lparr>head = NUM_IDS, tail = NUM_IDS\<rparr>"] x show ?thesis
      by (cases "TQueuePool s chid")
        (simp add: tqueue_dequeue_def tcb_defs tqueue_defs wp_simps unlink_writes(1) thr_update_order)
  next
    case (Cons b cs)
    have b: "b \<noteq> x" "b \<noteq> NUM_IDS" "b < NUM_IDS" using assms Cons by (auto simp: queue_rep_def)
    have "tail (TQueuePool s chid) = last_or ys NUM_IDS" using assms Cons by (simp add: queue_rep_def)
    with u [of "(TQueuePool s chid)\<lparr>head := b\<rparr>"] x b Cons show ?thesis
      by (simp add: tqueue_dequeue_def tcb_defs tqueue_defs wp_simps unlink_writes(2) thr_update_order)
  qed
qed

lemma remove_wp:
  assumes "queue_rep s chid (as @ x # bs)"
  shows "wpK (tqueue_remove chid x) (\<lambda>_ s'. queue_rep s' chid (as @ bs) \<and>
    queue_frame chid (set (as @ x # bs)) s s') s"
proof -
  note u = unlink_rep [OF assms refl]
  have x: "x \<noteq> NUM_IDS" "x < NUM_IDS" "chid < NUM_QUEUES"
      "prev (TCBPool s x) = last_or as NUM_IDS" "next (TCBPool s x) = first_or bs NUM_IDS"
      "head (TQueuePool s chid) = first_or (as @ x # bs) NUM_IDS" "tail (TQueuePool s chid) = last_or (as @ x # bs) NUM_IDS"
    using assms by (auto simp: queue_rep_def)
  show ?thesis
  proof (cases as rule: rev_cases)
    case Nil
    show ?thesis
    proof (cases bs)
      case Nil2: Nil
      with u [of "\<lparr>head = NUM_IDS, tail = NUM_IDS\<rparr>"] x Nil show ?thesis
        by (cases "TQueuePool s chid")
          (simp add: tqueue_remove_def tcb_defs tqueue_defs wp_simps unlink_writes(1) thr_update_order)
    next
      case (Cons b cs)
      have b: "b \<noteq> x" "b \<noteq> NUM_IDS" "b < NUM_IDS" using assms Cons by (auto simp: queue_rep_def)
      with u [of "(TQueuePool s chid)\<lparr>head := b\<rparr>"] x Nil Cons show ?thesis
        by (simp add: tqueue_remove_def tcb_defs tqueue_defs wp_simps unlink_writes(2) thr_update_order)
    qed
  next
    case (snoc cs c)
    have c: "c \<noteq> x" "c \<noteq> NUM_IDS" "c < NUM_IDS" using assms snoc by (auto simp: queue_rep_def)
    show ?thesis
    proof (cases bs)
      case Nil
      with u [of "(TQueuePool s chid)\<lparr>tail := c\<rparr>"] x c snoc show ?thesis
        by (simp add: tqueue_remove_def tcb_defs tqueue_defs wp_simps unlink_writes(3) thr_update_order)
    next
      case (Cons b ds)
      have b: "b \<noteq> x" "b \<noteq> NUM_IDS" "b < NUM_IDS" "c \<noteq> b" using assms snoc Cons by (auto simp: queue_rep_def)
      have "(TQueuePool s)(chid := TQueuePool s chid) = TQueuePool s" by simp
      with u [of "TQueuePool s chid"] x b c snoc Cons show ?thesis
        by (simp add: tqueue_remove_def tcb_defs tqueue_defs wp_simps unlink_writes(4))
    qed
  qed
qed

section \<open>The queue interface\<close>

primrec repeat_deq :: "nat \<Rightarrow> ('s, 'e) kern \<Rightarrow> ('s, 'e list) kern" where
  "repeat_deq 0 m = returnK []"
| "repeat_deq (Suc n) m = bindK m (\<lambda>x. bindK (repeat_deq n m) (\<lambda>xs. returnK (x # xs)))"

lemma wpK_fun: "wpK (bindK m f) Q = (\<lambda>s. wpK m (\<lambda>x. wpK (f x) Q) s)" "wpK (returnK x) Q = Q x"
  by (simp_all add: fun_eq_iff wp_simps)

locale fifo =
  fixes enq :: "'q \<Rightarrow> 'e \<Rightarrow> ('s, unit) kern" and deq :: "'q \<Rightarrow> ('s, 'e) kern" and none :: 'e
    and rep :: "'s \<Rightarrow> 'q \<Rightarrow> 'e list \<Rightarrow> bool" and valid :: "'e \<Rightarrow> bool"
  assumes enq_law: "rep s q xs \<Longrightarrow> valid e \<Longrightarrow> e \<notin> set xs \<Longrightarrow> wpK (enq q e) (\<lambda>_ s'. rep s' q (xs @ [e])) s"
    and deq_empty: "rep s q [] \<Longrightarrow> deq q s = Inr (none, s)"
    and deq_law: "rep s q (x # xs) \<Longrightarrow> wpK (deq q) (\<lambda>r s'. r = x \<and> rep s' q xs) s"
begin

lemma enq_all:
  "rep s q xs \<Longrightarrow> distinct (xs @ es) \<Longrightarrow> \<forall>e \<in> set es. valid e \<Longrightarrow>
    wpK (forK es (enq q)) (\<lambda>_ s'. rep s' q (xs @ es)) s"
proof (induction es arbitrary: s xs)
  case (Cons e es)
  have "wpK (enq q e) (\<lambda>_ s'. rep s' q (xs @ [e])) s" by (rule enq_law) (use Cons.prems in auto)
  then have "wpK (enq q e) (\<lambda>_. wpK (forK es (enq q)) (\<lambda>_ s'. rep s' q (xs @ e # es))) s"
    by (rule wpK_mono) (use Cons.IH [of _ "xs @ [e]"] Cons.prems in auto)
  then show ?case by (simp add: wp_simps)
qed (simp add: wp_simps)

lemma deq_all: "rep s q (xs @ ys) \<Longrightarrow> wpK (repeat_deq (length xs) (deq q)) (\<lambda>r s'. r = xs \<and> rep s' q ys) s"
proof (induction xs arbitrary: s)
  case (Cons x xs)
  then have "wpK (deq q) (\<lambda>r s'. r = x \<and> rep s' q (xs @ ys)) s" by (intro deq_law) simp
  then have "wpK (deq q) (\<lambda>r. wpK (repeat_deq (length xs) (deq q)) (\<lambda>rs s'. r # rs = x # xs \<and> rep s' q ys)) s"
    by (rule wpK_mono) (auto intro: wpK_mono [OF Cons.IH])
  then show ?case by (simp add: wpK_fun)
qed (simp add: wp_simps)

lemma fifo_order:
  assumes "rep s q []" "distinct es" "\<forall>e \<in> set es. valid e"
  shows "wpK (seqK (forK es (enq q)) (repeat_deq (length es) (deq q))) (\<lambda>r s'. r = es \<and> rep s' q []) s"
  unfolding wpK_seqK
  by (rule wpK_mono [OF enq_all [OF assms(1) _ assms(3)]]) (use assms(2) deq_all [of _ q es "[]"] in auto)

end

interpretation tq: fifo tqueue_enqueue tqueue_dequeue NUM_IDS queue_rep "\<lambda>pid. pid < NUM_IDS"
  by unfold_locales (auto intro: wpK_mono [OF enqueue_wp] dequeue_empty wpK_mono [OF dequeue_wp])

end
