(* ===== verification/Sched.thy ===== *)
theory Sched
  imports TQueue
begin

text \<open>
  What the scheduler of \<open>kern/thread/PThread\<close> does to the sequence of threads: the abstract
  scheduler is the running thread and the list of the ready ones, and \<open>thread_yield\<close>,
  \<open>thread_sleep\<close> and \<open>thread_wakeup\<close> are refinements of operations on it.
\<close>

section \<open>The abstract scheduler\<close>

text \<open>\<open>sched_rep s cur q\<close>: on the running CPU the current thread is \<open>cur\<close>, the ready queue holds the
  threads \<open>q\<close>, these are exactly the ready threads and \<open>cur\<close> is the only running one; the stacks of
  the threads that can be switched to name this CPU.\<close>

definition sched_rep :: "'a thr_scheme \<Rightarrow> u32 \<Rightarrow> u32 list \<Rightarrow> bool" where
  "sched_rep s cur q \<longleftrightarrow> cpu_ok s \<and> lock_free Sched_lk s \<and> CURID s (this_cpu s) = cur \<and> cur < NUM_IDS \<and>
     queue_rep s NUM_IDS q \<and>
     (\<forall>p < NUM_IDS. (state (TCBPool s p) = TSTATE_READY \<longleftrightarrow> p \<in> set q) \<and>
        (state (TCBPool s p) = TSTATE_RUN \<longleftrightarrow> p = cur) \<and>
        (state (TCBPool s p) \<noteq> TSTATE_DEAD \<longrightarrow> p \<noteq> cur \<longrightarrow> thread_kstack s p = cur_kstack s))"

lemma queue_rep_cong:
  assumes "TQueuePool s' = TQueuePool s"
    and "\<And>x. prev (TCBPool s' x) = prev (TCBPool s x) \<and> next (TCBPool s' x) = next (TCBPool s x)"
  shows "queue_rep s' chid xs = queue_rep s chid xs"
proof -
  have "seg (TCBPool s') p xs n = seg (TCBPool s) p xs n" for p n by (rule seg_cong) (rule assms(2))
  then show ?thesis using assms(1) by (simp add: queue_rep_def)
qed

lemma queue_frame_base:
  "queue_frame chid X s s' \<Longrightarrow> s' = s\<lparr>TCBPool := TCBPool s', TQueuePool := TQueuePool s'\<rparr>"
  unfolding queue_frame_def by auto

lemma get_curid_ok: "cpu_ok s \<Longrightarrow> get_curid s = Inr (CURID s (this_cpu s), s)"
  by (simp add: get_curid_def bindK_def get_pcpu_idx_ok indexK_def readK_def)

lemma set_curid_ok: "cpu_ok s \<Longrightarrow> set_curid c s = Inr ((), s\<lparr>CURID := (CURID s)(this_cpu s := c)\<rparr>)"
  by (simp add: set_curid_def bindK_def get_pcpu_idx_ok indexK_def modifyK_def)

lemma tcb_set_state_ok: "pid < NUM_IDS \<Longrightarrow> tcb_set_state pid st s =
    Inr ((), s\<lparr>TCBPool := (TCBPool s)(pid := (TCBPool s pid)\<lparr>state := st\<rparr>)\<rparr>)"
  by (simp add: tcb_set_state_def upd_tcb_def indexK_def modifyK_def)

lemma tcb_set_chan_ok: "pid < NUM_IDS \<Longrightarrow> tcb_set_chan pid ch s =
    Inr ((), s\<lparr>TCBPool := (TCBPool s)(pid := (TCBPool s pid)\<lparr>channel := ch\<rparr>)\<rparr>)"
  by (simp add: tcb_set_chan_def upd_tcb_def indexK_def modifyK_def)

text \<open>Running the operations on a queue whose contents are known.\<close>

lemma enqueue_run:
  assumes "queue_rep s chid xs" "pid < NUM_IDS" "pid \<notin> set xs"
  obtains s' where "tqueue_enqueue chid pid s = Inr ((), s')" "queue_rep s' chid (xs @ [pid])"
    "queue_frame chid (insert pid (set xs)) s s'"
  using enqueue_wp [OF assms] by (auto simp: wpK_iff)

lemma dequeue_run:
  assumes "queue_rep s chid (x # xs)"
  obtains s' where "tqueue_dequeue chid s = Inr (x, s')" "queue_rep s' chid xs"
    "queue_frame chid (set (x # xs)) s s'"
  using dequeue_wp [OF assms] by (auto simp: wpK_iff)

lemma frame_fields:
  assumes "queue_frame chid X s s'"
  shows "cpu_ok s' = cpu_ok s" "this_cpu s' = this_cpu s" "CURID s' = CURID s" "locks s' = locks s"
    "lock_free l s' = lock_free l s" "cur_kstack s' = cur_kstack s" "thread_kstack s' = thread_kstack s"
    "regs s' = regs s" "kctx_pool s' = kctx_pool s"
  by (subst queue_frame_base [OF assms], simp add: cpu_ok_def this_cpu_def lock_free_def)+

lemma sched_fields [simp]:
  "cpu_ok (take_lock l s) = cpu_ok s" "this_cpu (take_lock l s) = this_cpu s"
  "cpu_ok (drop_lock l s) = cpu_ok s" "this_cpu (drop_lock l s) = this_cpu s"
  "cpu_ok (s\<lparr>TCBPool := T\<rparr>) = cpu_ok s" "this_cpu (s\<lparr>TCBPool := T\<rparr>) = this_cpu s"
  "cpu_ok (s\<lparr>CURID := C\<rparr>) = cpu_ok s" "this_cpu (s\<lparr>CURID := C\<rparr>) = this_cpu s"
  "lock_free k (s\<lparr>TCBPool := T\<rparr>) = lock_free k s" "lock_free k (s\<lparr>CURID := C\<rparr>) = lock_free k s"
  "CURID (take_lock l s) = CURID s" "TCBPool (take_lock l s) = TCBPool s" "TQueuePool (take_lock l s) = TQueuePool s"
  "cur_kstack (take_lock l s) = cur_kstack s" "thread_kstack (take_lock l s) = thread_kstack s"
  "CURID (drop_lock l s) = CURID s" "TCBPool (drop_lock l s) = TCBPool s" "TQueuePool (drop_lock l s) = TQueuePool s"
  "cur_kstack (drop_lock l s) = cur_kstack s" "thread_kstack (drop_lock l s) = thread_kstack s"
  "regs (take_lock l s) = regs s" "kctx_pool (take_lock l s) = kctx_pool s"
  "regs (drop_lock l s) = regs s" "kctx_pool (drop_lock l s) = kctx_pool s"
  by (simp_all add: cpu_ok_def this_cpu_def lock_free_def take_lock_def drop_lock_def)

lemma switch_fields:
  assumes "to \<noteq> from" "thread_kstack s to = cur_kstack s"
  shows "cpu_ok (cswitch from to s) = cpu_ok s" "this_cpu (cswitch from to s) = this_cpu s"
    "CURID (cswitch from to s) = CURID s" "TCBPool (cswitch from to s) = TCBPool s"
    "TQueuePool (cswitch from to s) = TQueuePool s" "lock_free l (cswitch from to s) = lock_free l s"
    "cur_kstack (cswitch from to s) = cur_kstack s"
    "thread_kstack (cswitch from to s) = (thread_kstack s)(from := cur_kstack s)"
    "regs (cswitch from to s) = kctx_pool s to" "kctx_pool (cswitch from to s) from = regs s"
  using assms by (simp_all add: cswitch_def Let_def cpu_ok_def this_cpu_def lock_free_def)

section \<open>Switching to the thread taken from the queue\<close>

text \<open>The end of \<open>thread_yield\<close> and \<open>thread_sleep\<close>: mark the thread running, record it as current and
  release the scheduler lock; then switch to it.\<close>

definition run_thread :: "u32 \<Rightarrow> 'a thr_scheme \<Rightarrow> 'a thr_scheme" where
  "run_thread y s = drop_lock Sched_lk (s\<lparr>TCBPool := (TCBPool s)(y := (TCBPool s y)\<lparr>state := TSTATE_RUN\<rparr>),
     CURID := (CURID s)(this_cpu s := y)\<rparr>)"

lemma run_thread_fields:
  "CURID (run_thread y s) = (CURID s)(this_cpu s := y)" "this_cpu (run_thread y s) = this_cpu s"
  "cpu_ok (run_thread y s) = cpu_ok s" "lock_free Sched_lk (run_thread y s)"
  "l \<noteq> Sched_lk \<Longrightarrow> lock_free l (run_thread y s) = lock_free l s"
  "cur_kstack (run_thread y s) = cur_kstack s" "thread_kstack (run_thread y s) = thread_kstack s"
  "regs (run_thread y s) = regs s" "kctx_pool (run_thread y s) = kctx_pool s"
  "TCBPool (run_thread y s) p = (if p = y then (TCBPool s y)\<lparr>state := TSTATE_RUN\<rparr> else TCBPool s p)"
  "queue_rep (run_thread y s) chid xs = queue_rep s chid xs"
proof -
  show "queue_rep (run_thread y s) chid xs = queue_rep s chid xs"
    by (rule queue_rep_cong) (auto simp: run_thread_def)
qed (simp_all add: run_thread_def spin.free_dropped)

lemma switch_to_rep:
  assumes "cpu_ok s" "queue_rep s NUM_IDS ys" "y < NUM_IDS" "y \<notin> set ys"
    and st: "\<And>p. p < NUM_IDS \<Longrightarrow> p \<noteq> y \<Longrightarrow> (state (TCBPool s p) = TSTATE_READY \<longleftrightarrow> p \<in> set ys) \<and>
      state (TCBPool s p) \<noteq> TSTATE_RUN"
    and ks: "\<And>p. p < NUM_IDS \<Longrightarrow> p = y \<or> state (TCBPool s p) \<noteq> TSTATE_DEAD \<Longrightarrow> p \<noteq> cur \<Longrightarrow>
      thread_kstack s p = cur_kstack s"
  shows "sched_rep (if y = cur then run_thread y s else cswitch cur y (run_thread y s)) y ys"
proof (cases "y = cur")
  case True
  with assms show ?thesis by (auto simp: sched_rep_def run_thread_fields)
next
  case False
  have "thread_kstack (run_thread y s) y = cur_kstack (run_thread y s)"
    using ks [OF assms(3)] False by (simp add: run_thread_fields)
  note sw = switch_fields [OF False this]
  have "queue_rep (cswitch cur y (run_thread y s)) NUM_IDS ys"
    using assms(2) by (subst queue_rep_cong [of _ "run_thread y s"]) (auto simp: sw run_thread_fields(11))
  with assms False show ?thesis by (auto simp: sched_rep_def sw run_thread_fields)
qed

section \<open>Yielding\<close>

lemma sched_repD:
  assumes "sched_rep s cur q"
  shows "cpu_ok s" "lock_free Sched_lk s" "CURID s (this_cpu s) = cur" "cur < NUM_IDS" "queue_rep s NUM_IDS q"
    "\<And>p. p < NUM_IDS \<Longrightarrow> state (TCBPool s p) = TSTATE_READY \<longleftrightarrow> p \<in> set q"
    "\<And>p. p < NUM_IDS \<Longrightarrow> state (TCBPool s p) = TSTATE_RUN \<longleftrightarrow> p = cur"
    "\<And>p. p < NUM_IDS \<Longrightarrow> state (TCBPool s p) \<noteq> TSTATE_DEAD \<Longrightarrow> p \<noteq> cur \<Longrightarrow> thread_kstack s p = cur_kstack s"
    "cur \<notin> set q"
  using assms by (auto simp: sched_rep_def)

lemma yield_run:
  assumes "sched_rep s cur q" "q @ [cur] = y # ys"
  obtains s' where "thread_yield s = Inr ((), s')" "sched_rep s' y ys"
    "if y = cur then regs s' = regs s else regs s' = kctx_pool s y \<and> kctx_pool s' cur = regs s"
proof -
  note r = sched_repD [OF assms(1)]
  define s1 where "s1 = take_lock Sched_lk s"
  define s2 where "s2 = s1\<lparr>TCBPool := (TCBPool s)(cur := (TCBPool s cur)\<lparr>state := TSTATE_READY\<rparr>)\<rparr>"
  have q2: "queue_rep s2 NUM_IDS q"
    using r(5) by (subst queue_rep_cong [of s2 s]) (auto simp: s2_def s1_def)
  obtain s3 where s3: "tqueue_enqueue NUM_IDS cur s2 = Inr ((), s3)" "queue_rep s3 NUM_IDS (y # ys)"
      "queue_frame NUM_IDS (insert cur (set q)) s2 s3"
    using enqueue_run [OF q2 r(4,9)] assms(2) by metis
  obtain s4 where s4: "tqueue_dequeue NUM_IDS s3 = Inr (y, s4)" "queue_rep s4 NUM_IDS ys"
      "queue_frame NUM_IDS (set (y # ys)) s3 s4"
    by (rule dequeue_run [OF s3(2)])
  note fr = frame_fields [OF s4(3)] frame_fields [OF s3(3)] queue_frame_tcb(1) [OF s4(3)] queue_frame_tcb(1) [OF s3(3)]
  have y: "y < NUM_IDS" "y \<notin> set ys" using s3(2) by (auto simp: queue_rep_def)
  have sety: "insert y (set ys) = insert cur (set q)" using arg_cong [OF assms(2), of set] by auto
  have f4: "cpu_ok s4" "this_cpu s4 = this_cpu s" "cur_kstack s4 = cur_kstack s" "thread_kstack s4 = thread_kstack s"
      "regs s4 = regs s" "kctx_pool s4 = kctx_pool s"
      "\<And>p. state (TCBPool s4 p) = (if p = cur then TSTATE_READY else state (TCBPool s p))"
    using r(1) by (simp_all add: fr s2_def s1_def)
  let ?s' = "if y = cur then run_thread y s4 else cswitch cur y (run_thread y s4)"
  have "spinlock_acquire Sched_lk s = Inr ((), s1)" "get_curid s1 = Inr (cur, s1)"
      "tcb_set_state cur TSTATE_READY s1 = Inr ((), s2)"
    using r by (simp_all add: s1_def s2_def spin.acquire_free get_curid_ok tcb_set_state_ok)
  then have "thread_yield s = Inr ((), ?s')"
    using s3(1) s4(1) y(1) f4(1) r(4)
    by (simp add: thread_yield_def monad_defs tcb_set_state_ok set_curid_ok spin.release_eq run_thread_def kctx_switch_def)
  moreover have "sched_rep ?s' y ys"
  proof (rule switch_to_rep [OF f4(1) s4(2) y])
    fix p assume p: "p < NUM_IDS"
    show "(state (TCBPool s4 p) = TSTATE_READY \<longleftrightarrow> p \<in> set ys) \<and> state (TCBPool s4 p) \<noteq> TSTATE_RUN" if "p \<noteq> y"
      using r(6,7) [OF p] sety that y(2) unfolding f4(7) by (cases "p = cur") auto
    show "thread_kstack s4 p = cur_kstack s4" if "p = y \<or> state (TCBPool s4 p) \<noteq> TSTATE_DEAD" "p \<noteq> cur"
    proof -
      have "state (TCBPool s p) \<noteq> TSTATE_DEAD" using that r(6) [OF p] sety unfolding f4(7) by auto
      with r(8) [OF p _ that(2)] show ?thesis unfolding f4(3,4) .
    qed
  qed
  moreover have "if y = cur then regs ?s' = regs s else regs ?s' = kctx_pool s y \<and> kctx_pool ?s' cur = regs s"
    by (simp add: cswitch_def Let_def run_thread_fields f4)
  ultimately show thesis by (rule that)
qed

primrec yields :: "nat \<Rightarrow> ('a thr_scheme, unit) kern" where
  "yields 0 = returnK ()"
| "yields (Suc n) = seqK thread_yield (yields n)"

lemma yields_run:
  "sched_rep s cur q \<Longrightarrow> \<exists>s' cur' q'. yields n s = Inr ((), s') \<and> sched_rep s' cur' q' \<and> cur' # q' = rotate n (cur # q)"
proof (induction n arbitrary: s cur q)
  case (Suc n)
  obtain y ys where y: "q @ [cur] = y # ys" by (cases "q @ [cur]") auto
  obtain s' where s': "thread_yield s = Inr ((), s')" "sched_rep s' y ys" by (rule yield_run [OF Suc.prems y])
  have "rotate (Suc n) (cur # q) = rotate n (y # ys)" by (simp add: rotate1_rotate_swap y rotate_def funpow_swap1)
  with Suc.IH [OF s'(2)] s'(1) show ?case by (simp add: seqK_def)
qed (auto simp: returnK_def)

section \<open>Sleeping\<close>

lemma sleep_run:
  assumes "sched_rep s cur (x # q)" "lk \<noteq> Sched_lk"
  obtains s' where "thread_sleep ch (Some lk) s = Inr ((), s')" "sched_rep s' x q" "lock_free lk s'"
    "state (TCBPool s' cur) = TSTATE_SLEEP" "channel (TCBPool s' cur) = ch"
    "regs s' = kctx_pool s x" "kctx_pool s' cur = regs s"
proof -
  note r = sched_repD [OF assms(1)]
  define s1 where "s1 = drop_lock lk (take_lock Sched_lk s)"
  define s2 where "s2 = s1\<lparr>TCBPool := (TCBPool s)(cur := (TCBPool s cur)\<lparr>state := TSTATE_SLEEP, channel := ch\<rparr>)\<rparr>"
  have q2: "queue_rep s2 NUM_IDS (x # q)"
    using r(5) by (subst queue_rep_cong [of s2 s]) (auto simp: s2_def s1_def)
  obtain s3 where s3: "tqueue_dequeue NUM_IDS s2 = Inr (x, s3)" "queue_rep s3 NUM_IDS q"
      "queue_frame NUM_IDS (set (x # q)) s2 s3"
    by (rule dequeue_run [OF q2])
  note fr = frame_fields [OF s3(3)] queue_frame_tcb(1,2) [OF s3(3)]
  have x: "x < NUM_IDS" "x \<notin> set q" "x \<noteq> cur" using r(5,9) by (auto simp: queue_rep_def)
  have f3: "cpu_ok s3" "this_cpu s3 = this_cpu s" "cur_kstack s3 = cur_kstack s" "thread_kstack s3 = thread_kstack s"
      "regs s3 = regs s" "kctx_pool s3 = kctx_pool s" "lock_free lk s3"
      "\<And>p. state (TCBPool s3 p) = (if p = cur then TSTATE_SLEEP else state (TCBPool s p))"
      "channel (TCBPool s3 cur) = ch"
    using r(1) by (simp_all add: fr s2_def s1_def spin.free_dropped)
  let ?s' = "cswitch cur x (run_thread x s3)"
  have "get_curid s = Inr (cur, s)" "spinlock_acquire Sched_lk s = Inr ((), take_lock Sched_lk s)"
      "spinlock_release lk (take_lock Sched_lk s) = Inr ((), s1)"
      "tcb_set_state cur TSTATE_SLEEP s1 = Inr ((), s1\<lparr>TCBPool := (TCBPool s)(cur := (TCBPool s cur)\<lparr>state := TSTATE_SLEEP\<rparr>)\<rparr>)"
      "tcb_set_chan cur ch (s1\<lparr>TCBPool := (TCBPool s)(cur := (TCBPool s cur)\<lparr>state := TSTATE_SLEEP\<rparr>)\<rparr>) = Inr ((), s2)"
    using r by (simp_all add: s1_def s2_def spin.acquire_free get_curid_ok tcb_set_state_ok tcb_set_chan_ok spin.release_eq)
  then have run: "thread_sleep ch (Some lk) s = Inr ((), ?s')"
    using s3(1) x f3(1) r(4)
    by (simp add: thread_sleep_def monad_defs tcb_set_state_ok set_curid_ok spin.release_eq run_thread_def kctx_switch_def)
  have "sched_rep (if x = cur then run_thread x s3 else cswitch cur x (run_thread x s3)) x q"
  proof (rule switch_to_rep [OF f3(1) s3(2) x(1,2)])
    fix p assume p: "p < NUM_IDS"
    show "(state (TCBPool s3 p) = TSTATE_READY \<longleftrightarrow> p \<in> set q) \<and> state (TCBPool s3 p) \<noteq> TSTATE_RUN" if "p \<noteq> x"
      using r(6,7) [OF p] that r(9) unfolding f3(8) by (cases "p = cur") auto
    show "thread_kstack s3 p = cur_kstack s3" if "p = x \<or> state (TCBPool s3 p) \<noteq> TSTATE_DEAD" "p \<noteq> cur"
    proof -
      have "state (TCBPool s p) \<noteq> TSTATE_DEAD" using that r(6) [OF p] unfolding f3(8) by auto
      with r(8) [OF p _ that(2)] show ?thesis unfolding f3(3,4) .
    qed
  qed
  moreover have "lock_free lk ?s'"
    using f3(7) assms(2) by (simp add: cswitch_def Let_def lock_free_def run_thread_def drop_lock_def)
  moreover have "TCBPool ?s' cur = TCBPool s3 cur" using x(3) by (simp add: cswitch_def Let_def run_thread_fields)
  moreover have "regs ?s' = kctx_pool s x" "kctx_pool ?s' cur = regs s"
    using x(3) by (simp_all add: cswitch_def Let_def run_thread_fields f3)
  ultimately show thesis using run x(3) f3(8,9) by (intro that [of ?s']) auto
qed

section \<open>Waking\<close>

definition sleeping :: "'a thr_scheme \<Rightarrow> chan \<Rightarrow> u32 \<Rightarrow> bool" where
  "sleeping s ch p \<longleftrightarrow> channel (TCBPool s p) = ch \<and> state (TCBPool s p) = TSTATE_SLEEP"

lemma wake_run:
  assumes "queue_rep s NUM_IDS q" "p < NUM_IDS" "state (TCBPool s p) = TSTATE_SLEEP \<Longrightarrow> p \<notin> set q"
  obtains s' where "wake_thread ch p s = Inr ((), s')"
    "queue_rep s' NUM_IDS (q @ (if sleeping s ch p then [p] else []))"
    "s' = s\<lparr>TCBPool := TCBPool s', TQueuePool := TQueuePool s'\<rparr>"
    "\<And>x. state (TCBPool s' x) = (if x = p \<and> sleeping s ch p then TSTATE_READY else state (TCBPool s x))"
    "\<And>x. x \<noteq> p \<Longrightarrow> channel (TCBPool s' x) = channel (TCBPool s x)"
proof (cases "sleeping s ch p")
  case True
  define s1 where "s1 = s\<lparr>TCBPool := (TCBPool s)(p := (TCBPool s p)\<lparr>state := TSTATE_READY, channel := NullChan\<rparr>)\<rparr>"
  have "queue_rep s1 NUM_IDS q"
    using assms(1) by (subst queue_rep_cong [of s1 s]) (auto simp: s1_def)
  moreover have "p \<notin> set q" using True assms(3) by (simp add: sleeping_def)
  ultimately obtain s2 where s2: "tqueue_enqueue NUM_IDS p s1 = Inr ((), s2)" "queue_rep s2 NUM_IDS (q @ [p])"
      "queue_frame NUM_IDS (insert p (set q)) s1 s2"
    using enqueue_run [OF _ assms(2)] by metis
  have "wake_thread ch p s = Inr ((), s2)"
    using True s2(1) assms(2)
    by (simp add: wake_thread_def tcb_get_chan_def tcb_get_state_def get_tcb_def monad_defs sleeping_def
        tcb_set_state_ok tcb_set_chan_ok s1_def)
  moreover have "s2 = s\<lparr>TCBPool := TCBPool s2, TQueuePool := TQueuePool s2\<rparr>"
    using queue_frame_base [OF s2(3)] by (simp add: s1_def)
  ultimately show thesis
    using True s2(2) queue_frame_tcb(1,2) [OF s2(3)] by (intro that [of s2]) (simp_all add: s1_def)
next
  case False
  have "wake_thread ch p s = Inr ((), s)"
    using False assms(2)
    by (auto simp: wake_thread_def tcb_get_chan_def tcb_get_state_def get_tcb_def monad_defs sleeping_def)
  with False assms(1) show thesis by (intro that [of s]) simp_all
qed

lemma wake_loop:
  "queue_rep s NUM_IDS q \<Longrightarrow> distinct ps \<Longrightarrow> \<forall>p \<in> set ps. p < NUM_IDS \<and> (state (TCBPool s p) = TSTATE_SLEEP \<longrightarrow> p \<notin> set q) \<Longrightarrow>
    \<exists>s'. forK ps (wake_thread ch) s = Inr ((), s') \<and> queue_rep s' NUM_IDS (q @ filter (sleeping s ch) ps) \<and>
      s' = s\<lparr>TCBPool := TCBPool s', TQueuePool := TQueuePool s'\<rparr> \<and>
      (\<forall>x. state (TCBPool s' x) = (if x \<in> set ps \<and> sleeping s ch x then TSTATE_READY else state (TCBPool s x)))"
proof (induction ps arbitrary: s q)
  case (Cons p ps)
  obtain s1 where s1: "wake_thread ch p s = Inr ((), s1)"
      "queue_rep s1 NUM_IDS (q @ (if sleeping s ch p then [p] else []))"
      "s1 = s\<lparr>TCBPool := TCBPool s1, TQueuePool := TQueuePool s1\<rparr>"
      "\<And>x. state (TCBPool s1 x) = (if x = p \<and> sleeping s ch p then TSTATE_READY else state (TCBPool s x))"
      "\<And>x. x \<noteq> p \<Longrightarrow> channel (TCBPool s1 x) = channel (TCBPool s x)"
    by (rule wake_run [OF Cons.prems(1)]) (use Cons.prems(3) in auto)
  have same: "sleeping s1 ch x = sleeping s ch x" if "x \<in> set ps" for x
  proof -
    have "x \<noteq> p" using that Cons.prems(2) by auto
    with s1(4,5) [of x] show ?thesis by (simp add: sleeping_def)
  qed
  have "\<forall>x \<in> set ps. x < NUM_IDS \<and> (state (TCBPool s1 x) = TSTATE_SLEEP \<longrightarrow>
      x \<notin> set (q @ (if sleeping s ch p then [p] else [])))"
    using Cons.prems(2,3) s1(4) by auto
  from Cons.IH [OF s1(2) _ this] Cons.prems(2) obtain s' where
    s': "forK ps (wake_thread ch) s1 = Inr ((), s')"
      "queue_rep s' NUM_IDS ((q @ (if sleeping s ch p then [p] else [])) @ filter (sleeping s1 ch) ps)"
      "s' = s1\<lparr>TCBPool := TCBPool s', TQueuePool := TQueuePool s'\<rparr>"
      "\<And>x. state (TCBPool s' x) = (if x \<in> set ps \<and> sleeping s1 ch x then TSTATE_READY else state (TCBPool s1 x))"
    by auto
  have "filter (sleeping s1 ch) ps = filter (sleeping s ch) ps" using same by (rule filter_cong [OF refl])
  moreover have "s' = s\<lparr>TCBPool := TCBPool s', TQueuePool := TQueuePool s'\<rparr>"
    using s'(3) by (subst (asm) s1(3)) simp
  moreover have "state (TCBPool s' x) =
      (if x \<in> set (p # ps) \<and> sleeping s ch x then TSTATE_READY else state (TCBPool s x))" for x
    using same [of x] s'(4) [of x] s1(4) [of x] by auto
  ultimately show ?case using s1(1) s'(1,2) by (intro exI [of _ s']) (auto simp: seqK_def)
qed (auto simp: returnK_def)

lemma wakeup_run:
  assumes "sched_rep s cur q"
  obtains s' where "thread_wakeup ch s = Inr ((), s')"
    "sched_rep s' cur (q @ filter (sleeping s ch) (word_range 1 NUM_IDS))"
proof -
  note r = sched_repD [OF assms]
  let ?s1 = "take_lock Sched_lk s" and ?ps = "word_range 1 NUM_IDS"
  have ps: "p \<in> set ?ps \<Longrightarrow> p < NUM_IDS" for p by (simp add: set_word_range)
  have q1: "queue_rep ?s1 NUM_IDS q" using r(5) by (subst queue_rep_cong [of _ s]) auto
  have "\<forall>p \<in> set ?ps. p < NUM_IDS \<and> (state (TCBPool ?s1 p) = TSTATE_SLEEP \<longrightarrow> p \<notin> set q)"
    using r(6) ps by fastforce
  from wake_loop [OF q1 distinct_word_range this, of ch] obtain s' where
    s': "forK ?ps (wake_thread ch) ?s1 = Inr ((), s')" "queue_rep s' NUM_IDS (q @ filter (sleeping ?s1 ch) ?ps)"
      "s' = ?s1\<lparr>TCBPool := TCBPool s', TQueuePool := TQueuePool s'\<rparr>"
      "\<And>x. state (TCBPool s' x) = (if x \<in> set ?ps \<and> sleeping ?s1 ch x then TSTATE_READY else state (TCBPool s x))"
    by auto
  have same: "sleeping ?s1 ch = sleeping s ch" by (simp add: sleeping_def fun_eq_iff)
  have f: "cpu_ok s'" "this_cpu s' = this_cpu s" "CURID s' = CURID s" "cur_kstack s' = cur_kstack s"
      "thread_kstack s' = thread_kstack s"
    by (subst s'(3), use r(1) in \<open>simp add: cpu_ok_def this_cpu_def take_lock_def\<close>)+
  have run: "thread_wakeup ch s = Inr ((), drop_lock Sched_lk s')"
    unfolding thread_wakeup_def by (rule critical_spec) (use r(1,2) s'(1) in simp_all)
  have "queue_rep (drop_lock Sched_lk s') NUM_IDS (q @ filter (sleeping s ch) ?ps)"
    using s'(2) same by (subst queue_rep_cong [of _ s']) auto
  moreover have "(state (TCBPool s' p) = TSTATE_READY \<longleftrightarrow> p \<in> set (q @ filter (sleeping s ch) ?ps)) \<and>
      (state (TCBPool s' p) = TSTATE_RUN \<longleftrightarrow> p = cur) \<and>
      (state (TCBPool s' p) \<noteq> TSTATE_DEAD \<longrightarrow> p \<noteq> cur \<longrightarrow> thread_kstack s p = cur_kstack s)" if "p < NUM_IDS" for p
    using r(6-8) [OF that] s'(4) [of p] same by (cases "p \<in> set ?ps \<and> sleeping s ch p") (auto simp: sleeping_def)
  ultimately have "sched_rep (drop_lock Sched_lk s') cur (q @ filter (sleeping s ch) ?ps)"
    unfolding sched_rep_def using r(1-4) f by (simp add: spin.free_dropped)
  with run show thesis by (rule that)
qed

section \<open>A scheduler state\<close>

definition demo_kctx :: "u32 \<Rightarrow> kctx" where
  "demo_kctx p = \<lparr>esp = 4096 * p, edi = 0, esi = 0, ebx = 0, ebp = 0, eip = p\<rparr>"

definition demo_tcb :: "u32 \<Rightarrow> TCB" where
  "demo_tcb p = \<lparr>state = (if p = 1 then TSTATE_RUN else if p = 2 \<or> p = 3 then TSTATE_READY
       else if p = 4 then TSTATE_SLEEP else TSTATE_DEAD),
     cpuid = 0, prev = (if p = 3 then 2 else NUM_IDS), next = (if p = 2 then 3 else NUM_IDS),
     channel = (if p = 4 then LogChan else NullChan), openfiles = replicate NOFILE None, cwd = None\<rparr>"

text \<open>Thread 1 runs, 2 and 3 are ready, 4 sleeps on the log.\<close>

definition demo_thr :: thr where
  "demo_thr = vmm.extend vmm_start (thr.fields (demo_kctx 1) demo_kctx 0
     (\<lambda>_. \<lparr>ks_cpu_idx = 0, ks_magic = KSTACK_MAGIC\<rparr>) demo_tcb
     (\<lambda>c. if c = NUM_IDS then \<lparr>head = 2, tail = 3\<rparr> else \<lparr>head = NUM_IDS, tail = NUM_IDS\<rparr>) (\<lambda>_. 1) (\<lambda>_. 0))"

lemma demo_thr_base: "cur_kstack demo_thr = \<lparr>ks_cpu_idx = 0, ks_magic = KSTACK_MAGIC\<rparr>"
    "cpu_ok demo_thr" "lock_free l demo_thr" "TCBPool demo_thr = demo_tcb" "regs demo_thr = demo_kctx 1"
    "kctx_pool demo_thr = demo_kctx" "thread_kstack demo_thr p = \<lparr>ks_cpu_idx = 0, ks_magic = KSTACK_MAGIC\<rparr>"
  by (simp_all add: demo_thr_def vmm.defs thr.defs vmm_start_def container.defs vmm.defs ctr_start_def mat.defs
      mat_start_def base_start_def mboot.defs mboot_start_def base.defs cpu_ok_def lock_free_def NUM_CPUS_def)

lemma demo_thr_rep: "sched_rep demo_thr 1 [2, 3]"
  using demo_thr_base
  by (auto simp: sched_rep_def queue_rep_def demo_tcb_def NUM_QUEUES_def NUM_IDS_def NUM_CPUS_def
      demo_thr_def vmm.defs thr.defs)

section \<open>Properties\<close>

lemma frame_others:
  "queue_frame chid X s s' \<Longrightarrow> \<forall>c ys. c \<noteq> chid \<and> queue_rep s c ys \<and> set ys \<inter> X = {} \<longrightarrow> queue_rep s' c ys"
  by (blast intro: queue_frame_other)

text \<open>C24: the thread queues are first-in first-out queues.  On the list the linked structure stands
  for, \<open>tqueue_enqueue\<close> appends, \<open>tqueue_dequeue\<close> removes the first element and returns it, or returns
  \<open>NUM_IDS\<close> for the empty list, and \<open>tqueue_remove\<close> deletes an element anywhere; queues with other
  threads are not affected.\<close>

theorem tqueue_refines_list:
  assumes "queue_rep s chid xs"
  shows "(\<forall>pid < NUM_IDS. pid \<notin> set xs \<longrightarrow> wpK (tqueue_enqueue chid pid) (\<lambda>_ s'. queue_rep s' chid (xs @ [pid]) \<and>
      (\<forall>c ys. c \<noteq> chid \<and> queue_rep s c ys \<and> set ys \<inter> insert pid (set xs) = {} \<longrightarrow> queue_rep s' c ys)) s) \<and>
    wpK (tqueue_dequeue chid) (\<lambda>r s'. r = first_or xs NUM_IDS \<and> queue_rep s' chid (tl xs) \<and>
      (\<forall>c ys. c \<noteq> chid \<and> queue_rep s c ys \<and> set ys \<inter> set xs = {} \<longrightarrow> queue_rep s' c ys)) s \<and>
    (\<forall>pid \<in> set xs. wpK (tqueue_remove chid pid) (\<lambda>_ s'. queue_rep s' chid (remove1 pid xs) \<and>
      (\<forall>c ys. c \<noteq> chid \<and> queue_rep s c ys \<and> set ys \<inter> set xs = {} \<longrightarrow> queue_rep s' c ys)) s)"
proof (intro conjI allI ballI impI)
  show "wpK (tqueue_enqueue chid pid) (\<lambda>_ s'. queue_rep s' chid (xs @ [pid]) \<and>
      (\<forall>c ys. c \<noteq> chid \<and> queue_rep s c ys \<and> set ys \<inter> insert pid (set xs) = {} \<longrightarrow> queue_rep s' c ys)) s"
    if "pid < NUM_IDS" "pid \<notin> set xs" for pid
    by (rule wpK_mono [OF enqueue_wp [OF assms that]]) (elim conjE, intro conjI, assumption, rule frame_others)
  show "wpK (tqueue_dequeue chid) (\<lambda>r s'. r = first_or xs NUM_IDS \<and> queue_rep s' chid (tl xs) \<and>
      (\<forall>c ys. c \<noteq> chid \<and> queue_rep s c ys \<and> set ys \<inter> set xs = {} \<longrightarrow> queue_rep s' c ys)) s"
  proof (cases xs)
    case Nil
    with dequeue_empty [of s chid] assms show ?thesis by (simp add: wpK_Inr)
  next
    case (Cons x ys)
    have "wpK (tqueue_dequeue chid) (\<lambda>r s'. r = x \<and> queue_rep s' chid ys \<and> queue_frame chid (set (x # ys)) s s') s"
      using assms Cons by (intro dequeue_wp) simp
    then show ?thesis by (rule wpK_mono) (unfold Cons first_or_def list.case list.sel, elim conjE, intro conjI, assumption+, rule frame_others)
  qed
  show "wpK (tqueue_remove chid pid) (\<lambda>_ s'. queue_rep s' chid (remove1 pid xs) \<and>
      (\<forall>c ys. c \<noteq> chid \<and> queue_rep s c ys \<and> set ys \<inter> set xs = {} \<longrightarrow> queue_rep s' c ys)) s" if pid: "pid \<in> set xs" for pid
  proof -
    obtain as bs where split: "xs = as @ pid # bs" "pid \<notin> set as" using split_list_first [OF pid] by blast
    have "wpK (tqueue_remove chid pid) (\<lambda>_ s'. queue_rep s' chid (as @ bs) \<and> queue_frame chid (set (as @ pid # bs)) s s') s"
      using assms split(1) by (intro remove_wp) simp
    moreover have "remove1 pid xs = as @ bs" using split by (simp add: remove1_append)
    ultimately show ?thesis
      unfolding split(1) by (auto simp del: set_append list.set elim!: wpK_mono intro!: frame_others)
  qed
qed

theorem tqueue_refines_list_witness:
  "wpK (tqueue_remove NUM_IDS 2) (\<lambda>_ s'. queue_rep s' NUM_IDS [3]) demo_thr"
proof -
  have "queue_rep demo_thr NUM_IDS [2, 3]" by (rule sched_repD(5) [OF demo_thr_rep])
  from tqueue_refines_list [OF this]
  have "wpK (tqueue_remove NUM_IDS 2) (\<lambda>_ s'. queue_rep s' NUM_IDS (remove1 2 [2, 3]) \<and>
      (\<forall>c ys. c \<noteq> NUM_IDS \<and> queue_rep demo_thr c ys \<and> set ys \<inter> set [2, 3] = {} \<longrightarrow> queue_rep s' c ys)) demo_thr"
    by simp
  then show ?thesis by (rule wpK_mono) simp
qed

text \<open>C25: \<open>thread_yield\<close> implements the round-robin step: the running thread goes to the end of the
  ready list and the first one runs, in its own saved context, while the context of the old thread is
  saved; a thread that is alone goes on unchanged.\<close>

theorem thread_yield_refines:
  assumes "sched_rep s cur q"
  shows "\<exists>s'. thread_yield s = Inr ((), s') \<and> sched_rep s' (hd (q @ [cur])) (tl (q @ [cur])) \<and>
    (if q = [] then regs s' = regs s else regs s' = kctx_pool s (hd q) \<and> kctx_pool s' cur = regs s)"
proof -
  obtain y ys where y: "q @ [cur] = y # ys" by (cases "q @ [cur]") auto
  obtain s' where s': "thread_yield s = Inr ((), s')" "sched_rep s' y ys"
    "if y = cur then regs s' = regs s else regs s' = kctx_pool s y \<and> kctx_pool s' cur = regs s"
    by (rule yield_run [OF assms y])
  have "y = cur \<longleftrightarrow> q = []" "q \<noteq> [] \<Longrightarrow> hd q = y"
    using y sched_repD(9) [OF assms] by (cases q; auto)+
  with s' y show ?thesis by (intro exI [of _ s']) auto
qed

theorem thread_yield_refines_witness:
  "\<exists>s'. thread_yield demo_thr = Inr ((), s') \<and> sched_rep s' 2 [3, 1] \<and> eip (regs s') = 2"
  using thread_yield_refines [OF demo_thr_rep] by (auto simp: demo_thr_base demo_kctx_def)

text \<open>C26: no ready thread starves: the thread at position \<open>i\<close> of the ready queue runs after exactly
  \<open>i + 1\<close> yields, and after as many yields as there are threads the order is the old one.\<close>

theorem round_robin:
  assumes "sched_rep s cur q"
  shows "(\<forall>i < length q. \<exists>s' q'. yields (Suc i) s = Inr ((), s') \<and> sched_rep s' (q ! i) q') \<and>
    (\<exists>s'. yields (Suc (length q)) s = Inr ((), s') \<and> sched_rep s' cur q)"
proof (intro conjI allI impI)
  show "\<exists>s' q'. yields (Suc i) s = Inr ((), s') \<and> sched_rep s' (q ! i) q'" if "i < length q" for i
  proof -
    from yields_run [OF assms, of "Suc i"] obtain s' c r where
      "yields (Suc i) s = Inr ((), s')" "sched_rep s' c r" "c # r = rotate (Suc i) (cur # q)" by blast
    moreover have "rotate (Suc i) (cur # q) = drop (Suc i) (cur # q) @ take (Suc i) (cur # q)"
      using that by (simp add: rotate_drop_take)
    ultimately have "c = q ! i" using that by (simp add: Cons_nth_drop_Suc [symmetric, of i q])
    with \<open>sched_rep s' c r\<close> \<open>yields (Suc i) s = Inr ((), s')\<close> show ?thesis by blast
  qed
  from yields_run [OF assms, of "length (cur # q)"] obtain s' c r where
    "yields (length (cur # q)) s = Inr ((), s')" "sched_rep s' c r" "c # r = rotate (length (cur # q)) (cur # q)" by blast
  moreover have "rotate (length (cur # q)) (cur # q) = cur # q" by (rule rotate_id) simp
  ultimately show "\<exists>s'. yields (Suc (length q)) s = Inr ((), s') \<and> sched_rep s' cur q" by auto
qed

theorem round_robin_witness:
  "\<exists>s' q'. yields 2 demo_thr = Inr ((), s') \<and> sched_rep s' 3 q'"
proof -
  have "(1::nat) < length [2, 3 :: u32]" by simp
  with round_robin [OF demo_thr_rep] have "\<exists>s' q'. yields (Suc 1) demo_thr = Inr ((), s') \<and> sched_rep s' ([2, 3] ! 1) q'"
    by blast
  then show ?thesis by (simp add: numeral_2_eq_2)
qed

text \<open>C27: no wakeup is lost.  A thread that sleeps on a channel gives up its lock and the CPU to the
  first ready thread; a \<open>thread_wakeup\<close> on the channel then puts it into the ready queue.\<close>

theorem sleep_wakeup:
  assumes "sched_rep s cur (x # q)" "lk \<noteq> Sched_lk" "1 \<le> cur"
  shows "\<exists>s1 s2 ws. thread_sleep ch (Some lk) s = Inr ((), s1) \<and> sched_rep s1 x q \<and> lock_free lk s1 \<and>
    state (TCBPool s1 cur) = TSTATE_SLEEP \<and>
    thread_wakeup ch s1 = Inr ((), s2) \<and> sched_rep s2 x (q @ ws) \<and> cur \<in> set ws"
proof -
  obtain s1 where s1: "thread_sleep ch (Some lk) s = Inr ((), s1)" "sched_rep s1 x q" "lock_free lk s1"
      "state (TCBPool s1 cur) = TSTATE_SLEEP" "channel (TCBPool s1 cur) = ch"
    by (rule sleep_run [OF assms(1,2)])
  obtain s2 where s2: "thread_wakeup ch s1 = Inr ((), s2)"
      "sched_rep s2 x (q @ filter (sleeping s1 ch) (word_range 1 NUM_IDS))"
    by (rule wakeup_run [OF s1(2)])
  have "cur \<in> set (filter (sleeping s1 ch) (word_range 1 NUM_IDS))"
    using s1(4,5) assms(3) sched_repD(4) [OF assms(1)] by (simp add: sleeping_def set_word_range)
  with s1 s2 show ?thesis by blast
qed

theorem sleep_wakeup_witness:
  "\<exists>s1 s2 ws. thread_sleep LogChan (Some Log_lk) demo_thr = Inr ((), s1) \<and>
    thread_wakeup LogChan s1 = Inr ((), s2) \<and> sched_rep s2 2 ([3] @ ws) \<and> 1 \<in> set ws"
  using sleep_wakeup [OF demo_thr_rep, of Log_lk LogChan] by auto

text \<open>C28: the scheduler relies on a ready thread: when the last running thread sleeps with an empty
  ready queue, \<open>thread_sleep\<close> indexes the thread table with \<open>NUM_IDS\<close>; and it panics without a lock.\<close>

theorem thread_sleep_needs_ready_thread:
  assumes "sched_rep s cur []" "lk \<noteq> Sched_lk"
  shows "thread_sleep ch (Some lk) s = Inl OutOfBounds \<and> thread_sleep ch None s = Inl (Panic ''sleep without lock'')"
proof -
  note r = sched_repD [OF assms(1)]
  let ?s1 = "drop_lock lk (take_lock Sched_lk s)"
  let ?s2 = "?s1\<lparr>TCBPool := (TCBPool s)(cur := (TCBPool s cur)\<lparr>state := TSTATE_SLEEP, channel := ch\<rparr>)\<rparr>"
  have "queue_rep ?s2 NUM_IDS []" using r(5) by (subst queue_rep_cong [of _ s]) auto
  from dequeue_empty [OF this] r show ?thesis
    by (simp add: thread_sleep_def monad_defs get_curid_ok spin.acquire_free spin.release_eq tcb_set_state_ok
        tcb_set_chan_ok) (simp add: tcb_set_state_def upd_tcb_def monad_defs)
qed

theorem thread_sleep_needs_ready_thread_witness:
  "\<exists>s :: thr. sched_rep s 1 [] \<and> thread_sleep LogChan (Some Log_lk) s = Inl OutOfBounds"
proof -
  let ?s = "demo_thr\<lparr>TCBPool := (\<lambda>p. (demo_tcb p)\<lparr>state := if p = 1 then TSTATE_RUN else TSTATE_DEAD\<rparr>),
    TQueuePool := (\<lambda>_. \<lparr>head = NUM_IDS, tail = NUM_IDS\<rparr>)\<rparr>"
  have "sched_rep ?s 1 []"
    using demo_thr_base
    by (auto simp: sched_rep_def queue_rep_def NUM_QUEUES_def NUM_IDS_def NUM_CPUS_def cpu_ok_def this_cpu_def
        lock_free_def demo_thr_def vmm.defs thr.defs)
  with thread_sleep_needs_ready_thread [OF this, of Log_lk LogChan] show ?thesis by blast
qed

end
