(* ===== verification/CString.thy ===== *)
theory CString
  imports Mboot
begin

text \<open>
  The functions on byte strings of \<open>kern/lib/string.c\<close>, \<open>user/lib/string.c\<close> and
  \<open>user/lib/atoi.c\<close>, and the arithmetic of \<open>kern/lib/types.c\<close>.  A pointer argument is the list
  of the bytes from the pointer to the end of the object it points into; reading or writing past
  that end gives \<open>None\<close>.  A pointer result is the offset from the argument, \<open>None\<close> standing for
  the null pointer inside the outer option.
\<close>

type_synonym bytes = "u8 list"

section \<open>Arithmetic\<close>

definition max_u32 :: "u32 \<Rightarrow> u32 \<Rightarrow> u32" where
  "max_u32 a b = (if a > b then a else b)"

definition min_u32 :: "u32 \<Rightarrow> u32 \<Rightarrow> u32" where
  "min_u32 a b = (if a < b then a else b)"

definition roundup :: "u32 \<Rightarrow> u32 \<Rightarrow> u32" where
  "roundup a n = rounddown (a + n - 1) n"

section \<open>Comparison and search\<close>

fun strncmp :: "bytes \<Rightarrow> bytes \<Rightarrow> nat \<Rightarrow> int option" where
  "strncmp p q 0 = Some 0"
| "strncmp (a # p) (b # q) (Suc n) =
     (if a \<noteq> 0 \<and> a = b then strncmp p q n else Some (uint a - uint b))"
| "strncmp p q (Suc n) = None"

fun strnlen :: "bytes \<Rightarrow> nat \<Rightarrow> nat option" where
  "strnlen s 0 = Some 0"
| "strnlen (a # s) (Suc sz) = (if a \<noteq> 0 then map_option Suc (strnlen s sz) else Some 0)"
| "strnlen [] (Suc sz) = None"

fun strcmp :: "bytes \<Rightarrow> bytes \<Rightarrow> int option" where
  "strcmp (a # p) (b # q) = (if a \<noteq> 0 \<and> a = b then strcmp p q else Some (uint a - uint b))"
| "strcmp p q = None"

fun strchr :: "bytes \<Rightarrow> u8 \<Rightarrow> nat option option" where
  "strchr (a # s) c =
     (if a = 0 then Some None else if a = c then Some (Some 0)
      else map_option (map_option Suc) (strchr s c))"
| "strchr [] c = None"

fun memcmp :: "bytes \<Rightarrow> bytes \<Rightarrow> nat \<Rightarrow> int option" where
  "memcmp s1 s2 0 = Some 0"
| "memcmp (a # s1) (b # s2) (Suc n) = (if a \<noteq> b then Some (uint a - uint b) else memcmp s1 s2 n)"
| "memcmp s1 s2 (Suc n) = None"

fun strlen :: "bytes \<Rightarrow> nat option" where
  "strlen (a # s) = (if a \<noteq> 0 then map_option Suc (strlen s) else Some 0)"
| "strlen [] = None"

fun strfind :: "bytes \<Rightarrow> u8 \<Rightarrow> nat option" where
  "strfind (a # s) c = (if a = 0 \<or> a = c then Some 0 else map_option Suc (strfind s c))"
| "strfind [] c = None"

fun memchr :: "bytes \<Rightarrow> u8 \<Rightarrow> nat \<Rightarrow> nat option option" where
  "memchr s c 0 = Some None"
| "memchr (a # s) c (Suc n) = (if a = c then Some (Some 0) else map_option (map_option Suc) (memchr s c n))"
| "memchr [] c (Suc n) = None"

section \<open>Copies\<close>

text \<open>The first argument is the destination buffer; the result is its new contents.\<close>

fun zero_fill :: "bytes \<Rightarrow> nat \<Rightarrow> bytes option" where
  "zero_fill s 0 = Some s"
| "zero_fill (x # s) (Suc n) = map_option ((#) 0) (zero_fill s n)"
| "zero_fill [] (Suc n) = None"

fun strncpy_loop :: "bytes \<Rightarrow> bytes \<Rightarrow> nat \<Rightarrow> bytes option" where
  "strncpy_loop s t 0 = Some s"
| "strncpy_loop (x # s) (a # t) (Suc n) =
     map_option ((#) a) (if a \<noteq> 0 then strncpy_loop s t n else zero_fill s n)"
| "strncpy_loop s t (Suc n) = None"

definition strncpy :: "bytes \<Rightarrow> bytes \<Rightarrow> int \<Rightarrow> bytes option" where
  "strncpy s t n = strncpy_loop s t (nat n)"

text \<open>The version of the user library pads by keeping the source pointer on the terminator.\<close>

fun user_strncpy :: "bytes \<Rightarrow> bytes \<Rightarrow> nat \<Rightarrow> bytes option" where
  "user_strncpy dst src 0 = Some dst"
| "user_strncpy (x # dst) (a # src) (Suc sz) =
     map_option ((#) a) (user_strncpy dst (if a \<noteq> 0 then src else a # src) sz)"
| "user_strncpy dst src (Suc sz) = None"

fun strcpy :: "bytes \<Rightarrow> bytes \<Rightarrow> bytes option" where
  "strcpy (x # dst) (a # src) = (if a \<noteq> 0 then map_option ((#) a) (strcpy dst src) else Some (a # dst))"
| "strcpy dst src = None"

text \<open>\<open>strlcpy\<close> returns the number of bytes before the terminator, with the buffer.\<close>

fun strlcpy_loop :: "bytes \<Rightarrow> bytes \<Rightarrow> nat \<Rightarrow> (nat \<times> bytes) option" where
  "strlcpy_loop (x # dst) src 0 = Some (0, 0 # dst)"
| "strlcpy_loop (x # dst) (a # src) (Suc sz) =
     (if a \<noteq> 0 then map_option (map_prod Suc ((#) a)) (strlcpy_loop dst src sz) else Some (0, 0 # dst))"
| "strlcpy_loop dst src sz = None"

definition strlcpy :: "bytes \<Rightarrow> bytes \<Rightarrow> nat \<Rightarrow> (nat \<times> bytes) option" where
  "strlcpy dst src sz = (if sz > 0 then strlcpy_loop dst src (sz - 1) else Some (0, dst))"

section \<open>Numbers\<close>

text \<open>\<open>long\<close> and \<open>int\<close> have 32 bits; as the comment in \<open>strtol\<close> says, overflow is not detected.\<close>

definition digit_value :: "u8 \<Rightarrow> nat option" where
  "digit_value c =
     (if 0x30 \<le> c \<and> c \<le> 0x39 then Some (unat (c - 0x30))
      else if 0x61 \<le> c \<and> c \<le> 0x7A then Some (unat (c - 0x61) + 10)
      else if 0x41 \<le> c \<and> c \<le> 0x5A then Some (unat (c - 0x41) + 10)
      else None)"

fun strtol_digits :: "bytes \<Rightarrow> nat \<Rightarrow> u32 \<Rightarrow> (u32 \<times> bytes) option" where
  "strtol_digits (c # s) base val =
     (case digit_value c of
        None \<Rightarrow> Some (val, c # s)
      | Some dig \<Rightarrow>
          if dig \<ge> base then Some (val, c # s)
          else strtol_digits s base (val * word_of_nat base + word_of_nat dig))"
| "strtol_digits [] base val = None"

fun strtol_blanks :: "bytes \<Rightarrow> bytes option" where
  "strtol_blanks (c # s) = (if c = 0x20 \<or> c = 0x09 then strtol_blanks s else Some (c # s))"
| "strtol_blanks [] = None"

fun strtol_sign :: "bytes \<Rightarrow> (bool \<times> bytes) option" where
  "strtol_sign (c # s) = Some (if c = 0x2B then (False, s) else if c = 0x2D then (True, s) else (False, c # s))"
| "strtol_sign [] = None"

definition strtol_base :: "bytes \<Rightarrow> nat \<Rightarrow> (nat \<times> bytes) option" where
  "strtol_base s base =
     (if base = 0 \<or> base = 16
      then case s of
          [] \<Rightarrow> None
        | c # t \<Rightarrow>
            if c = 0x30
            then case t of
                [] \<Rightarrow> None
              | d # u \<Rightarrow> Some (if d = 0x78 then (16, u) else if base = 0 then (8, t) else (base, s))
            else Some (if base = 0 then 10 else base, s)
      else Some (base, s))"

text \<open>The result is the value and the bytes from \<open>*endptr\<close> on.\<close>

definition strtol :: "bytes \<Rightarrow> nat \<Rightarrow> (u32 \<times> bytes) option" where
  "strtol s base =
     Option.bind (strtol_blanks s) (\<lambda>s. Option.bind (strtol_sign s) (\<lambda>(neg, s).
       Option.bind (strtol_base s base) (\<lambda>(base, s). map_option (map_prod (\<lambda>val. if neg then - val else val) id)
         (strtol_digits s base 0))))"

fun atoi_digits :: "bytes \<Rightarrow> u32 \<Rightarrow> nat \<Rightarrow> (u32 \<times> nat) option" where
  "atoi_digits (c # s) acc loc =
     (if 0x30 \<le> c \<and> c \<le> 0x39 then atoi_digits s (acc * 10 + ucast (c - 0x30)) (Suc loc) else Some (acc, loc))"
| "atoi_digits [] acc loc = None"

text \<open>\<open>atoi\<close> returns the number of bytes it used and, unless this is zero, the number.\<close>

definition atoi :: "bytes \<Rightarrow> (nat \<times> u32 option) option" where
  "atoi buf =
     (case buf of
        [] \<Rightarrow> None
      | c # s \<Rightarrow>
          let negative = (c = 0x2D);
              numstart = (if c = 0x2B \<or> c = 0x2D then 1 else 0) in
          map_option (\<lambda>(acc, loc).
              if loc = numstart then (0, None) else (loc, Some (if negative then - acc else acc)))
            (atoi_digits (drop numstart buf) 0 numstart))"

section \<open>Strings as sequences\<close>

definition cstr :: "bytes \<Rightarrow> bytes" where
  "cstr s = takeWhile (\<lambda>c. c \<noteq> 0) s"

text \<open>A string is readable up to a limit when it is terminated or reaches the limit.\<close>

definition readable :: "nat \<Rightarrow> bytes \<Rightarrow> bool" where
  "readable n s \<longleftrightarrow> 0 \<in> set s \<or> n \<le> length s"

lemma cstr_simps [simp]: "cstr [] = []" "cstr (0 # s) = []" "a \<noteq> 0 \<Longrightarrow> cstr (a # s) = a # cstr s"
  by (simp_all add: cstr_def)

lemma readable_Cons [simp]: "readable (Suc n) (a # s) \<longleftrightarrow> a = 0 \<or> readable n s" "\<not> readable (Suc n) []"
  by (auto simp: readable_def)

lemma strlen_cstr: "0 \<in> set s \<Longrightarrow> strlen s = Some (length (cstr s))"
  by (induction s rule: strlen.induct) auto

lemma strnlen_cstr: "readable n s \<Longrightarrow> strnlen s n = Some (length (take n (cstr s)))"
  by (induction s n rule: strnlen.induct) auto

text \<open>The order of \<open>strcmp\<close>: lexicographic on the unsigned bytes.\<close>

fun lex_less :: "bytes \<Rightarrow> bytes \<Rightarrow> bool" where
  "lex_less p [] = False"
| "lex_less [] (b # q) = True"
| "lex_less (a # p) (b # q) = (a < b \<or> a = b \<and> lex_less p q)"

lemma byte_compare:
  fixes a b :: u8
  shows "uint a - uint b = 0 \<longleftrightarrow> a = b" "uint a - uint b < 0 \<longleftrightarrow> a < b"
  by (simp_all add: word_uint_eq_iff word_less_def)

lemma strcmp_lex:
  "0 \<in> set p \<Longrightarrow> 0 \<in> set q \<Longrightarrow>
    \<exists>r. strcmp p q = Some r \<and> (r = 0 \<longleftrightarrow> cstr p = cstr q) \<and> (r < 0 \<longleftrightarrow> lex_less (cstr p) (cstr q))"
proof (induction p q rule: strcmp.induct)
  case (1 a p b q)
  then show ?case
    using byte_compare [of a b] by (cases "a = 0"; cases "b = 0"; cases "a = b") (auto simp: word_greater_zero_iff)
qed auto

lemma strncmp_cstr:
  "readable n p \<Longrightarrow> readable n q \<Longrightarrow>
    \<exists>r. strncmp p q n = Some r \<and> (r = 0 \<longleftrightarrow> take n (cstr p) = take n (cstr q))"
proof (induction p q n rule: strncmp.induct)
  case (2 a p b q n)
  then show ?case
    using byte_compare [of a b] by (cases "a = 0"; cases "b = 0"; cases "a = b") auto
qed auto

lemma zero_fill_eq: "n \<le> length s \<Longrightarrow> zero_fill s n = Some (replicate n 0 @ drop n s)"
  by (induction s n rule: zero_fill.induct) auto

lemma strncpy_loop_eq:
  "n \<le> length s \<Longrightarrow> readable n t \<Longrightarrow>
    strncpy_loop s t n = Some (take n (cstr t) @ replicate (n - length (cstr t)) 0 @ drop n s)"
  by (induction s t n rule: strncpy_loop.induct) (auto simp: zero_fill_eq)

lemma user_strncpy_pad: "user_strncpy s (0 # t) n = zero_fill s n"
  by (induction s n rule: zero_fill.induct) auto

lemma user_strncpy_eq: "user_strncpy s t n = strncpy_loop s t n"
  by (induction s t n rule: strncpy_loop.induct) (auto simp: user_strncpy_pad)

lemma strlcpy_loop_eq:
  "n < length d \<Longrightarrow> readable n t \<Longrightarrow>
    strlcpy_loop d t n = Some (length (take n (cstr t)),
      take n (cstr t) @ 0 # drop (Suc (length (take n (cstr t)))) d)"
  by (induction d t n rule: strlcpy_loop.induct) auto

lemma strchr_eq: "0 \<in> set s \<Longrightarrow> c \<noteq> 0 \<Longrightarrow>
    strchr s c = Some (if c \<in> set (cstr s) then Some (length (takeWhile (\<lambda>x. x \<noteq> c) (cstr s))) else None)"
  by (induction s c rule: strchr.induct) auto

lemma memcmp_eq: "n \<le> length s \<Longrightarrow> n \<le> length t \<Longrightarrow>
    \<exists>r. memcmp s t n = Some r \<and> (r = 0 \<longleftrightarrow> take n s = take n t)"
  by (induction s t n rule: memcmp.induct) (auto simp: word_uint_eq_iff)

section \<open>Numbers in a base\<close>

definition digit_byte :: "nat \<Rightarrow> u8" where
  "digit_byte d = (if d < 10 then 0x30 + word_of_nat d else 0x61 + word_of_nat (d - 10))"

lemma digit_value_byte:
  assumes "d < 36"
  shows "digit_value (digit_byte d) = Some d"
proof -
  have "\<forall>d \<in> set [0..<36]. digit_value (digit_byte d) = Some d" by code_simp
  with assms show ?thesis by simp
qed

text \<open>The value of a sequence of digits, most significant first.\<close>

definition digits_value :: "nat \<Rightarrow> nat list \<Rightarrow> nat" where
  "digits_value base ds = foldl (\<lambda>v d. v * base + d) 0 ds"

lemma strtol_digits_eq:
  assumes "base \<le> 36" "digit_value c = None \<or> (\<exists>d. digit_value c = Some d \<and> base \<le> d)"
  shows "\<forall>d \<in> set ds. d < base \<Longrightarrow> strtol_digits (map digit_byte ds @ c # rest) base (word_of_nat v) =
    Some (word_of_nat (foldl (\<lambda>v d. v * base + d) v ds), c # rest)"
proof (induction ds arbitrary: v)
  case Nil
  with assms(2) show ?case by auto
next
  case (Cons d ds)
  have "digit_value (digit_byte d) = Some d" using Cons.prems assms(1) by (intro digit_value_byte) auto
  with Cons.IH [of "v * base + d"] Cons.prems show ?case by simp
qed

lemma atoi_digits_eq:
  assumes "\<not> (0x30 \<le> c \<and> c \<le> 0x39)"
  shows "\<forall>d \<in> set ds. d < 10 \<Longrightarrow> atoi_digits (map digit_byte ds @ c # rest) (word_of_nat v) k =
    Some (word_of_nat (foldl (\<lambda>v d. v * 10 + d) v ds), k + length ds)"
proof (induction ds arbitrary: v k)
  case Nil
  with assms show ?case by auto
next
  case (Cons d ds)
  have all: "\<forall>d \<in> set [0..<10]. (0x30 :: u8) \<le> digit_byte d \<and> digit_byte d \<le> 0x39 \<and>
      (ucast (digit_byte d - 0x30) :: u32) = word_of_nat d"
    by code_simp
  have "d \<in> set [0..<10]" using Cons.prems by simp
  with all have "0x30 \<le> digit_byte d" "digit_byte d \<le> 0x39" "(ucast (digit_byte d - 0x30) :: u32) = word_of_nat d"
    by blast+
  with Cons.IH [of "v * 10 + d" "Suc k"] Cons.prems show ?case by simp
qed

section \<open>Properties\<close>

text \<open>C19: \<open>strcmp\<close> on terminated strings terminates inside both of them, returns zero exactly for equal
  strings and a negative number exactly when the first comes before the second in the lexicographic
  order of unsigned bytes.\<close>

theorem strcmp_correct:
  assumes "0 \<in> set p" "0 \<in> set q"
  shows "\<exists>r. strcmp p q = Some r \<and> (r = 0 \<longleftrightarrow> cstr p = cstr q) \<and> (r < 0 \<longleftrightarrow> lex_less (cstr p) (cstr q))"
  by (rule strcmp_lex [OF assms])

theorem strcmp_correct_witness:
  "\<exists>r. strcmp [0x61, 0x62, 0] [0x61, 0xE9, 0, 7] = Some r \<and> r < 0"
proof -
  have "lex_less (cstr [0x61, 0x62, 0]) (cstr [0x61, 0xE9, 0, 7])" by simp
  with strcmp_correct [of "[0x61, 0x62, 0]" "[0x61, 0xE9, 0, 7]"] show ?thesis by auto
qed

text \<open>C20: the kernel's \<open>strncpy\<close>, with two loops, and the user library's, with one, compute the same
  function; on a buffer of at least \<open>n\<close> bytes the result is the first \<open>n\<close> bytes of the string,
  padded with zeros, and the rest of the buffer is kept.\<close>

theorem strncpy_correct:
  "strncpy s t (int n) = user_strncpy s t n \<and>
   (n \<le> length s \<and> readable n t \<longrightarrow>
     strncpy s t (int n) = Some (take n (cstr t) @ replicate (n - length (cstr t)) 0 @ drop n s))"
  by (simp add: strncpy_def user_strncpy_eq strncpy_loop_eq)

theorem strncpy_correct_witness:
  "user_strncpy [1, 2, 3, 4, 5] [0x61, 0] 4 = Some [0x61, 0, 0, 0, 5]"
  using strncpy_correct [of "[1, 2, 3, 4, 5]" "[0x61, 0]" 4]
  by (simp add: readable_def eval_nat_numeral)

end
