(* ===== verification/Disk.thy ===== *)
theory Disk
  imports Sched CString
begin

text \<open>
  The disk driver \<open>kern/dev/disk/ide.c\<close> and the buffer cache \<open>kern/fs/bufcache.c\<close>.  A pointer to a
  buffer is its index in \<open>bcache.buf\<close>.  The circular list through \<open>prev\<close> and \<open>next\<close> with its head is
  the list of its buffers from the most to the least recently used one, and the queue through
  \<open>qnext\<close> is the list of its buffers.  The disk itself is a table of sectors; a sector may be
  unreadable.
\<close>

section \<open>State of the file system\<close>

definition NBUF :: nat where "NBUF = 10"
definition NINODE :: nat where "NINODE = 50"
definition NFILE :: nat where "NFILE = 100"
definition NDEV :: int where "NDEV = 10"
definition ROOTDEV :: u32 where "ROOTDEV = 1"
definition ROOTINO :: u32 where "ROOTINO = 1"
definition LOGSIZE :: nat where "LOGSIZE = 10"
definition BSIZE :: u32 where "BSIZE = 512"

definition B_BUSY :: u32 where "B_BUSY = 1"
definition B_VALID :: u32 where "B_VALID = 2"
definition B_DIRTY :: u32 where "B_DIRTY = 4"

record buf =
  flags :: u32
  dev :: u32
  sector :: u32
  data :: bytes

record log =
  log_start :: u32
  log_size :: u32
  log_busy :: bool
  log_dev :: u32
  lh_n :: u32
  lh_sector :: "u32 list"

record inode =
  i_dev :: u32
  i_inum :: u32
  i_ref :: int
  i_flags :: u32
  i_type :: u16
  i_major :: u16
  i_minor :: u16
  i_nlink :: u16
  i_size :: u32
  i_addrs :: "u32 list"

datatype file_type = FD_NONE | FD_PIPE | FD_INODE

record file_obj =
  f_type :: file_type
  f_ref :: int
  f_readable :: bool
  f_writable :: bool
  f_ip :: "nat option"
  f_off :: u32

record fs = thr +
  disk :: "u32 \<Rightarrow> u32 \<Rightarrow> bytes"         \<comment> \<open>by drive and sector\<close>
  disk_error :: "u32 \<Rightarrow> u32 \<Rightarrow> bool"    \<comment> \<open>the drive reports an error for the sector\<close>
  havedisk1 :: bool
  idequeue :: "nat list"
  bufs :: "buf list"
  bcache_list :: "nat list"
  log :: log
  inode_cache :: "inode list"
  ftable :: "file_obj list"

text \<open>Following a pointer to an element of a static array.\<close>

definition get_at :: "('s \<Rightarrow> 'e list) \<Rightarrow> nat \<Rightarrow> ('s, 'e) kern" where
  "get_at f i s = (if i < length (f s) then Inr (f s ! i, s) else Inl OutOfBounds)"

definition get_buf :: "nat \<Rightarrow> ('a fs_scheme, buf) kern" where
  "get_buf b = get_at bufs b"

definition upd_buf :: "nat \<Rightarrow> (buf \<Rightarrow> buf) \<Rightarrow> ('a fs_scheme, unit) kern" where
  "upd_buf b f s = (if b < length (bufs s) then Inr ((), s\<lparr>bufs := (bufs s)[b := f (bufs s ! b)]\<rparr>) else Inl OutOfBounds)"

section \<open>The IDE driver\<close>

text \<open>The polling loop of \<open>ide_wait\<close> ends when the drive is ready; with \<open>checkerr\<close> it reports an error
  of the current sector.\<close>

definition ide_wait :: "bool \<Rightarrow> u32 \<Rightarrow> u32 \<Rightarrow> ('a fs_scheme, int) kern" where
  "ide_wait checkerr drive sec = readK (\<lambda>s. if checkerr \<and> disk_error s drive sec then - 1 else 0)"

text \<open>Drive and sector address as they are put into the ports of the controller.\<close>

definition ide_drive :: "buf \<Rightarrow> u32" where
  "ide_drive b = dev b AND 1"

definition ide_sector :: "buf \<Rightarrow> u32" where
  "ide_sector b = (sector b AND 0xff) OR (sector b AND 0xff00) OR (sector b AND 0xff0000) OR (sector b AND 0x0f000000)"

text \<open>Whether the second disk answers is an argument; the accesses to ports and interrupt controllers that go
  with the probe are left out.\<close>

definition ide_init :: "bool \<Rightarrow> ('a fs_scheme, unit) kern" where
  "ide_init present = blockK [spinlock_init Ide_lk, spinlock_init Fs_lk,
     whenK present (modifyK (\<lambda>s. s\<lparr>havedisk1 := True\<rparr>))]"

definition ide_start :: "nat \<Rightarrow> ('a fs_scheme, unit) kern" where
  "ide_start b = bindK (get_buf b) (\<lambda>bp.
     whenK (flags bp AND B_DIRTY \<noteq> 0) (modifyK (\<lambda>s. s\<lparr>disk := (disk s)(ide_drive bp :=
       (disk s (ide_drive bp))(ide_sector bp := data bp))\<rparr>)))"

definition ide_intr :: "('a fs_scheme, unit) kern" where
  "ide_intr = seqK (spinlock_acquire Ide_lk) (bindK (readK idequeue) (\<lambda>q. case q of
     [] \<Rightarrow> spinlock_release Ide_lk
   | b # rest \<Rightarrow> seqK (modifyK (\<lambda>s. s\<lparr>idequeue := rest\<rparr>)) (bindK (get_buf b) (\<lambda>bp.
       bindK (ide_wait True (ide_drive bp) (ide_sector bp)) (\<lambda>r. blockK [
         whenK (flags bp AND B_DIRTY = 0 \<and> r \<ge> 0)
           (bindK (readK (\<lambda>s. disk s (ide_drive bp) (ide_sector bp))) (\<lambda>d. upd_buf b (\<lambda>bp. bp\<lparr>data := d\<rparr>))),
         upd_buf b (\<lambda>bp. bp\<lparr>flags := (flags bp OR B_VALID) AND NOT B_DIRTY\<rparr>),
         thread_wakeup (BufChan b),
         case rest of [] \<Rightarrow> returnK () | n # _ \<Rightarrow> ide_start n,
         spinlock_release Ide_lk])))))"

text \<open>While a thread waits in \<open>ide_rw\<close> the disk finishes the requests in the queue one after the
  other, each with an interrupt; the lock is free during the wait.\<close>

primrec ide_complete :: "nat \<Rightarrow> nat \<Rightarrow> ('a fs_scheme, unit) kern" where
  "ide_complete 0 b = faultK Diverge"
| "ide_complete (Suc n) b = bindK (get_buf b) (\<lambda>bp.
     if flags bp AND (B_VALID OR B_DIRTY) = B_VALID then returnK ()
     else blockK [spinlock_release Ide_lk, ide_intr, spinlock_acquire Ide_lk, ide_complete n b])"

definition ide_rw :: "nat \<Rightarrow> ('a fs_scheme, unit) kern" where
  "ide_rw b = bindK (get_buf b) (\<lambda>bp. bindK (readK havedisk1) (\<lambda>have1. blockK [
     guardK (flags bp AND B_BUSY \<noteq> 0) (Panic ''ide_rw: buf not busy''),
     guardK (flags bp AND (B_VALID OR B_DIRTY) \<noteq> B_VALID) (Panic ''ide_rw: nothing to do''),
     guardK (dev bp = 0 \<or> have1) (Panic ''ide_rw: ide disk 1 not present''),
     spinlock_acquire Ide_lk,
     modifyK (\<lambda>s. s\<lparr>idequeue := idequeue s @ [b]\<rparr>),
     bindK (readK idequeue) (\<lambda>q. whenK (hd q = b) (ide_start b)),
     bindK (readK idequeue) (\<lambda>q. ide_complete (Suc (length q)) b),
     spinlock_release Ide_lk]))"

section \<open>The buffer cache\<close>

definition bufcache_init :: "('a fs_scheme, unit) kern" where
  "bufcache_init = seqK (spinlock_init Bcache_lk)
     (modifyK (\<lambda>s. s\<lparr>bcache_list := fold (#) [0..<NBUF] [],
        bufs := map (\<lambda>b. b\<lparr>dev := - 1\<rparr>) (bufs s)\<rparr>))"

definition cached :: "buf list \<Rightarrow> u32 \<Rightarrow> u32 \<Rightarrow> nat \<Rightarrow> bool" where
  "cached B d sec b \<longleftrightarrow> dev (B ! b) = d \<and> sector (B ! b) = sec"

definition recyclable :: "buf list \<Rightarrow> nat \<Rightarrow> bool" where
  "recyclable B b \<longleftrightarrow> flags (B ! b) AND B_BUSY = 0 \<and> flags (B ! b) AND B_DIRTY = 0"

definition bufcache_get :: "u32 \<Rightarrow> u32 \<Rightarrow> ('a fs_scheme, nat) kern" where
  "bufcache_get d sec = seqK (spinlock_acquire Bcache_lk)
     (bindK (readK bufs) (\<lambda>B. bindK (readK bcache_list) (\<lambda>L.
       case find (cached B d sec) L of
         Some b \<Rightarrow>
           if flags (B ! b) AND B_BUSY = 0
           then seqK (upd_buf b (\<lambda>bp. bp\<lparr>flags := flags bp OR B_BUSY\<rparr>))
                  (seqK (spinlock_release Bcache_lk) (returnK b))
           else faultK Blocked
       | None \<Rightarrow>
           (case find (recyclable B) (rev L) of
              Some b \<Rightarrow> seqK (upd_buf b (\<lambda>bp. bp\<lparr>dev := d, sector := sec, flags := B_BUSY\<rparr>))
                  (seqK (spinlock_release Bcache_lk) (returnK b))
            | None \<Rightarrow> faultK (Panic ''bufcache_get: no buffers'')))))"

definition bufcache_read :: "u32 \<Rightarrow> u32 \<Rightarrow> ('a fs_scheme, nat) kern" where
  "bufcache_read d sec = bindK (bufcache_get d sec) (\<lambda>b.
     bindK (get_buf b) (\<lambda>bp. seqK (whenK (flags bp AND B_VALID = 0) (ide_rw b)) (returnK b)))"

definition bufcache_write :: "nat \<Rightarrow> ('a fs_scheme, unit) kern" where
  "bufcache_write b = bindK (get_buf b) (\<lambda>bp. blockK [
     guardK (flags bp AND B_BUSY \<noteq> 0) (Panic ''bwrite''),
     upd_buf b (\<lambda>bp. bp\<lparr>flags := flags bp OR B_DIRTY\<rparr>),
     ide_rw b])"

definition bufcache_release :: "nat \<Rightarrow> ('a fs_scheme, unit) kern" where
  "bufcache_release b = bindK (get_buf b) (\<lambda>bp. blockK [
     guardK (flags bp AND B_BUSY \<noteq> 0) (Panic ''brelse''),
     spinlock_acquire Bcache_lk,
     modifyK (\<lambda>s. s\<lparr>bcache_list := b # remove1 b (bcache_list s)\<rparr>),
     upd_buf b (\<lambda>bp. bp\<lparr>flags := flags bp AND NOT B_BUSY\<rparr>),
     thread_wakeup (BufChan b),
     spinlock_release Bcache_lk])"

section \<open>A state of the file system\<close>

text \<open>The state on which the witnesses about the file system run: the locks are free, nobody sleeps, two drives of zero
  sectors, an empty cache and empty tables.\<close>

definition demo_fs :: fs where
  "demo_fs = thr.extend (demo_thr\<lparr>locks := \<lambda>_. spin_free, TCBPool := demo_tcb(4 := demo_tcb 5)\<rparr>) (fs.fields (\<lambda>_ _. replicate 512 0) (\<lambda>_ _. False) True []
     (replicate NBUF \<lparr>flags = 0, dev = - 1, sector = 0, data = replicate 512 0\<rparr>) (rev [0..<NBUF])
     \<lparr>log_start = 0, log_size = 0, log_busy = False, log_dev = 0, lh_n = 0, lh_sector = replicate LOGSIZE 0\<rparr>
     (replicate NINODE \<lparr>i_dev = 0, i_inum = 0, i_ref = 0, i_flags = 0, i_type = 0, i_major = 0, i_minor = 0,
        i_nlink = 0, i_size = 0, i_addrs = replicate 13 0\<rparr>)
     (replicate NFILE \<lparr>f_type = FD_NONE, f_ref = 0, f_readable = False, f_writable = False, f_ip = None, f_off = 0\<rparr>))"

end
