(* ===== verification/Log.thy ===== *)
theory Log
  imports Disk
begin

text \<open>
  The write-ahead log \<open>kern/fs/log.c\<close> and the block layer \<open>kern/fs/block.c\<close>.  On-disk structures
  are read from and written to the bytes of a buffer at the offsets of the C structures.
\<close>

section \<open>Little-endian fields of a block\<close>

definition le16 :: "bytes \<Rightarrow> nat \<Rightarrow> u16" where
  "le16 d i = ucast (d ! i) OR push_bit 8 (ucast (d ! (i + 1)))"

definition le32 :: "bytes \<Rightarrow> nat \<Rightarrow> u32" where
  "le32 d i = ucast (d ! i) OR push_bit 8 (ucast (d ! (i + 1))) OR push_bit 16 (ucast (d ! (i + 2))) OR
     push_bit 24 (ucast (d ! (i + 3)))"

definition put_bytes :: "nat \<Rightarrow> bytes \<Rightarrow> bytes \<Rightarrow> bytes" where
  "put_bytes i x d = take i d @ x @ drop (i + length x) d"

definition bytes16 :: "u16 \<Rightarrow> bytes" where
  "bytes16 w = [ucast w, ucast (drop_bit 8 w)]"

definition bytes32 :: "u32 \<Rightarrow> bytes" where
  "bytes32 w = [ucast w, ucast (drop_bit 8 w), ucast (drop_bit 16 w), ucast (drop_bit 24 w)]"

section \<open>The super block\<close>

record superblock =
  sb_size :: u32
  sb_nblocks :: u32
  sb_ninodes :: u32
  sb_nlog :: u32

definition sb_of :: "bytes \<Rightarrow> superblock" where
  "sb_of d = \<lparr>sb_size = le32 d 0, sb_nblocks = le32 d 4, sb_ninodes = le32 d 8, sb_nlog = le32 d 12\<rparr>"

definition read_superblock :: "u32 \<Rightarrow> ('a fs_scheme, superblock) kern" where
  "read_superblock d = bindK (bufcache_read d 1) (\<lambda>bp. bindK (get_buf bp) (\<lambda>b.
     seqK (bufcache_release bp) (returnK (sb_of (data b)))))"

section \<open>The log\<close>

definition upd_log :: "(log \<Rightarrow> log) \<Rightarrow> ('a fs_scheme, unit) kern" where
  "upd_log f = modifyK (\<lambda>s. s\<lparr>log := f (log s)\<rparr>)"

definition set_data :: "nat \<Rightarrow> bytes \<Rightarrow> ('a fs_scheme, unit) kern" where
  "set_data b d = upd_buf b (\<lambda>bp. bp\<lparr>data := d\<rparr>)"

text \<open>The loops over the log entries, \<open>for (i = 0; i < log.lh.n; i++)\<close> with a signed \<open>n\<close>.\<close>

definition entries :: "u32 \<Rightarrow> nat list" where
  "entries n = [0..<nat (sint n)]"

definition get_lh_sector :: "nat \<Rightarrow> ('a fs_scheme, u32) kern" where
  "get_lh_sector i = get_at (\<lambda>s. lh_sector (log s)) i"

definition set_lh_sector :: "nat \<Rightarrow> u32 \<Rightarrow> ('a fs_scheme, unit) kern" where
  "set_lh_sector i v = indexK i LOGSIZE (upd_log (\<lambda>l. l\<lparr>lh_sector := (lh_sector l)[i := v]\<rparr>))"

definition install_entry :: "nat \<Rightarrow> ('a fs_scheme, unit) kern" where
  "install_entry tl_i = bindK (readK log) (\<lambda>l.
     bindK (bufcache_read (log_dev l) (log_start l + word_of_nat tl_i + 1)) (\<lambda>lbuf.
     bindK (get_lh_sector tl_i) (\<lambda>sec.
     bindK (bufcache_read (log_dev l) sec) (\<lambda>dbuf.
     bindK (get_buf lbuf) (\<lambda>lb. blockK [
       set_data dbuf (data lb),
       bufcache_write dbuf,
       bufcache_release lbuf,
       bufcache_release dbuf])))))"

definition install_trans :: "('a fs_scheme, unit) kern" where
  "install_trans = bindK (readK (\<lambda>s. lh_n (log s))) (\<lambda>n. forK (entries n) install_entry)"

definition read_head :: "('a fs_scheme, unit) kern" where
  "read_head = bindK (readK log) (\<lambda>l. bindK (bufcache_read (log_dev l) (log_start l)) (\<lambda>bp.
     bindK (get_buf bp) (\<lambda>b. blockK [
       upd_log (\<lambda>l. l\<lparr>lh_n := le32 (data b) 0\<rparr>),
       forK (entries (le32 (data b) 0)) (\<lambda>i. set_lh_sector i (le32 (data b) (4 + 4 * i))),
       bufcache_release bp])))"

definition write_head :: "('a fs_scheme, unit) kern" where
  "write_head = bindK (readK log) (\<lambda>l. bindK (bufcache_read (log_dev l) (log_start l)) (\<lambda>bp. blockK [
     upd_buf bp (\<lambda>b. b\<lparr>data := put_bytes 0 (bytes32 (lh_n l)) (data b)\<rparr>),
     forK (entries (lh_n l)) (\<lambda>i. bindK (get_lh_sector i) (\<lambda>sec.
       upd_buf bp (\<lambda>b. b\<lparr>data := put_bytes (4 + 4 * i) (bytes32 sec) (data b)\<rparr>))),
     bufcache_write bp,
     bufcache_release bp]))"

definition recover_from_log :: "('a fs_scheme, unit) kern" where
  "recover_from_log = blockK [read_head, install_trans, upd_log (\<lambda>l. l\<lparr>lh_n := 0\<rparr>), write_head]"

definition log_init :: "('a fs_scheme, unit) kern" where
  "log_init = seqK (spinlock_init Log_lk) (bindK (read_superblock ROOTDEV) (\<lambda>sb. blockK [
     upd_log (\<lambda>l. l\<lparr>log_start := sb_size sb - sb_nlog sb, log_size := sb_nlog sb, log_dev := ROOTDEV\<rparr>),
     recover_from_log]))"

text \<open>A transaction that is already active makes the caller sleep.\<close>

definition begin_trans :: "('a fs_scheme, unit) kern" where
  "begin_trans = seqK (spinlock_acquire Log_lk) (bindK (readK (\<lambda>s. log_busy (log s))) (\<lambda>busy.
     if busy then faultK Blocked
     else seqK (upd_log (\<lambda>l. l\<lparr>log_busy := True\<rparr>)) (spinlock_release Log_lk)))"

definition commit_trans :: "('a fs_scheme, unit) kern" where
  "commit_trans = bindK (readK (\<lambda>s. lh_n (log s))) (\<lambda>n. blockK [
     whenK (sint n > 0) (blockK [write_head, install_trans, upd_log (\<lambda>l. l\<lparr>lh_n := 0\<rparr>), write_head]),
     critical Log_lk (seqK (upd_log (\<lambda>l. l\<lparr>log_busy := False\<rparr>)) (thread_wakeup LogChan))])"

text \<open>The slot of a sector in the log: the one it already has, or the next free one.\<close>

definition log_slot :: "log \<Rightarrow> u32 \<Rightarrow> nat" where
  "log_slot l sec = (case find (\<lambda>i. lh_sector l ! i = sec) (entries (lh_n l)) of
     Some i \<Rightarrow> i | None \<Rightarrow> length (entries (lh_n l)))"

definition log_write :: "nat \<Rightarrow> ('a fs_scheme, unit) kern" where
  "log_write b = bindK (readK log) (\<lambda>l. bindK (get_buf b) (\<lambda>bp.
     seqK (guardK (\<not> (sint (lh_n l) \<ge> int LOGSIZE \<or> sint (lh_n l) \<ge> sint (log_size l) - 1)) (Panic ''too big a transaction''))
     (seqK (guardK (log_busy l) (Panic ''write outside of trans''))
       (let i = log_slot l (sector bp) in
        seqK (set_lh_sector i (sector bp))
        (bindK (bufcache_read (dev bp) (log_start l + word_of_nat i + 1)) (\<lambda>lbuf. blockK [
          bindK (get_buf b) (\<lambda>bp. set_data lbuf (data bp)),
          bufcache_write lbuf,
          bufcache_release lbuf,
          whenK (int i = sint (lh_n l)) (upd_log (\<lambda>l. l\<lparr>lh_n := lh_n l + 1\<rparr>)),
          upd_buf b (\<lambda>bp. bp\<lparr>flags := flags bp OR B_DIRTY\<rparr>)]))))))"

section \<open>Blocks\<close>

definition IPB :: u32 where "IPB = BSIZE div 64"
definition BPB :: u32 where "BPB = BSIZE * 8"

definition IBLOCK :: "u32 \<Rightarrow> u32" where
  "IBLOCK i = i div IPB + 2"

definition BBLOCK :: "u32 \<Rightarrow> u32 \<Rightarrow> u32" where
  "BBLOCK b ninodes = b div BPB + ninodes div IPB + 3"

definition block_zero :: "u32 \<Rightarrow> u32 \<Rightarrow> ('a fs_scheme, unit) kern" where
  "block_zero d bno = bindK (bufcache_read d bno) (\<lambda>bp. blockK [
     set_data bp (replicate 512 0), log_write bp, bufcache_release bp])"

text \<open>Bit \<open>bi\<close> of a bitmap block.\<close>

definition bitmap_bit :: "bytes \<Rightarrow> u32 \<Rightarrow> bool" where
  "bitmap_bit d bi = bit (d ! unat (bi div 8)) (unat (bi mod 8))"

definition set_bitmap_bit :: "bool \<Rightarrow> u32 \<Rightarrow> bytes \<Rightarrow> bytes" where
  "set_bitmap_bit v bi d = (let i = unat (bi div 8); m = push_bit (unat (bi mod 8)) 1 in
     d[i := if v then d ! i OR m else d ! i AND NOT m])"

text \<open>The inner loop of \<open>block_alloc\<close>: the first free bit from \<open>bi\<close> on of the bitmap block for the
  blocks from \<open>b\<close> on; its first argument counts the bits that are left up to \<open>BPB\<close>.\<close>

primrec free_bit :: "nat \<Rightarrow> bytes \<Rightarrow> u32 \<Rightarrow> u32 \<Rightarrow> u32 \<Rightarrow> u32 option" where
  "free_bit 0 d b sz bi = None"
| "free_bit (Suc n) d b sz bi =
     (if b + bi < sz
      then if \<not> bitmap_bit d bi then Some bi else free_bit n d b sz (bi + 1)
      else None)"

text \<open>In \<open>block_alloc\<close> the division by \<open>BPB\<close> is one of signed integers; \<open>b\<close> is a multiple of \<open>BPB\<close>
  there.\<close>

definition BBLOCK_signed :: "u32 \<Rightarrow> u32 \<Rightarrow> u32" where
  "BBLOCK_signed b ninodes = word_of_int (sint b div sint BPB) + ninodes div IPB + 3"

primrec block_alloc_loop :: "nat \<Rightarrow> u32 \<Rightarrow> superblock \<Rightarrow> u32 \<Rightarrow> ('a fs_scheme, u32) kern" where
  "block_alloc_loop 0 d sb b = faultK Diverge"
| "block_alloc_loop (Suc n) d sb b =
     (if b < sb_size sb
      then bindK (bufcache_read d (BBLOCK_signed b (sb_ninodes sb))) (\<lambda>bp. bindK (get_buf bp) (\<lambda>bb.
        case free_bit (unat BPB) (data bb) b (sb_size sb) 0 of
          Some bi \<Rightarrow> seqK (blockK [set_data bp (set_bitmap_bit True bi (data bb)), log_write bp, bufcache_release bp,
              block_zero d (b + bi)]) (returnK (b + bi))
        | None \<Rightarrow> seqK (bufcache_release bp) (block_alloc_loop n d sb (b + BPB))))
      else faultK (Panic ''balloc: out of blocks''))"

text \<open>A 32-bit size needs at most \<open>2^20\<close> rounds of \<open>BPB = 2^12\<close> blocks; beyond them the counter has
  wrapped around and the loop goes on forever.\<close>

definition block_alloc :: "u32 \<Rightarrow> ('a fs_scheme, u32) kern" where
  "block_alloc d = bindK (read_superblock d) (\<lambda>sb. block_alloc_loop (2 ^ 20 + 1) d sb 0)"

definition block_free :: "u32 \<Rightarrow> u32 \<Rightarrow> ('a fs_scheme, unit) kern" where
  "block_free d b = bindK (read_superblock d) (\<lambda>sb.
     bindK (bufcache_read d (BBLOCK b (sb_ninodes sb))) (\<lambda>bp. bindK (get_buf bp) (\<lambda>bb.
       let bi = b mod BPB in blockK [
         guardK (bitmap_bit (data bb) bi) (Panic ''freeing free block''),
         set_data bp (set_bitmap_bit False bi (data bb)),
         log_write bp,
         bufcache_release bp])))"

end
