(* ===== verification/Inode.thy ===== *)
theory Inode
  imports Log
begin

text \<open>
  Inodes, \<open>kern/fs/inode.c\<close>: the cache of inodes in memory, allocation on disk and file contents.  A
  pointer to an inode is its index in \<open>inode_cache.inode\<close>.  A thread that would have to wait for a
  locked inode is \<open>Blocked\<close>.  The table of device functions \<open>devsw\<close> is never filled in, so it is the
  null pointer.
\<close>

definition NDIRECT :: u32 where "NDIRECT = 12"
definition NINDIRECT :: u32 where "NINDIRECT = BSIZE div 4"
definition MAXFILE :: u32 where "MAXFILE = NDIRECT + NINDIRECT"

definition I_BUSY :: u32 where "I_BUSY = 1"
definition I_VALID :: u32 where "I_VALID = 2"

definition T_DIR :: u16 where "T_DIR = 1"
definition T_FILE :: u16 where "T_FILE = 2"
definition T_DEV :: u16 where "T_DEV = 3"

definition get_inode :: "nat \<Rightarrow> ('a fs_scheme, inode) kern" where
  "get_inode ip = get_at inode_cache ip"

definition upd_inode :: "nat \<Rightarrow> (inode \<Rightarrow> inode) \<Rightarrow> ('a fs_scheme, unit) kern" where
  "upd_inode ip f s = (if ip < length (inode_cache s)
     then Inr ((), s\<lparr>inode_cache := (inode_cache s)[ip := f (inode_cache s ! ip)]\<rparr>) else Inl OutOfBounds)"

section \<open>Inodes on disk\<close>

record dinode =
  di_type :: u16
  di_major :: u16
  di_minor :: u16
  di_nlink :: u16
  di_size :: u32
  di_addrs :: "u32 list"

text \<open>Offset in its block of the structure of inode number \<open>inum\<close>.\<close>

definition dinode_off :: "u32 \<Rightarrow> nat" where
  "dinode_off inum = unat (inum mod IPB) * 64"

definition read_dinode :: "bytes \<Rightarrow> nat \<Rightarrow> dinode" where
  "read_dinode d i = \<lparr>di_type = le16 d i, di_major = le16 d (i + 2), di_minor = le16 d (i + 4),
     di_nlink = le16 d (i + 6), di_size = le32 d (i + 8), di_addrs = map (\<lambda>k. le32 d (i + 12 + 4 * k)) [0..<13]\<rparr>"

definition dinode_bytes :: "dinode \<Rightarrow> bytes" where
  "dinode_bytes di = bytes16 (di_type di) @ bytes16 (di_major di) @ bytes16 (di_minor di) @ bytes16 (di_nlink di) @
     bytes32 (di_size di) @ concat (map bytes32 (di_addrs di))"

section \<open>Cache of inodes\<close>

definition inode_init :: "('a fs_scheme, unit) kern" where
  "inode_init = spinlock_init Inode_cache_lk"

definition inode_update :: "nat \<Rightarrow> ('a fs_scheme, unit) kern" where
  "inode_update ip = bindK (get_inode ip) (\<lambda>n.
     bindK (bufcache_read (i_dev n) (IBLOCK (i_inum n))) (\<lambda>bp. blockK [
       upd_buf bp (\<lambda>b. b\<lparr>data := put_bytes (dinode_off (i_inum n)) (dinode_bytes
         \<lparr>di_type = i_type n, di_major = i_major n, di_minor = i_minor n, di_nlink = i_nlink n,
          di_size = i_size n, di_addrs = i_addrs n\<rparr>) (data b)\<rparr>),
       log_write bp,
       bufcache_release bp]))"

definition inode_cached :: "u32 \<Rightarrow> u32 \<Rightarrow> inode \<Rightarrow> bool" where
  "inode_cached d inum n \<longleftrightarrow> i_ref n > 0 \<and> i_dev n = d \<and> i_inum n = inum"

definition inode_get :: "u32 \<Rightarrow> u32 \<Rightarrow> ('a fs_scheme, nat) kern" where
  "inode_get d inum = seqK (spinlock_acquire Inode_cache_lk) (bindK (readK inode_cache) (\<lambda>C.
     case find (\<lambda>i. inode_cached d inum (C ! i)) [0..<NINODE] of
       Some ip \<Rightarrow> seqK (upd_inode ip (\<lambda>n. n\<lparr>i_ref := i_ref n + 1\<rparr>))
         (seqK (spinlock_release Inode_cache_lk) (returnK ip))
     | None \<Rightarrow> (case find (\<lambda>i. i_ref (C ! i) = 0) [0..<NINODE] of
         None \<Rightarrow> faultK (Panic ''inode_get: no inodes'')
       | Some ip \<Rightarrow> seqK (upd_inode ip (\<lambda>n. n\<lparr>i_dev := d, i_inum := inum, i_ref := 1, i_flags := 0\<rparr>))
           (seqK (spinlock_release Inode_cache_lk) (returnK ip)))))"

primrec inode_alloc_loop :: "nat \<Rightarrow> u32 \<Rightarrow> u16 \<Rightarrow> superblock \<Rightarrow> u32 \<Rightarrow> ('a fs_scheme, nat) kern" where
  "inode_alloc_loop 0 d ty sb inum = faultK (Panic ''inode_alloc: no inodes'')"
| "inode_alloc_loop (Suc k) d ty sb inum =
     (if inum < sb_ninodes sb
      then bindK (bufcache_read d (IBLOCK inum)) (\<lambda>bp. bindK (get_buf bp) (\<lambda>b.
        if di_type (read_dinode (data b) (dinode_off inum)) = 0
        then seqK (blockK [
            set_data bp (put_bytes (dinode_off inum) (bytes16 ty @ replicate 62 0) (data b)),
            log_write bp,
            bufcache_release bp]) (inode_get d inum)
        else seqK (bufcache_release bp) (inode_alloc_loop k d ty sb (inum + 1))))
      else faultK (Panic ''inode_alloc: no inodes''))"

definition inode_alloc :: "u32 \<Rightarrow> u16 \<Rightarrow> ('a fs_scheme, nat) kern" where
  "inode_alloc d ty = bindK (read_superblock d) (\<lambda>sb. inode_alloc_loop (unat (sb_ninodes sb)) d ty sb 1)"

definition inode_dup :: "nat \<Rightarrow> ('a fs_scheme, nat) kern" where
  "inode_dup ip = seqK (critical Inode_cache_lk (upd_inode ip (\<lambda>n. n\<lparr>i_ref := i_ref n + 1\<rparr>))) (returnK ip)"

definition inode_load :: "nat \<Rightarrow> ('a fs_scheme, unit) kern" where
  "inode_load ip = bindK (get_inode ip) (\<lambda>n. bindK (bufcache_read (i_dev n) (IBLOCK (i_inum n))) (\<lambda>bp.
     bindK (get_buf bp) (\<lambda>b. let di = read_dinode (data b) (dinode_off (i_inum n)) in blockK [
       upd_inode ip (\<lambda>n. n\<lparr>i_type := di_type di, i_major := di_major di, i_minor := di_minor di,
         i_nlink := di_nlink di, i_size := di_size di, i_addrs := di_addrs di\<rparr>),
       bufcache_release bp,
       upd_inode ip (\<lambda>n. n\<lparr>i_flags := i_flags n OR I_VALID\<rparr>),
       guardK (di_type di \<noteq> 0) (Panic ''inode_lock: no type'')])))"

definition inode_lock :: "nat \<Rightarrow> ('a fs_scheme, unit) kern" where
  "inode_lock ip = bindK (get_inode ip) (\<lambda>n. blockK [
     guardK (\<not> i_ref n < 1) (Panic ''inode_lock''),
     spinlock_acquire Inode_cache_lk,
     guardK (i_flags n AND I_BUSY = 0) Blocked,
     upd_inode ip (\<lambda>n. n\<lparr>i_flags := i_flags n OR I_BUSY\<rparr>),
     spinlock_release Inode_cache_lk,
     whenK (i_flags n AND I_VALID = 0) (inode_load ip)])"

definition inode_unlock :: "nat \<Rightarrow> ('a fs_scheme, unit) kern" where
  "inode_unlock ip = bindK (get_inode ip) (\<lambda>n. blockK [
     guardK (\<not> (i_flags n AND I_BUSY = 0 \<or> i_ref n < 1)) (Panic ''inode_unlock''),
     spinlock_acquire Inode_cache_lk,
     upd_inode ip (\<lambda>n. n\<lparr>i_flags := i_flags n AND NOT I_BUSY\<rparr>),
     thread_wakeup (InodeChan ip),
     spinlock_release Inode_cache_lk])"

section \<open>Contents\<close>

definition set_addr :: "nat \<Rightarrow> u32 \<Rightarrow> u32 \<Rightarrow> ('a fs_scheme, unit) kern" where
  "set_addr ip i a = upd_inode ip (\<lambda>n. n\<lparr>i_addrs := (i_addrs n)[unat i := a]\<rparr>)"

text \<open>The block in slot \<open>i\<close> of \<open>addrs\<close>, allocated if there is none.\<close>

definition inode_block :: "nat \<Rightarrow> u32 \<Rightarrow> ('a fs_scheme, u32) kern" where
  "inode_block ip i = bindK (get_inode ip) (\<lambda>n.
     if i_addrs n ! unat i = 0
     then bindK (block_alloc (i_dev n)) (\<lambda>addr. seqK (set_addr ip i addr) (returnK addr))
     else returnK (i_addrs n ! unat i))"

definition bmap :: "nat \<Rightarrow> u32 \<Rightarrow> ('a fs_scheme, u32) kern" where
  "bmap ip bn = (if bn < NDIRECT then inode_block ip bn
     else let bn = bn - NDIRECT in
       if bn < NINDIRECT
       then bindK (get_inode ip) (\<lambda>n. bindK (inode_block ip NDIRECT) (\<lambda>ind.
         bindK (bufcache_read (i_dev n) ind) (\<lambda>bp. bindK (get_buf bp) (\<lambda>b.
           let addr = le32 (data b) (4 * unat bn) in
           if addr = 0
           then bindK (block_alloc (i_dev n)) (\<lambda>addr. seqK (blockK [
               upd_buf bp (\<lambda>b. b\<lparr>data := put_bytes (4 * unat bn) (bytes32 addr) (data b)\<rparr>),
               log_write bp,
               bufcache_release bp]) (returnK addr))
           else seqK (bufcache_release bp) (returnK addr)))))
       else faultK (Panic ''bmap: out of range''))"

definition trunc_direct :: "nat \<Rightarrow> u32 \<Rightarrow> ('a fs_scheme, unit) kern" where
  "trunc_direct ip i = bindK (get_inode ip) (\<lambda>n. whenK (i_addrs n ! unat i \<noteq> 0)
     (seqK (block_free (i_dev n) (i_addrs n ! unat i)) (set_addr ip i 0)))"

definition trunc_indirect :: "nat \<Rightarrow> ('a fs_scheme, unit) kern" where
  "trunc_indirect ip = bindK (get_inode ip) (\<lambda>n. let ind = i_addrs n ! unat NDIRECT in
     whenK (ind \<noteq> 0) (bindK (bufcache_read (i_dev n) ind) (\<lambda>bp. blockK [
       forK [0..<unat NINDIRECT] (\<lambda>j. bindK (get_buf bp) (\<lambda>b. let a = le32 (data b) (4 * j) in
         whenK (a \<noteq> 0) (block_free (i_dev n) a))),
       bufcache_release bp,
       block_free (i_dev n) ind,
       set_addr ip NDIRECT 0])))"

definition inode_trunc :: "nat \<Rightarrow> ('a fs_scheme, unit) kern" where
  "inode_trunc ip = blockK [
     forK (word_range 0 NDIRECT) (trunc_direct ip),
     trunc_indirect ip,
     upd_inode ip (\<lambda>n. n\<lparr>i_size := 0\<rparr>),
     inode_update ip]"

definition inode_put :: "nat \<Rightarrow> ('a fs_scheme, unit) kern" where
  "inode_put ip = seqK (spinlock_acquire Inode_cache_lk) (bindK (get_inode ip) (\<lambda>n. blockK [
     whenK (i_ref n = 1 \<and> i_flags n AND I_VALID \<noteq> 0 \<and> i_nlink n = 0) (blockK [
       guardK (i_flags n AND I_BUSY = 0) (Panic ''inode_put busy''),
       upd_inode ip (\<lambda>n. n\<lparr>i_flags := i_flags n OR I_BUSY\<rparr>),
       spinlock_release Inode_cache_lk,
       inode_trunc ip,
       upd_inode ip (\<lambda>n. n\<lparr>i_type := 0\<rparr>),
       inode_update ip,
       spinlock_acquire Inode_cache_lk,
       upd_inode ip (\<lambda>n. n\<lparr>i_flags := 0\<rparr>),
       thread_wakeup (InodeChan ip)]),
     upd_inode ip (\<lambda>n. n\<lparr>i_ref := i_ref n - 1\<rparr>),
     spinlock_release Inode_cache_lk]))"

definition inode_unlockput :: "nat \<Rightarrow> ('a fs_scheme, unit) kern" where
  "inode_unlockput ip = seqK (inode_unlock ip) (inode_put ip)"

record file_stat =
  st_type :: u16
  st_dev :: u32
  st_ino :: u32
  st_nlink :: u16
  st_size :: u32

definition inode_stat :: "nat \<Rightarrow> ('a fs_scheme, file_stat) kern" where
  "inode_stat ip = bindK (get_inode ip) (\<lambda>n. returnK
     \<lparr>st_type = i_type n, st_dev = i_dev n, st_ino = i_inum n, st_nlink = i_nlink n, st_size = i_size n\<rparr>)"

text \<open>The number of bytes of a transfer that lie in the block of offset \<open>off\<close>.\<close>

definition block_part :: "u32 \<Rightarrow> u32 \<Rightarrow> u32 \<Rightarrow> u32" where
  "block_part n tot off = min_u32 (n - tot) (BSIZE - off mod BSIZE)"

text \<open>The bytes at \<open>dst\<close> are the second component of the result of a read; each round moves at least
  one byte, so that \<open>n\<close> rounds are enough.\<close>

primrec inode_read_loop :: "nat \<Rightarrow> nat \<Rightarrow> u32 \<Rightarrow> u32 \<Rightarrow> u32 \<Rightarrow> ('a fs_scheme, bytes) kern" where
  "inode_read_loop 0 ip off n tot = returnK []"
| "inode_read_loop (Suc k) ip off n tot =
     (if tot < n
      then bindK (bmap ip (off div BSIZE)) (\<lambda>bno. bindK (get_inode ip) (\<lambda>i.
        bindK (bufcache_read (i_dev i) bno) (\<lambda>bp. bindK (get_buf bp) (\<lambda>b.
          let m = block_part n tot off in
          seqK (bufcache_release bp)
          (bindK (inode_read_loop k ip (off + m) n (tot + m)) (\<lambda>xs.
            returnK (take (unat m) (drop (unat (off mod BSIZE)) (data b)) @ xs)))))))
      else returnK [])"

definition inode_read :: "nat \<Rightarrow> u32 \<Rightarrow> u32 \<Rightarrow> ('a fs_scheme, u32 \<times> bytes) kern" where
  "inode_read ip off n = bindK (get_inode ip) (\<lambda>i.
     if i_type i = T_DEV
     then if sint (i_major i) < 0 \<or> sint (i_major i) \<ge> NDEV then returnK (- 1, []) else faultK NullPointer
     else if off > i_size i \<or> off + n < off then returnK (- 1, [])
     else let n = if off + n > i_size i then i_size i - off else n in
       bindK (inode_read_loop (unat n) ip off n 0) (\<lambda>xs. returnK (n, xs)))"

primrec inode_write_loop :: "nat \<Rightarrow> nat \<Rightarrow> bytes \<Rightarrow> u32 \<Rightarrow> u32 \<Rightarrow> u32 \<Rightarrow> ('a fs_scheme, u32) kern" where
  "inode_write_loop 0 ip src off n tot = returnK off"
| "inode_write_loop (Suc k) ip src off n tot =
     (if tot < n
      then bindK (bmap ip (off div BSIZE)) (\<lambda>bno. bindK (get_inode ip) (\<lambda>i.
        bindK (bufcache_read (i_dev i) bno) (\<lambda>bp.
          let m = block_part n tot off in
          seqK (blockK [
            upd_buf bp (\<lambda>b. b\<lparr>data := put_bytes (unat (off mod BSIZE)) (take (unat m) (drop (unat tot) src)) (data b)\<rparr>),
            log_write bp,
            bufcache_release bp])
          (inode_write_loop k ip src (off + m) n (tot + m)))))
      else returnK off)"

definition inode_write :: "nat \<Rightarrow> bytes \<Rightarrow> u32 \<Rightarrow> u32 \<Rightarrow> ('a fs_scheme, u32) kern" where
  "inode_write ip src off n = bindK (get_inode ip) (\<lambda>i.
     if i_type i = T_DEV
     then if sint (i_major i) < 0 \<or> sint (i_major i) \<ge> NDEV then returnK (- 1) else faultK NullPointer
     else if off > i_size i \<or> off + n < off then returnK (- 1)
     else if off + n > MAXFILE * BSIZE then returnK (- 1)
     else bindK (inode_write_loop (unat n) ip src off n 0) (\<lambda>off.
       seqK (bindK (get_inode ip) (\<lambda>i. whenK (n > 0 \<and> off > i_size i)
         (seqK (upd_inode ip (\<lambda>i. i\<lparr>i_size := off\<rparr>)) (inode_update ip)))) (returnK n)))"

end
