(* ===== verification/Dir.thy ===== *)
theory Dir
  imports Inode
begin

text \<open>
  Directories and path names, \<open>kern/fs/dir.c\<close> and \<open>kern/fs/path.c\<close>, and open files,
  \<open>kern/fs/file.c\<close>.  A pointer into a string is the list of the bytes from there on, as in the
  theory of byte strings.
\<close>

definition DIRSIZ :: nat where "DIRSIZ = 14"

text \<open>Result of an operation on byte strings; reading or writing past an array is a fault.\<close>

definition bytesK :: "'b option \<Rightarrow> ('s, 'b) kern" where
  "bytesK r = (case r of None \<Rightarrow> faultK OutOfBounds | Some x \<Rightarrow> returnK x)"

section \<open>Directories\<close>

record dirent =
  de_inum :: u16
  de_name :: bytes

definition dirent_size :: u32 where "dirent_size = 16"

definition dirent_of :: "bytes \<Rightarrow> dirent" where
  "dirent_of d = \<lparr>de_inum = le16 d 0, de_name = drop 2 d\<rparr>"

definition dirent_bytes :: "dirent \<Rightarrow> bytes" where
  "dirent_bytes de = bytes16 (de_inum de) @ de_name de"

definition dir_namecmp :: "bytes \<Rightarrow> bytes \<Rightarrow> int option" where
  "dir_namecmp s t = strncmp s t DIRSIZ"

primrec dir_lookup_loop :: "nat \<Rightarrow> nat \<Rightarrow> bytes \<Rightarrow> u32 \<Rightarrow> ('a fs_scheme, (nat \<times> u32) option) kern" where
  "dir_lookup_loop 0 dp name off = faultK Diverge"
| "dir_lookup_loop (Suc k) dp name off = bindK (get_inode dp) (\<lambda>d.
     if off < i_size d
     then bindK (inode_read dp off dirent_size) (\<lambda>(r, xs).
       if r \<noteq> dirent_size then faultK (Panic ''read size mismatch, dir_lookup'')
       else let de = dirent_of xs in
         if de_inum de = 0 then dir_lookup_loop k dp name (off + dirent_size)
         else bindK (bytesK (dir_namecmp (de_name de) name)) (\<lambda>c.
           if c = 0 then bindK (inode_get (i_dev d) (ucast (de_inum de))) (\<lambda>ip. returnK (Some (ip, off)))
           else dir_lookup_loop k dp name (off + dirent_size)))
     else returnK None)"

text \<open>The number of rounds of a loop over the entries of a directory, with the last test.\<close>

definition dir_rounds :: "inode \<Rightarrow> nat" where
  "dir_rounds d = unat (i_size d) div 16 + 2"

definition dir_lookup :: "nat \<Rightarrow> bytes \<Rightarrow> ('a fs_scheme, (nat \<times> u32) option) kern" where
  "dir_lookup dp name = bindK (get_inode dp) (\<lambda>d.
     if i_type d \<noteq> T_DIR then faultK (Panic ''dir_lookup not DIR'')
     else dir_lookup_loop (dir_rounds d) dp name 0)"

primrec dir_free_slot :: "nat \<Rightarrow> nat \<Rightarrow> u32 \<Rightarrow> ('a fs_scheme, u32) kern" where
  "dir_free_slot 0 dp off = faultK Diverge"
| "dir_free_slot (Suc k) dp off = bindK (get_inode dp) (\<lambda>d.
     if off < i_size d
     then bindK (inode_read dp off dirent_size) (\<lambda>(r, xs).
       if r \<noteq> dirent_size then faultK (Panic ''read size mismatch, dir_link'')
       else if de_inum (dirent_of xs) = 0 then returnK off
       else dir_free_slot k dp (off + dirent_size))
     else returnK off)"

definition dir_link :: "nat \<Rightarrow> bytes \<Rightarrow> u32 \<Rightarrow> ('a fs_scheme, u32) kern" where
  "dir_link dp name inum = bindK (dir_lookup dp name) (\<lambda>node. case node of
     Some (ip, _) \<Rightarrow> seqK (inode_put ip) (returnK (- 1))
   | None \<Rightarrow> bindK (get_inode dp) (\<lambda>d. bindK (dir_free_slot (dir_rounds d) dp 0) (\<lambda>off.
       bindK (bytesK (strncpy (replicate DIRSIZ 0) name (int DIRSIZ))) (\<lambda>nm.
       bindK (inode_write dp (dirent_bytes \<lparr>de_inum = ucast inum, de_name = nm\<rparr>) off dirent_size) (\<lambda>r.
         if r \<noteq> dirent_size then faultK (Panic ''write size mismatch, dir_link'') else returnK 0)))))"

section \<open>Path names\<close>

definition SLASH :: u8 where "SLASH = 0x2F"

fun skip_slashes :: "bytes \<Rightarrow> bytes option" where
  "skip_slashes (c # p) = (if c = SLASH then skip_slashes p else Some (c # p))"
| "skip_slashes [] = None"

fun elem_length :: "bytes \<Rightarrow> nat option" where
  "elem_length (c # q) = (if c \<noteq> SLASH \<and> c \<noteq> 0 then map_option Suc (elem_length q) else Some 0)"
| "elem_length [] = None"

text \<open>Copying an element of \<open>n\<close> bytes into the buffer \<open>name\<close> and ending it there.\<close>

definition copy_elem :: "bytes \<Rightarrow> bytes \<Rightarrow> nat \<Rightarrow> bytes option" where
  "copy_elem name p n = (case strncpy name p (int n) of
     None \<Rightarrow> None
   | Some nm \<Rightarrow> if n < length nm then Some (nm[n := 0]) else None)"

text \<open>The outer option is out of bounds access, the inner one the null pointer; the result is the
  pointer and the contents of \<open>name\<close>.\<close>

definition skipelem :: "bytes \<Rightarrow> bytes \<Rightarrow> (bytes \<times> bytes) option option" where
  "skipelem path name = (case path of
     [] \<Rightarrow> None
   | c # _ \<Rightarrow> if c = 0 then Some None else
       (case skip_slashes path of
          None \<Rightarrow> None
        | Some p \<Rightarrow> if hd p = 0 then Some None else
            (case elem_length p of
               None \<Rightarrow> None
             | Some n \<Rightarrow>
                 (case copy_elem name p (if n \<ge> DIRSIZ then DIRSIZ - 1 else n) of
                    None \<Rightarrow> None
                  | Some nm \<Rightarrow> map_option (\<lambda>q. Some (q, nm)) (skip_slashes (drop n p))))))"

primrec namex_loop :: "nat \<Rightarrow> nat \<Rightarrow> bytes \<Rightarrow> bool \<Rightarrow> bytes \<Rightarrow> ('a fs_scheme, nat option \<times> bytes) kern" where
  "namex_loop 0 ip path want_parent name = faultK Diverge"
| "namex_loop (Suc k) ip path want_parent name = bindK (bytesK (skipelem path name)) (\<lambda>r. case r of
     None \<Rightarrow> if want_parent then seqK (inode_put ip) (returnK (None, name)) else returnK (Some ip, name)
   | Some (path, name) \<Rightarrow> seqK (inode_lock ip) (bindK (get_inode ip) (\<lambda>n.
       if i_type n \<noteq> T_DIR then seqK (inode_unlockput ip) (returnK (None, name))
       else if want_parent \<and> hd path = 0 then seqK (inode_unlock ip) (returnK (Some ip, name))
       else bindK (dir_lookup ip name) (\<lambda>d. case d of
         None \<Rightarrow> seqK (inode_unlockput ip) (returnK (None, name))
       | Some (dp, _) \<Rightarrow> seqK (inode_unlockput ip) (namex_loop k dp path want_parent name)))))"

definition cwd_inode :: "('a fs_scheme, nat) kern" where
  "cwd_inode = bindK get_curid (\<lambda>id. bindK (tcb_get_cwd id) (\<lambda>c. case c of
     None \<Rightarrow> faultK NullPointer | Some ip \<Rightarrow> inode_dup ip))"

text \<open>Every round takes at least one byte off the path.\<close>

definition namex :: "bytes \<Rightarrow> bool \<Rightarrow> bytes \<Rightarrow> ('a fs_scheme, nat option \<times> bytes) kern" where
  "namex path want_parent name = (case path of
     [] \<Rightarrow> faultK OutOfBounds
   | c # _ \<Rightarrow> bindK (if c = SLASH then inode_get ROOTDEV ROOTINO else cwd_inode) (\<lambda>ip.
       namex_loop (Suc (length path)) ip path want_parent name))"

definition namei :: "bytes \<Rightarrow> ('a fs_scheme, nat option) kern" where
  "namei path = bindK (namex path False (replicate DIRSIZ 0)) (\<lambda>(ip, _). returnK ip)"

definition nameiparent :: "bytes \<Rightarrow> bytes \<Rightarrow> ('a fs_scheme, nat option \<times> bytes) kern" where
  "nameiparent path name = namex path True name"

section \<open>Open files\<close>

definition get_file :: "nat \<Rightarrow> ('a fs_scheme, file_obj) kern" where
  "get_file f = get_at ftable f"

definition upd_file :: "nat \<Rightarrow> (file_obj \<Rightarrow> file_obj) \<Rightarrow> ('a fs_scheme, unit) kern" where
  "upd_file f g s = (if f < length (ftable s)
     then Inr ((), s\<lparr>ftable := (ftable s)[f := g (ftable s ! f)]\<rparr>) else Inl OutOfBounds)"

text \<open>The inode of a file; locking the null pointer is a panic of \<open>inode_lock\<close>.\<close>

definition file_ip :: "file_obj \<Rightarrow> fault \<Rightarrow> ('a fs_scheme, nat) kern" where
  "file_ip f e = (case f_ip f of None \<Rightarrow> faultK e | Some ip \<Rightarrow> returnK ip)"

definition file_init :: "('a fs_scheme, unit) kern" where
  "file_init = spinlock_init Ftable_lk"

definition file_alloc :: "('a fs_scheme, nat option) kern" where
  "file_alloc = seqK (spinlock_acquire Ftable_lk) (bindK (readK ftable) (\<lambda>F.
     case find (\<lambda>f. f_ref (F ! f) = 0) [0..<NFILE] of
       Some f \<Rightarrow> seqK (upd_file f (\<lambda>x. x\<lparr>f_ref := 1\<rparr>)) (seqK (spinlock_release Ftable_lk) (returnK (Some f)))
     | None \<Rightarrow> seqK (spinlock_release Ftable_lk) (returnK None)))"

definition file_dup :: "nat \<Rightarrow> ('a fs_scheme, nat) kern" where
  "file_dup f = seqK (spinlock_acquire Ftable_lk) (bindK (get_file f) (\<lambda>x.
     seqK (guardK (\<not> f_ref x < 1) (Panic ''file_dup''))
     (seqK (upd_file f (\<lambda>x. x\<lparr>f_ref := f_ref x + 1\<rparr>))
     (seqK (spinlock_release Ftable_lk) (returnK f)))))"

definition file_close :: "nat \<Rightarrow> ('a fs_scheme, unit) kern" where
  "file_close f = seqK (spinlock_acquire Ftable_lk) (bindK (get_file f) (\<lambda>x.
     seqK (guardK (\<not> f_ref x < 1) (Panic ''file_close''))
     (seqK (upd_file f (\<lambda>x. x\<lparr>f_ref := f_ref x - 1\<rparr>))
     (if f_ref x - 1 > 0 then spinlock_release Ftable_lk
      else blockK [
        upd_file f (\<lambda>x. x\<lparr>f_ref := 0, f_type := FD_NONE\<rparr>),
        spinlock_release Ftable_lk,
        whenK (f_type x = FD_INODE) (bindK (file_ip x NullPointer) (\<lambda>ip. blockK [
          begin_trans,
          inode_put ip,
          commit_trans]))]))))"

definition file_stat :: "nat \<Rightarrow> ('a fs_scheme, u32 \<times> file_stat option) kern" where
  "file_stat f = bindK (get_file f) (\<lambda>x.
     if f_type x = FD_INODE
     then bindK (file_ip x (Panic ''inode_lock'')) (\<lambda>ip. seqK (inode_lock ip)
       (bindK (inode_stat ip) (\<lambda>st. seqK (inode_unlock ip) (returnK (0, Some st)))))
     else returnK (- 1, None))"

text \<open>Advancing the offset of a file by a positive result.\<close>

definition advance :: "nat \<Rightarrow> u32 \<Rightarrow> ('a fs_scheme, unit) kern" where
  "advance f r = whenK (sint r > 0) (upd_file f (\<lambda>x. x\<lparr>f_off := f_off x + r\<rparr>))"

definition file_read :: "nat \<Rightarrow> u32 \<Rightarrow> ('a fs_scheme, u32 \<times> bytes) kern" where
  "file_read f n = bindK (get_file f) (\<lambda>x.
     if \<not> f_readable x then returnK (- 1, [])
     else if f_type x = FD_INODE
     then bindK (file_ip x (Panic ''inode_lock'')) (\<lambda>ip. seqK (inode_lock ip)
       (bindK (inode_read ip (f_off x) n) (\<lambda>(r, xs).
         seqK (advance f r) (seqK (inode_unlock ip) (returnK (r, xs))))))
     else faultK (Panic ''file_read''))"

definition file_write_max :: u32 where
  "file_write_max = word_of_nat ((LOGSIZE - 1 - 1 - 2) div 2 * 512)"

text \<open>The result is the value of \<open>i\<close> after the loop; a round that goes on writes at least one byte,
  so that \<open>n\<close> rounds are enough.\<close>

primrec file_write_loop :: "nat \<Rightarrow> nat \<Rightarrow> nat \<Rightarrow> bytes \<Rightarrow> u32 \<Rightarrow> u32 \<Rightarrow> ('a fs_scheme, u32) kern" where
  "file_write_loop 0 f ip src n i = returnK i"
| "file_write_loop (Suc k) f ip src n i =
     (if sint i < sint n
      then let n1 = (if sint (n - i) > sint file_write_max then file_write_max else n - i) in
        seqK begin_trans (seqK (inode_lock ip) (bindK (get_file f) (\<lambda>x.
        bindK (inode_write ip (drop (unat i) src) (f_off x) n1) (\<lambda>r.
        seqK (blockK [advance f r, inode_unlock ip, commit_trans])
          (if sint r < 0 then returnK i
           else if r \<noteq> n1 then faultK (Panic ''short file_write'')
           else file_write_loop k f ip src n (i + r))))))
      else returnK i)"

definition file_write :: "nat \<Rightarrow> bytes \<Rightarrow> u32 \<Rightarrow> ('a fs_scheme, u32) kern" where
  "file_write f src n = bindK (get_file f) (\<lambda>x.
     if \<not> f_writable x then returnK (- 1)
     else if f_type x = FD_INODE
     then bindK (if sint n > 0 then file_ip x (Panic ''inode_lock'') else returnK 0) (\<lambda>ip.
       bindK (file_write_loop (unat n) f ip src n 0) (\<lambda>i.
         returnK (if i = n then n else - 1)))
     else faultK (Panic ''file_write''))"

end
