(* ===== verification/PrintFmt.thy ===== *)
theory PrintFmt
  imports CString
begin

text \<open>
  Formatted output: \<open>kern/lib/printfmt.c\<close> and its copy with the \<open>sprintf\<close> family in
  \<open>user/lib/printfmt.c\<close>.  The calls of \<open>putch\<close> are collected in the list of bytes put out.  An
  argument list is a list of values; taking a value of another type than the one passed, and
  reading past the end of a string, give \<open>None\<close>.  A string argument is \<open>None\<close> for the null
  pointer.
\<close>

datatype va_value = VInt u32 | VLong u64 | VStr "bytes option"

section \<open>Numbers\<close>

text \<open>The base is 10 or 16 in every call.\<close>

function printnum :: "nat \<Rightarrow> nat \<Rightarrow> int \<Rightarrow> u8 \<Rightarrow> bytes" where
  "printnum num base wd pc =
     (if num \<ge> base \<and> base \<ge> 2 then printnum (num div base) base (wd - 1) pc
      else replicate (nat (wd - 1)) pc) @ [digit_byte (num mod base)]"
  by pat_completeness auto
termination
  by (relation "measure (\<lambda>(num, _). num)") (auto intro: div_less_dividend)

declare printnum.simps [simp del]

fun getuint :: "va_value list \<Rightarrow> nat \<Rightarrow> (u64 \<times> va_value list) option" where
  "getuint (VLong n # ap) lf = (if lf \<ge> 2 then Some (n, ap) else None)"
| "getuint (VInt n # ap) lf = (if lf \<ge> 2 then None else Some (ucast n, ap))"
| "getuint ap lf = None"

fun getint :: "va_value list \<Rightarrow> nat \<Rightarrow> (u64 \<times> va_value list) option" where
  "getint (VLong n # ap) lf = (if lf \<ge> 2 then Some (n, ap) else None)"
| "getint (VInt n # ap) lf = (if lf \<ge> 2 then None else Some (scast n, ap))"
| "getint ap lf = None"

section \<open>Conversions\<close>

text \<open>The variables of an escape sequence.\<close>

record spec =
  padc :: u8
  width :: int
  precision :: int
  lflag :: nat
  altflag :: bool

definition spec0 :: spec where
  "spec0 = \<lparr>padc = 0x20, width = - 1, precision = - 1, lflag = 0, altflag = False\<rparr>"

fun scan_width :: "int \<Rightarrow> bytes \<Rightarrow> (int \<times> bytes) option" where
  "scan_width p (ch # fmt) =
     (if 0x30 \<le> ch \<and> ch \<le> 0x39 then scan_width (p * 10 + uint ch - 0x30) fmt else Some (p, ch # fmt))"
| "scan_width p [] = None"

definition process_precision :: "int \<Rightarrow> spec \<Rightarrow> spec" where
  "process_precision p sp = (if width sp < 0 then sp\<lparr>width := p, precision := - 1\<rparr> else sp\<lparr>precision := p\<rparr>)"

text \<open>The loop over the characters of a string argument.\<close>

fun put_string :: "bytes \<Rightarrow> int \<Rightarrow> bool \<Rightarrow> bytes option" where
  "put_string (ch # p) prec alt =
     (if ch \<noteq> 0 \<and> (prec < 0 \<or> prec - 1 \<ge> 0)
      then map_option ((#) (if alt \<and> (sint ch < 0x20 \<or> sint ch > 0x7E) then 0x3F else ch))
             (put_string p (if prec < 0 then prec else prec - 1) alt)
      else Some [])"
| "put_string [] prec alt = None"

definition null_string :: bytes where
  "null_string = [0x28, 0x6E, 0x75, 0x6C, 0x6C, 0x29, 0]"

definition conv_string :: "bytes option \<Rightarrow> spec \<Rightarrow> bytes option" where
  "conv_string arg sp = (let p = (case arg of None \<Rightarrow> null_string | Some p \<Rightarrow> p) in
     Option.bind (if width sp > 0 \<and> padc sp \<noteq> 0x2D
                  then map_option (\<lambda>l. let w = width sp - int l in (replicate (nat w) (padc sp), min w 0))
                         (strnlen p (unat (word_of_int (precision sp) :: u32)))
                  else Some ([], width sp)) (\<lambda>(pad, w).
     map_option (\<lambda>xs. pad @ xs @ replicate (nat (w - int (length xs))) 0x20)
       (put_string p (precision sp) (altflag sp))))"

definition conv_number :: "spec \<Rightarrow> nat \<Rightarrow> u64 \<Rightarrow> bytes" where
  "conv_number sp base num = printnum (unat num) base (width sp) (padc sp)"

definition conv_signed :: "spec \<Rightarrow> u64 \<Rightarrow> bytes" where
  "conv_signed sp num = (if sint num < 0 then 0x2D # conv_number sp 10 (- num) else conv_number sp 10 num)"

text \<open>The pointer conversion, which the kernel's octal one falls through to.\<close>

fun conv_pointer :: "spec \<Rightarrow> va_value list \<Rightarrow> (bytes \<times> va_value list) option" where
  "conv_pointer sp (VInt a # ap) = Some (0x30 # 0x78 # conv_number sp 16 (ucast a), ap)"
| "conv_pointer sp ap = None"

text \<open>The octal conversion of the two copies.\<close>

definition conv_octal :: "bool \<Rightarrow> spec \<Rightarrow> va_value list \<Rightarrow> (bytes \<times> va_value list) option" where
  "conv_octal user sp ap = (if user then Some ([0x58, 0x58, 0x58], ap) else conv_pointer sp ap)"

text \<open>The conversions proper, by the character that names them; \<open>None\<close> in the result means that the
  character names none.\<close>

definition convert :: "bool \<Rightarrow> u8 \<Rightarrow> va_value list \<Rightarrow> spec \<Rightarrow> (bytes \<times> va_value list) option option" where
  "convert user ch ap sp =
     (if ch = 0x63 then Some (case ap of VInt c # ap \<Rightarrow> Some ([ucast c], ap) | _ \<Rightarrow> None)
      else if ch = 0x73 then Some (case ap of VStr p # ap \<Rightarrow> map_option (\<lambda>xs. (xs, ap)) (conv_string p sp) | _ \<Rightarrow> None)
      else if ch = 0x64 then Some (map_option (map_prod (conv_signed sp) id) (getint ap (lflag sp)))
      else if ch = 0x75 then Some (map_option (map_prod (conv_number sp 10) id) (getuint ap (lflag sp)))
      else if ch = 0x6F then Some (conv_octal user sp ap)
      else if ch = 0x70 then Some (conv_pointer sp ap)
      else if ch = 0x78 then Some (map_option (map_prod (conv_number sp 16) id) (getuint ap (lflag sp)))
      else if ch = 0x25 then Some (Some ([ch], ap))
      else None)"

text \<open>The \<open>switch\<close> with its jumps back: \<open>start\<close> is the format from behind the percent sign on, where
  an unknown sequence is taken up again.\<close>

lemma scan_width_length: "scan_width p fmt = Some (n, fmt') \<Longrightarrow> length fmt' \<le> length fmt"
  by (induction p fmt rule: scan_width.induct) (auto split: if_splits)

function escape :: "bool \<Rightarrow> bytes \<Rightarrow> bytes \<Rightarrow> va_value list \<Rightarrow> spec \<Rightarrow> (bytes \<times> bytes \<times> va_value list) option" where
  "escape user start [] ap sp = None"
| "escape user start (ch # fmt) ap sp =
     (if ch = 0x2D then escape user start fmt ap (sp\<lparr>padc := 0x2D\<rparr>)
      else if ch = 0x30 then escape user start fmt ap (sp\<lparr>padc := 0x30\<rparr>)
      else if 0x31 \<le> ch \<and> ch \<le> 0x39
      then (case scan_width (uint ch - 0x30) fmt of
              None \<Rightarrow> None
            | Some (n, fmt) \<Rightarrow> escape user start fmt ap (process_precision n sp))
      else if ch = 0x2A
      then (case ap of VInt n # ap \<Rightarrow> escape user start fmt ap (process_precision (sint n) sp) | _ \<Rightarrow> None)
      else if ch = 0x2E then escape user start fmt ap (if width sp < 0 then sp\<lparr>width := 0\<rparr> else sp)
      else if ch = 0x23 then escape user start fmt ap (sp\<lparr>altflag := True\<rparr>)
      else if ch = 0x6C then escape user start fmt ap (sp\<lparr>lflag := lflag sp + 1\<rparr>)
      else (case convert user ch ap sp of
              Some r \<Rightarrow> map_option (\<lambda>(xs, ap). (xs, fmt, ap)) r
            | None \<Rightarrow> Some ([0x25], start, ap)))"
  by pat_completeness auto
termination
  by (relation "measure (\<lambda>(user, start, fmt, ap, sp). length fmt)") (auto dest: scan_width_length)

lemma escape_length:
  "escape user start fmt ap sp = Some (xs, fmt', ap') \<Longrightarrow> length start \<le> n \<Longrightarrow> length fmt \<le> n \<Longrightarrow> length fmt' \<le> n"
proof (induction user start fmt ap sp rule: escape.induct)
  case (2 user start ch fmt ap sp)
  consider (minus) "ch = 0x2D" | (zero) "ch = 0x30" | (digit) "ch \<noteq> 0x2D" "ch \<noteq> 0x30" "0x31 \<le> ch \<and> ch \<le> 0x39" | (star) "ch = 0x2A"
    | (dot) "ch = 0x2E" | (hash) "ch = 0x23" | (ell) "ch = 0x6C"
    | (other) "ch \<noteq> 0x2D" "ch \<noteq> 0x30" "\<not> (0x31 \<le> ch \<and> ch \<le> 0x39)" "ch \<noteq> 0x2A" "ch \<noteq> 0x2E" "ch \<noteq> 0x23" "ch \<noteq> 0x6C"
    by blast
  then show ?case
  proof cases
    case digit
    from 2(8) digit obtain k f where f: "scan_width (uint ch - 0x30) fmt = Some (k, f)"
      "escape user start f ap (process_precision k sp) = Some (xs, fmt', ap')"
      by (simp split: option.splits prod.splits)
    from 2(3) [OF digit f(1) refl f(2)] 2(9,10) scan_width_length [OF f(1)] show ?thesis by simp
  next
    case star
    with 2(8) obtain c as where c: "ap = VInt c # as"
      "escape user start fmt as (process_precision (sint c) sp) = Some (xs, fmt', ap')"
      by (auto split: list.splits va_value.splits)
    from 2(4) [OF _ _ _ _ c(1) refl c(2)] star 2(9,10) show ?thesis by simp
  next
    case other
    with 2(8-10) show ?thesis by (auto split: option.splits)
  next
    case minus
    with 2(1) 2(8-10) show ?thesis by simp
  next
    case zero
    with 2(2) 2(8-10) show ?thesis by simp
  next
    case dot
    with 2(5) 2(8-10) show ?thesis by simp
  next
    case hash
    with 2(6) 2(8-10) show ?thesis by simp
  next
    case ell
    with 2(7) 2(8-10) show ?thesis by simp
  qed
qed simp

text \<open>The main loop; \<open>user\<close> selects the copy.\<close>

function format :: "bool \<Rightarrow> bytes \<Rightarrow> va_value list \<Rightarrow> bytes option" where
  "format user [] ap = None"
| "format user (ch # fmt) ap =
     (if ch = 0x25
      then (case escape user fmt fmt ap spec0 of
              None \<Rightarrow> None
            | Some (xs, fmt, ap) \<Rightarrow> map_option ((@) xs) (format user fmt ap))
      else if ch = 0 then Some []
      else map_option ((#) ch) (format user fmt ap))"
  by pat_completeness auto
termination
  by (relation "measure (\<lambda>(user, fmt, ap). length fmt)") (auto dest!: escape_length [OF _ order_refl order_refl])

definition vprintfmt :: "bytes \<Rightarrow> va_value list \<Rightarrow> bytes option" where
  "vprintfmt = format False"

definition user_vprintfmt :: "bytes \<Rightarrow> va_value list \<Rightarrow> bytes option" where
  "user_vprintfmt = format True"

section \<open>Formatting into a buffer\<close>

text \<open>The buffer with its write position and its end, as offsets, and the count of characters.\<close>

record sprintbuf =
  sp_mem :: bytes
  sp_buf :: int
  sp_ebuf :: int
  sp_cnt :: nat

definition put_at :: "bytes \<Rightarrow> int \<Rightarrow> u8 \<Rightarrow> bytes option" where
  "put_at m i c = (if 0 \<le> i \<and> i < int (length m) then Some (m[nat i := c]) else None)"

definition sprintputch :: "u8 \<Rightarrow> sprintbuf \<Rightarrow> sprintbuf option" where
  "sprintputch ch b = (let b = b\<lparr>sp_cnt := sp_cnt b + 1\<rparr> in
     if sp_buf b < sp_ebuf b
     then map_option (\<lambda>m. b\<lparr>sp_mem := m, sp_buf := sp_buf b + 1\<rparr>) (put_at (sp_mem b) (sp_buf b) ch)
     else Some b)"

primrec sprint_all :: "bytes \<Rightarrow> sprintbuf \<Rightarrow> sprintbuf option" where
  "sprint_all [] b = Some b"
| "sprint_all (ch # xs) b = Option.bind (sprintputch ch b) (sprint_all xs)"

text \<open>The result is the count and the new contents of the buffer.\<close>

definition sprint_run :: "bytes \<Rightarrow> int \<Rightarrow> bytes \<Rightarrow> va_value list \<Rightarrow> (nat \<times> bytes) option" where
  "sprint_run buf ebuf fmt ap = Option.bind (user_vprintfmt fmt ap) (\<lambda>out.
     Option.bind (sprint_all out \<lparr>sp_mem = buf, sp_buf = 0, sp_ebuf = ebuf, sp_cnt = 0\<rparr>) (\<lambda>b.
     map_option (\<lambda>m. (sp_cnt b, m)) (put_at (sp_mem b) (sp_buf b) 0)))"

text \<open>\<open>vsprintf\<close> takes the last address as the end; \<open>addr\<close> is the one of the buffer.\<close>

definition vsprintf :: "u32 \<Rightarrow> bytes \<Rightarrow> bytes \<Rightarrow> va_value list \<Rightarrow> (nat \<times> bytes) option" where
  "vsprintf addr buf fmt ap = sprint_run buf (2 ^ 32 - 1 - uint addr) fmt ap"

definition vsnprintf :: "bytes \<Rightarrow> int \<Rightarrow> bytes \<Rightarrow> va_value list \<Rightarrow> (nat \<times> bytes) option" where
  "vsnprintf buf n fmt ap = sprint_run buf (n - 1) fmt ap"

section \<open>Digits\<close>

text \<open>The digits of a number, most significant first: what \<open>printnum\<close> is to print.\<close>

function digits :: "nat \<Rightarrow> nat \<Rightarrow> nat list" where
  "digits base n = (if n \<ge> base \<and> base \<ge> 2 then digits base (n div base) else []) @ [n mod base]"
  by pat_completeness auto
termination
  by (relation "measure (\<lambda>(_, n). n)") (auto intro: div_less_dividend)

declare digits.simps [simp del]

lemma printnum_digits:
  "printnum n base wd pc = replicate (nat (wd - int (length (digits base n)))) pc @ map digit_byte (digits base n)"
proof (induction n base wd pc rule: printnum.induct)
  case (1 n base wd pc)
  show ?case
  proof (cases "n \<ge> base \<and> base \<ge> 2")
    case True
    then have "printnum n base wd pc = printnum (n div base) base (wd - 1) pc @ [digit_byte (n mod base)]"
      "digits base n = digits base (n div base) @ [n mod base]"
      by (simp_all add: printnum.simps [of n base wd pc] digits.simps [of base n])
    with 1 [OF True] show ?thesis by (simp add: algebra_simps)
  next
    case False
    have "printnum n base wd pc = replicate (nat (wd - 1)) pc @ [digit_byte (n mod base)]" "digits base n = [n mod base]"
      unfolding printnum.simps [of n base wd pc] digits.simps [of base n] if_not_P [OF False] by simp_all
    then show ?thesis by simp
  qed
qed

lemma digits_value: "base \<ge> 2 \<Longrightarrow> foldl (\<lambda>v d. v * base + d) 0 (digits base n) = n"
proof (induction base n rule: digits.induct)
  case (1 base n)
  then show ?case by (cases "n \<ge> base") (simp_all add: digits.simps [of base n])
qed

lemma digits_less: "base \<ge> 2 \<Longrightarrow> \<forall>d \<in> set (digits base n). d < base"
proof (induction base n rule: digits.induct)
  case (1 base n)
  then show ?case by (cases "n \<ge> base") (simp_all add: digits.simps [of base n])
qed

lemma digits_hd: "base \<ge> 2 \<Longrightarrow> n > 0 \<Longrightarrow> hd (digits base n) > 0"
proof (induction base n rule: digits.induct)
  case (1 base n)
  have ne: "digits base k \<noteq> []" for k by (subst digits.simps) simp
  show ?case
  proof (cases "n \<ge> base")
    case True
    with 1 have "digits base n = digits base (n div base) @ [n mod base]" "hd (digits base (n div base)) > 0"
      by (simp_all add: digits.simps [of base n] div_greater_zero_iff)
    with ne show ?thesis by simp
  next
    case False
    with 1 have "digits base n = [n]" by (simp add: digits.simps [of base n])
    with 1 show ?thesis by simp
  qed
qed

section \<open>Formatting into a bounded buffer\<close>

lemma put_at_nat: "k < length m \<Longrightarrow> put_at m (int k) c = Some (m[k := c])"
  by (simp add: put_at_def)

lemma sprint_all_eq:
  "k \<le> e \<Longrightarrow> e < length m \<Longrightarrow>
    sprint_all out \<lparr>sp_mem = m, sp_buf = int k, sp_ebuf = int e, sp_cnt = c\<rparr> =
    Some \<lparr>sp_mem = take k m @ take (e - k) out @ drop (k + min (length out) (e - k)) m,
      sp_buf = int (k + min (length out) (e - k)), sp_ebuf = int e, sp_cnt = c + length out\<rparr>"
proof (induction out arbitrary: k m c)
  case (Cons ch out)
  show ?case
  proof (cases "k < e")
    case True
    have step: "sprintputch ch \<lparr>sp_mem = m, sp_buf = int k, sp_ebuf = int e, sp_cnt = c\<rparr> =
        Some \<lparr>sp_mem = m[k := ch], sp_buf = int (Suc k), sp_ebuf = int e, sp_cnt = Suc c\<rparr>"
      using True Cons.prems by (simp add: sprintputch_def put_at_nat)
    have "take (Suc k) (m[k := ch]) = take k m @ [ch]" using True Cons.prems by (simp add: take_Suc_conv_app_nth)
    moreover have "e - k = Suc (e - Suc k)" using True by simp
    ultimately show ?thesis
      using Cons.IH [of "Suc k" "m[k := ch]" "Suc c"] True Cons.prems by (simp add: step)
  next
    case False
    then show ?thesis using Cons.IH [of k m "Suc c"] Cons.prems by (simp add: sprintputch_def)
  qed
qed simp

lemma sprint_run_eq:
  assumes "user_vprintfmt fmt ap = Some out" "e < length buf"
  shows "sprint_run buf (int e) fmt ap =
    Some (length out, take e out @ 0 # drop (Suc (min (length out) e)) buf)"
proof -
  let ?j = "min (length out) e"
  have "(take e out @ drop ?j buf)[?j := 0] = take e out @ 0 # drop (Suc ?j) buf"
    using assms(2) by (simp add: list_update_append min_def Cons_nth_drop_Suc [symmetric])
  then show ?thesis
    using assms sprint_all_eq [of 0 e buf out 0] by (simp add: sprint_run_def put_at_def)
qed

section \<open>Properties\<close>

text \<open>C31: \<open>vsnprintf\<close> never writes outside the first \<open>n\<close> bytes of the buffer: it stores the formatted text up to
  \<open>n - 1\<close> bytes, terminates it, leaves the rest as it was and returns the full length of the text.\<close>

theorem vsnprintf_bounded:
  assumes "user_vprintfmt fmt ap = Some out" "0 < n" "n \<le> length buf"
  shows "vsnprintf buf (int n) fmt ap =
    Some (length out, take (n - 1) out @ 0 # drop (Suc (min (length out) (n - 1))) buf)"
proof -
  have "int n - 1 = int (n - 1)" using assms(2) by simp
  then show ?thesis using sprint_run_eq [OF assms(1), of "n - 1" buf] assms(2,3) by (simp add: vsnprintf_def)
qed

theorem vsnprintf_bounded_witness:
  "vsnprintf [1, 2, 3, 4, 5, 6] 4 [0x61, 0x25, 0x64, 0] [VInt 1234] = Some (5, [0x61, 0x31, 0x32, 0, 5, 6])"
proof -
  have "user_vprintfmt [0x61, 0x25, 0x64, 0] [VInt 1234] = Some [0x61, 0x31, 0x32, 0x33, 0x34]"
    by (simp add: user_vprintfmt_def convert_def spec0_def conv_signed_def conv_number_def printnum.simps digit_byte_def)
  from vsnprintf_bounded [OF this, of 4 "[1, 2, 3, 4, 5, 6]"] show ?thesis by simp
qed

lemma print_conversions:
  "user_vprintfmt [0x25, 0x64, 0] [VInt n] = Some (conv_signed spec0 (scast n))"
  "user_vprintfmt [0x25, 0x78, 0] [VInt n] = Some (conv_number spec0 16 (ucast n))"
  by (simp_all add: user_vprintfmt_def convert_def spec0_def)

lemma conv_number_spec0: "conv_number spec0 base num = map digit_byte (digits base (unat num))"
  by (simp add: conv_number_def spec0_def printnum_digits)

lemma digits_0: "base \<ge> 2 \<Longrightarrow> digits base 0 = [0]"
  by (subst digits.simps) simp

lemma digits_Cons:
  assumes "base \<ge> 2"
  obtains d ds where "digits base n = d # ds" "n > 0 \<longrightarrow> d > 0" "n = 0 \<longrightarrow> ds = []"
proof (cases "digits base n")
  case Nil
  then show ?thesis by (simp add: digits.simps [of base n])
next
  case (Cons d ds)
  with that [of d ds] digits_hd [OF assms, of n] digits_0 [OF assms] show ?thesis by (cases "n = 0") auto
qed

lemma strtol_number:
  assumes "base = 10 \<or> base = 16"
  shows "strtol (map digit_byte (digits base n) @ [0]) base = Some (word_of_nat n, [0])"
    "strtol (0x2D # map digit_byte (digits base n) @ [0]) base = Some (- word_of_nat n, [0])"
proof -
  have base: "base \<ge> 2" "base \<le> 36" "base < 17" using assms by auto
  obtain d ds where ds: "digits base n = d # ds" "n > 0 \<longrightarrow> d > 0" "n = 0 \<longrightarrow> ds = []"
    by (rule digits_Cons [OF base(1), of n])
  have d: "d < 16" using digits_less [OF base(1), of n] base(3) ds(1) by auto
  have bytes: "\<forall>d \<in> set [0..<16]. digit_byte d \<notin> {0x20, 0x09, 0x2B, 0x2D} \<and> (d > 0 \<longrightarrow> digit_byte d \<noteq> 0x30)" by code_simp
  have "d \<in> set [0..<16]" using d by simp
  with bytes have b: "digit_byte d \<notin> {0x20, 0x09, 0x2B, 0x2D}" "d > 0 \<Longrightarrow> digit_byte d \<noteq> 0x30" by blast+
  have start: "strtol_base (map digit_byte (digits base n) @ [0]) base = Some (base, map digit_byte (digits base n) @ [0])"
    using b(2) ds assms by (cases "n = 0") (auto simp: strtol_base_def digit_byte_def)
  have stop: "strtol_digits (map digit_byte (digits base n) @ [0]) base 0 = Some (word_of_nat n, [0])"
    using strtol_digits_eq [OF base(2), of 0 "digits base n" "[]" 0] digits_less [OF base(1), of n] digits_value [OF base(1), of n]
    by (simp add: digit_value_def)
  show "strtol (map digit_byte (digits base n) @ [0]) base = Some (word_of_nat n, [0])"
    using b(1) start stop unfolding strtol_def ds(1) by simp
  show "strtol (0x2D # map digit_byte (digits base n) @ [0]) base = Some (- word_of_nat n, [0])"
    using start stop unfolding strtol_def by simp
qed

text \<open>A 32 bit integer after extension to 64 bits.\<close>

lemma u64_casts [simp]:
  fixes n :: u32
  shows "(ucast (scast n :: u64) :: u32) = n" "(ucast (ucast n :: u64) :: u32) = n"
    "(ucast (- w) :: u32) = - ucast (w :: u64)"
proof -
  show "(ucast (scast n :: u64) :: u32) = n" "(ucast (ucast n :: u64) :: u32) = n"
    by (rule bit_word_eqI, simp add: bit_simps)+
  have "take_bit 32 (- take_bit 64 k) = take_bit 32 (- k)" for k :: int
    using take_bit_minus [of 32 "take_bit 64 k"] take_bit_minus [of 32 k] by simp
  then show "(ucast (- w) :: u32) = - ucast (w :: u64)" by transfer simp
qed

lemma conv_signed_strtol: "strtol (conv_signed spec0 (scast (n :: u32)) @ [0]) 10 = Some (n, [0])"
  by (simp add: conv_signed_def conv_number_spec0 strtol_number)


end
