(* ===== verification/Console.thy ===== *)
theory Console
  imports Dir PrintFmt
begin

text \<open>
  The console: text screen (\<open>kern/dev/video.c\<close>), serial line (\<open>kern/dev/serial.c\<close>), keyboard
  (\<open>kern/dev/keyboard.c\<close>), the input buffer and line editor of \<open>kern/dev/console.c\<close>, and the
  kernel's formatted output (\<open>kern/lib/dprintf.c\<close>, \<open>kern/lib/debug.c\<close>).  The devices are part of
  the state: the bytes that wait at the keyboard controller and the serial line, the bytes sent
  out on the serial line, and the cells of the screen.
\<close>

definition CONSOLE_BUFFER_SIZE :: u32 where "CONSOLE_BUFFER_SIZE = 512"
definition BUFLEN :: u32 where "BUFLEN = 1024"
definition CRT_COLS :: u16 where "CRT_COLS = 80"
definition CRT_SIZE :: u16 where "CRT_SIZE = 25 * CRT_COLS"

record con = fs +
  kbd_in :: bytes
  serial_in :: bytes
  serial_out :: bytes
  serial_exists :: bool
  kbd_shift :: u32
  reset :: bool                \<comment> \<open>the reset line was pulled\<close>
  crt_buf :: "u16 list"
  crt_pos :: u16
  crt_cursor :: u16
  cons_buf :: bytes
  cons_rpos :: u32
  cons_wpos :: u32
  linebuf :: u32               \<comment> \<open>address of the line buffer\<close>
  debug_lk :: reentrantlock

section \<open>The screen\<close>

definition crt_write :: "u16 \<Rightarrow> u16 \<Rightarrow> ('a con_scheme, unit) kern" where
  "crt_write i c s = (if unat i < length (crt_buf s)
     then Inr ((), s\<lparr>crt_buf := (crt_buf s)[unat i := c]\<rparr>) else Inl OutOfBounds)"

definition set_crt_pos :: "u16 \<Rightarrow> ('a con_scheme, unit) kern" where
  "set_crt_pos p = modifyK (\<lambda>s. s\<lparr>crt_pos := p\<rparr>)"

text \<open>The initial cursor position comes from the controller.\<close>

definition video_init :: "u16 \<Rightarrow> ('a con_scheme, unit) kern" where
  "video_init pos = set_crt_pos pos"

definition with_attribute :: "u32 \<Rightarrow> u32" where
  "with_attribute c = (if c AND NOT 0xFF = 0 then c OR 0x0700 else c)"

text \<open>The cases of the \<open>switch\<close> apart from the tabulator.\<close>

definition video_switch :: "u32 \<Rightarrow> ('a con_scheme, unit) kern" where
  "video_switch c = bindK (readK crt_pos) (\<lambda>pos.
     if c AND 0xFF = 0x08
     then whenK (pos > 0) (seqK (set_crt_pos (pos - 1)) (crt_write (pos - 1) (ucast ((c AND NOT 0xFF) OR 0x20))))
     else if c AND 0xFF = 0x0A then set_crt_pos (pos + CRT_COLS - (pos + CRT_COLS) mod CRT_COLS)
     else if c AND 0xFF = 0x0D then set_crt_pos (pos - pos mod CRT_COLS)
     else seqK (crt_write pos (ucast c)) (set_crt_pos (pos + 1)))"

definition video_scroll :: "('a con_scheme, unit) kern" where
  "video_scroll = seqK (modifyK (\<lambda>s. if crt_pos s \<ge> CRT_SIZE
       then s\<lparr>crt_buf := drop (unat CRT_COLS) (crt_buf s) @ replicate (unat CRT_COLS) 0x0720,
              crt_pos := crt_pos s - CRT_COLS\<rparr>
       else s))
     (modifyK (\<lambda>s. s\<lparr>crt_cursor := crt_pos s\<rparr>))"

definition video_putc :: "u32 \<Rightarrow> ('a con_scheme, unit) kern" where
  "video_putc c =
     (if with_attribute c AND 0xFF = 0x09
      then seqK (forK [0..<5::nat] (\<lambda>_. seqK (video_switch (with_attribute 0x20)) video_scroll)) video_scroll
      else seqK (video_switch (with_attribute c)) video_scroll)"

definition video_set_cursor :: "u32 \<Rightarrow> u32 \<Rightarrow> ('a con_scheme, unit) kern" where
  "video_set_cursor x y = set_crt_pos (ucast (x * ucast CRT_COLS + y))"

definition video_clear_screen :: "('a con_scheme, unit) kern" where
  "video_clear_screen = forK [0..<unat CRT_SIZE] (\<lambda>i. crt_write (word_of_nat i) 0x20)"

section \<open>The serial line\<close>

text \<open>Waiting for the transmitter ends after 12800 polls at the latest and changes nothing.\<close>

definition serial_bytes :: "u8 \<Rightarrow> bytes" where
  "serial_bytes c = (if c = 0x0A then [0x0D, 0x0A] else [c])"

definition serial_putc :: "u8 \<Rightarrow> ('a con_scheme, unit) kern" where
  "serial_putc c = modifyK (\<lambda>s. if serial_exists s then s\<lparr>serial_out := serial_out s @ serial_bytes c\<rparr> else s)"

definition serial_proc_data :: "('a con_scheme, int) kern" where
  "serial_proc_data s = (case serial_in s of
     [] \<Rightarrow> Inr (- 1, s) | c # cs \<Rightarrow> Inr (uint c, s\<lparr>serial_in := cs\<rparr>))"

text \<open>The probe of the port, whose result is a parameter, ends with reading a pending byte.\<close>

definition serial_init :: "bool \<Rightarrow> ('a con_scheme, unit) kern" where
  "serial_init present = modifyK (\<lambda>s. s\<lparr>serial_exists := present, serial_in := tl (serial_in s)\<rparr>)"

section \<open>Output\<close>

definition cons_putc :: "u8 \<Rightarrow> ('a con_scheme, unit) kern" where
  "cons_putc c = seqK (serial_putc c) (video_putc (scast c))"

primrec cputs :: "bytes \<Rightarrow> ('a con_scheme, unit) kern" where
  "cputs [] = faultK OutOfBounds"
| "cputs (c # str) = (if c = 0 then returnK () else seqK (cons_putc c) (cputs str))"

record dprintbuf =
  idx :: nat
  cnt :: nat
  dbuf :: bytes

definition set_dbuf :: "nat \<Rightarrow> u8 \<Rightarrow> dprintbuf \<Rightarrow> dprintbuf" where
  "set_dbuf i c b = b\<lparr>dbuf := (dbuf b)[i := c]\<rparr>"

definition putch :: "u8 \<Rightarrow> dprintbuf \<Rightarrow> ('a con_scheme, dprintbuf) kern" where
  "putch ch b = (let b = (set_dbuf (idx b) ch b)\<lparr>idx := idx b + 1\<rparr> in
     if idx b = unat CONSOLE_BUFFER_SIZE - 1
     then let b = set_dbuf (idx b) 0 b in
       seqK (cputs (dbuf b)) (returnK (b\<lparr>idx := 0, cnt := cnt b + 1\<rparr>))
     else returnK (b\<lparr>cnt := cnt b + 1\<rparr>))"

primrec putch_all :: "bytes \<Rightarrow> dprintbuf \<Rightarrow> ('a con_scheme, dprintbuf) kern" where
  "putch_all [] b = returnK b"
| "putch_all (ch # xs) b = bindK (putch ch b) (putch_all xs)"

definition debug_init :: "('a con_scheme, unit) kern" where
  "debug_init = modifyK (\<lambda>s. s\<lparr>debug_lk := reentrantlock_init (debug_lk s)\<rparr>)"

definition debug_lock :: "('a con_scheme, unit) kern" where
  "debug_lock = bindK get_pcpu_idx (\<lambda>c s. case reentrantlock_acquire c (debug_lk s) of
     Inl e \<Rightarrow> Inl e | Inr (_, lk) \<Rightarrow> Inr ((), s\<lparr>debug_lk := lk\<rparr>))"

definition debug_unlock :: "('a con_scheme, unit) kern" where
  "debug_unlock = modifyK (\<lambda>s. s\<lparr>debug_lk := reentrantlock_release (debug_lk s)\<rparr>)"

text \<open>The contents of the local buffer before the first write do not matter.\<close>

definition dprintbuf0 :: dprintbuf where
  "dprintbuf0 = \<lparr>idx = 0, cnt = 0, dbuf = replicate 512 0\<rparr>"

definition vdprintf :: "bytes \<Rightarrow> va_value list \<Rightarrow> ('a con_scheme, nat) kern" where
  "vdprintf fmt ap = seqK debug_lock (bindK (bytesK (vprintfmt fmt ap)) (\<lambda>out.
     bindK (putch_all out dprintbuf0) (\<lambda>b.
     seqK (cputs (dbuf (set_dbuf (idx b) 0 b))) (seqK debug_unlock (returnK (cnt b))))))"

definition dprintf :: "bytes \<Rightarrow> va_value list \<Rightarrow> ('a con_scheme, nat) kern" where
  "dprintf fmt ap = vdprintf fmt ap"

definition debug_info :: "bytes \<Rightarrow> va_value list \<Rightarrow> ('a con_scheme, unit) kern" where
  "debug_info fmt ap = blockK [debug_lock, voidK (vdprintf fmt ap), debug_unlock]"

text \<open>A string literal as a terminated byte string.\<close>

definition lit :: "string \<Rightarrow> bytes" where
  "lit s = map of_char s @ [0]"

definition debug_message :: "string \<Rightarrow> bytes \<Rightarrow> u32 \<Rightarrow> bytes \<Rightarrow> va_value list \<Rightarrow> ('a con_scheme, unit) kern" where
  "debug_message tag fname line fmt ap = blockK [
     debug_lock,
     voidK (dprintf (lit (tag @ ''%s:%d: '')) [VStr (Some fname), VInt line]),
     voidK (vdprintf fmt ap),
     debug_unlock]"

definition debug_normal :: "bytes \<Rightarrow> u32 \<Rightarrow> bytes \<Rightarrow> va_value list \<Rightarrow> ('a con_scheme, unit) kern" where
  "debug_normal = debug_message ''[D] ''"

definition debug_warn :: "bytes \<Rightarrow> u32 \<Rightarrow> bytes \<Rightarrow> va_value list \<Rightarrow> ('a con_scheme, unit) kern" where
  "debug_warn = debug_message ''[W] ''"

section \<open>The keyboard\<close>

definition SHIFT :: u32 where "SHIFT = 1"
definition CTL :: u32 where "CTL = 2"
definition ALT :: u32 where "ALT = 4"
definition CAPSLOCK :: u32 where "CAPSLOCK = 8"
definition NUMLOCK :: u32 where "NUMLOCK = 16"
definition SCROLLLOCK :: u32 where "SCROLLLOCK = 32"
definition E0ESC :: u32 where "E0ESC = 64"
definition KEY_DEL :: u8 where "KEY_DEL = 0xE9"

definition shiftcode :: "u8 \<Rightarrow> u32" where
  "shiftcode d = (case map_of [(0x1D, CTL), (0x2A, SHIFT), (0x36, SHIFT), (0x38, ALT), (0x9D, CTL), (0xB8, ALT)] d of
     Some v \<Rightarrow> v | None \<Rightarrow> 0)"

definition togglecode :: "u8 \<Rightarrow> u32" where
  "togglecode d = (case map_of [(0x3A, CAPSLOCK), (0x45, NUMLOCK), (0x46, SCROLLLOCK)] d of
     Some v \<Rightarrow> v | None \<Rightarrow> 0)"

text \<open>The tables of characters by scan code; the entries for the cursor keys are common to them.\<close>

definition cursor_keys :: "(u8 \<times> u8) list" where
  "cursor_keys = [(0xC8, 0xE2), (0xC9, 0xE6), (0xCB, 0xE4), (0xCD, 0xE5), (0xCF, 0xE1), (0xD0, 0xE3), (0xD1, 0xE7),
     (0xD2, 0xE8), (0xD3, 0xE9)]"

definition normalmap_low :: bytes where
  "normalmap_low = [
     0, 27, 49, 50, 51, 52, 53, 54, 55, 56, 57, 48, 45, 61, 8, 9,
     113, 119, 101, 114, 116, 121, 117, 105, 111, 112, 91, 93, 10, 0, 97, 115,
     100, 102, 103, 104, 106, 107, 108, 59, 39, 96, 0, 92, 122, 120, 99, 118,
     98, 110, 109, 44, 46, 47, 0, 42, 0, 32, 0, 0, 0, 0, 0, 0,
     0, 0, 0, 0, 0, 0, 0, 55, 56, 57, 45, 52, 53, 54, 43, 49,
     50, 51, 48, 46, 0, 0, 0, 0]"

definition normalmap :: "u8 \<Rightarrow> u8" where
  "normalmap d = (if unat d < length normalmap_low then normalmap_low ! unat d
     else case map_of ([(0xC7, 0xE0), (0x9C, 10), (0xB5, 47)] @ cursor_keys) d of
       Some c \<Rightarrow> c | None \<Rightarrow> 0)"

definition shiftmap_low :: bytes where
  "shiftmap_low = [
     0, 27, 33, 64, 35, 36, 37, 94, 38, 42, 40, 41, 95, 43, 8, 9,
     81, 87, 69, 82, 84, 89, 85, 73, 79, 80, 123, 125, 10, 0, 65, 83,
     68, 70, 71, 72, 74, 75, 76, 58, 34, 126, 0, 124, 90, 88, 67, 86,
     66, 78, 77, 60, 62, 63, 0, 42, 0, 32, 0, 0, 0, 0, 0, 0,
     0, 0, 0, 0, 0, 0, 0, 55, 56, 57, 45, 52, 53, 54, 43, 49,
     50, 51, 48, 46, 0, 0, 0, 0]"

definition shiftmap :: "u8 \<Rightarrow> u8" where
  "shiftmap d = (if unat d < length shiftmap_low then shiftmap_low ! unat d
     else case map_of ([(0xC7, 0xE0), (0x9C, 10), (0xB5, 47)] @ cursor_keys) d of
       Some c \<Rightarrow> c | None \<Rightarrow> 0)"

definition ctlmap_low :: bytes where
  "ctlmap_low = [
     0, 0, 0, 0, 0, 0, 0, 0, 0, 0, 0, 0, 0, 0, 0, 0,
     17, 23, 5, 18, 20, 25, 21, 9, 15, 16, 0, 0, 13, 0, 1, 19,
     4, 6, 7, 8, 10, 11, 12, 0, 0, 0, 0, 28, 26, 24, 3, 22,
     2, 14, 13, 0, 0, 239, 0, 0]"

definition ctlmap :: "u8 \<Rightarrow> u8" where
  "ctlmap d = (if unat d < length ctlmap_low then ctlmap_low ! unat d
     else case map_of ([(0x97, 0xE0), (0xB5, 239)] @ cursor_keys) d of
       Some c \<Rightarrow> c | None \<Rightarrow> 0)"

definition charcode :: "u32 \<Rightarrow> u8 \<Rightarrow> u8" where
  "charcode m = (if m = 0 then normalmap else if m = 1 then shiftmap else ctlmap)"

definition capslock :: "u8 \<Rightarrow> u8" where
  "capslock c = (if 0x61 \<le> c \<and> c \<le> 0x7A then c - 0x20 else if 0x41 \<le> c \<and> c \<le> 0x5A then c + 0x20 else c)"

text \<open>The new modifiers and the character for a scan code, \<open>None\<close> when it completes none.\<close>

definition kbd_step :: "u32 \<Rightarrow> u8 \<Rightarrow> u32 \<times> u8 option" where
  "kbd_step sh d =
     (if d = 0xE0 then (sh OR E0ESC, None)
      else if d AND 0x80 \<noteq> 0
      then (let d = (if sh AND E0ESC \<noteq> 0 then d else d AND 0x7F) in (sh AND NOT (shiftcode d OR E0ESC), None))
      else let (d, sh) = (if sh AND E0ESC \<noteq> 0 then (d OR 0x80, sh AND NOT E0ESC) else (d, sh));
               sh = (sh OR shiftcode d) XOR togglecode d;
               c = charcode (sh AND (CTL OR SHIFT)) d in
        (sh, Some (if sh AND CAPSLOCK \<noteq> 0 then capslock c else c)))"

definition kbd_proc_data :: "('a con_scheme, int) kern" where
  "kbd_proc_data = bindK (readK kbd_in) (\<lambda>ds. case ds of
     [] \<Rightarrow> returnK (- 1)
   | d # ds \<Rightarrow> bindK (readK (\<lambda>s. kbd_step (kbd_shift s) d)) (\<lambda>(sh, r).
       seqK (modifyK (\<lambda>s. s\<lparr>kbd_in := ds, kbd_shift := sh\<rparr>))
       (case r of
          None \<Rightarrow> returnK 0
        | Some c \<Rightarrow> seqK (whenK (NOT sh AND (CTL OR ALT) = 0 \<and> c = KEY_DEL)
            (seqK (dprintf (lit (''Rebooting!'' @ [CHR 0x0A])) []) (modifyK (\<lambda>s. s\<lparr>reset := True\<rparr>))))
            (returnK (uint c)))))"

section \<open>Input\<close>

definition cons_init :: "bool \<Rightarrow> u16 \<Rightarrow> ('a con_scheme, unit) kern" where
  "cons_init present pos = blockK [
     modifyK (\<lambda>s. s\<lparr>cons_buf := replicate (unat CONSOLE_BUFFER_SIZE) 0, cons_rpos := 0, cons_wpos := 0\<rparr>),
     serial_init present,
     video_init pos,
     spinlock_init Cons_lk]"

definition cons_store :: "u8 \<Rightarrow> ('a con_scheme, unit) kern" where
  "cons_store c s = (if unat (cons_wpos s) < length (cons_buf s)
     then Inr ((), s\<lparr>cons_buf := (cons_buf s)[unat (cons_wpos s) := c],
       cons_wpos := if cons_wpos s + 1 = CONSOLE_BUFFER_SIZE then 0 else cons_wpos s + 1\<rparr>)
     else Inl OutOfBounds)"

text \<open>Each call of the device routine takes a byte from the device, so that the number of waiting
  bytes bounds the rounds.\<close>

primrec cons_intr_loop :: "nat \<Rightarrow> ('a con_scheme, int) kern \<Rightarrow> ('a con_scheme, unit) kern" where
  "cons_intr_loop 0 proc = faultK Diverge"
| "cons_intr_loop (Suc n) proc = bindK proc (\<lambda>c.
     if c = - 1 then returnK ()
     else seqK (whenK (c \<noteq> 0) (cons_store (word_of_int c))) (cons_intr_loop n proc))"

definition cons_intr :: "nat \<Rightarrow> ('a con_scheme, int) kern \<Rightarrow> ('a con_scheme, unit) kern" where
  "cons_intr n proc = critical Cons_lk (cons_intr_loop n proc)"

definition serial_intr :: "('a con_scheme, unit) kern" where
  "serial_intr = bindK (readK serial_exists) (\<lambda>e. whenK e
     (bindK (readK serial_in) (\<lambda>ds. cons_intr (Suc (length ds)) serial_proc_data)))"

definition serial_intenable :: "('a con_scheme, unit) kern" where
  "serial_intenable = bindK (readK serial_exists) (\<lambda>e. whenK e serial_intr)"

definition keyboard_intr :: "('a con_scheme, unit) kern" where
  "keyboard_intr = bindK (readK kbd_in) (\<lambda>ds. cons_intr (Suc (length ds)) kbd_proc_data)"

definition cons_fetch :: "('a con_scheme, u8) kern" where
  "cons_fetch s = (if cons_rpos s \<noteq> cons_wpos s
     then if unat (cons_rpos s) < length (cons_buf s)
       then Inr (cons_buf s ! unat (cons_rpos s),
         s\<lparr>cons_rpos := if cons_rpos s + 1 = CONSOLE_BUFFER_SIZE then 0 else cons_rpos s + 1\<rparr>)
       else Inl OutOfBounds
     else Inr (0, s))"

definition cons_getc :: "('a con_scheme, u8) kern" where
  "cons_getc = seqK serial_intr (seqK keyboard_intr (critical Cons_lk cons_fetch))"

text \<open>The buffer holds no zero byte, so that a zero means that no input is there: the caller waits
  for the user.\<close>

definition getchar :: "('a con_scheme, u8) kern" where
  "getchar = bindK cons_getc (\<lambda>c. if c = 0 then faultK Blocked else returnK c)"

definition putchar :: "u8 \<Rightarrow> ('a con_scheme, unit) kern" where
  "putchar c = cons_putc c"

definition set_line :: "u32 \<Rightarrow> u8 \<Rightarrow> ('a con_scheme, unit) kern" where
  "set_line i c = modifyK (\<lambda>s. s\<lparr>mem := (mem s)(linebuf s + i := c)\<rparr>)"

text \<open>Every round takes a byte of the input.  The result is the null pointer or the address of the
  line.\<close>

primrec readline_loop :: "nat \<Rightarrow> u32 \<Rightarrow> ('a con_scheme, u32 option) kern" where
  "readline_loop 0 i = faultK Blocked"
| "readline_loop (Suc n) i = bindK getchar (\<lambda>c.
     if sint c < 0 then seqK (dprintf (lit (''read error: %e'' @ [CHR 0x0A])) [VInt (scast c)]) (returnK None)
     else if (c = 0x08 \<or> c = 0x7F) \<and> sint i > 0 then seqK (putchar 0x08) (readline_loop n (i - 1))
     else if sint c \<ge> 0x20 \<and> sint i < sint BUFLEN - 1
     then seqK (putchar c) (seqK (set_line i c) (readline_loop n (i + 1)))
     else if c = 0x0A \<or> c = 0x0D
     then seqK (putchar 0x0A) (seqK (set_line i 0) (bindK (readK linebuf) (\<lambda>a. returnK (Some a))))
     else readline_loop n i)"

definition input_bytes :: "'a con_scheme \<Rightarrow> nat" where
  "input_bytes s = length (kbd_in s) + length (serial_in s) + length (cons_buf s)"

definition readline :: "bytes option \<Rightarrow> ('a con_scheme, u32 option) kern" where
  "readline prompt = seqK (case prompt of None \<Rightarrow> returnK 0 | Some p \<Rightarrow> dprintf (lit ''%s'') [VStr (Some p)])
     (bindK (readK input_bytes) (\<lambda>n. readline_loop (Suc n) 0))"

section \<open>Buffered output\<close>

lemma seqK_assoc: "seqK (seqK m n) k = seqK m (seqK n k)"
  by (rule ext) (simp add: seqK_def split: sum.splits prod.splits)

lemma seqK_returnK [simp]: "seqK (returnK x) m = m" "bindK (returnK x) f = f x"
  by (rule ext, simp add: seqK_def bindK_def returnK_def)+

lemma cputs_forK: "0 \<notin> set ys \<Longrightarrow> cputs (ys @ 0 # zs) = forK ys cons_putc"
  by (induction ys) auto

lemma set_dbuf_take:
  "idx b < length (dbuf b) \<Longrightarrow> dbuf (set_dbuf (idx b) c b) = take (idx b) (dbuf b) @ c # drop (Suc (idx b)) (dbuf b)"
  by (simp add: set_dbuf_def upd_conv_take_nth_drop)

lemma cputs_dbuf:
  assumes "length (dbuf b) = 512" "idx b \<le> 511" "take (idx b) (dbuf b) = ys" "0 \<notin> set ys"
  shows "cputs (dbuf (set_dbuf (idx b) 0 b)) = forK ys cons_putc"
  using assms set_dbuf_take [of b 0] cputs_forK [of ys] by simp

lemma putch_step:
  assumes "length (dbuf b) = 512" "idx b < 511" "take (idx b) (dbuf b) = ys" "0 \<notin> set ys" "c \<noteq> 0"
  obtains (full) b' where "idx b = 510" "putch c b = seqK (forK (ys @ [c]) (cons_putc :: u8 \<Rightarrow> ('a con_scheme, unit) kern)) (returnK b')"
      "length (dbuf b') = 512" "idx b' = 0" "cnt b' = Suc (cnt b)"
  | (room) b' where "idx b < 510" "putch c b = (returnK b' :: ('a con_scheme, dprintbuf) kern)" "length (dbuf b') = 512" "idx b' = Suc (idx b)"
      "take (idx b') (dbuf b') = ys @ [c]" "cnt b' = Suc (cnt b)"
proof -
  let ?b = "(set_dbuf (idx b) c b)\<lparr>idx := idx b + 1\<rparr>"
  have len: "length (dbuf ?b) = 512" "idx ?b \<le> 511" using assms by (simp_all add: set_dbuf_def)
  have tk: "take (idx ?b) (dbuf ?b) = ys @ [c]"
    using assms by (simp add: set_dbuf_def take_Suc_conv_app_nth)
  have out: "cputs (dbuf (set_dbuf (idx ?b) 0 ?b)) = forK (ys @ [c]) (cons_putc :: u8 \<Rightarrow> ('a con_scheme, unit) kern)"
    using cputs_dbuf [OF len tk] assms(4,5) by simp
  show thesis
  proof (cases "idx b = 510")
    case True
    let ?b' = "(set_dbuf (idx ?b) 0 ?b)\<lparr>idx := 0, cnt := cnt b + 1\<rparr>"
    have "putch c b = seqK (forK (ys @ [c]) (cons_putc :: u8 \<Rightarrow> ('a con_scheme, unit) kern)) (returnK ?b')"
      using out True by (simp add: putch_def Let_def CONSOLE_BUFFER_SIZE_def set_dbuf_def)
    moreover have "length (dbuf ?b') = 512" "idx ?b' = 0" "cnt ?b' = Suc (cnt b)" using len(1) by (simp_all add: set_dbuf_def)
    ultimately show thesis using full True by blast
  next
    case False
    let ?b' = "?b\<lparr>cnt := cnt b + 1\<rparr>"
    have "putch c b = (returnK ?b' :: ('a con_scheme, dprintbuf) kern)"
      using False by (simp add: putch_def Let_def CONSOLE_BUFFER_SIZE_def set_dbuf_def)
    moreover have "length (dbuf ?b') = 512" "idx ?b' = Suc (idx b)" "take (idx ?b') (dbuf ?b') = ys @ [c]" "cnt ?b' = Suc (cnt b)"
      using len(1) tk by simp_all
    ultimately show thesis using room False assms(2) by fastforce
  qed
qed

lemma putch_all_output:
  assumes "length (dbuf b) = 512" "idx b < 511" "take (idx b) (dbuf b) = ys" "0 \<notin> set ys" "0 \<notin> set xs"
  shows "bindK (putch_all xs b) (\<lambda>b. seqK (cputs (dbuf (set_dbuf (idx b) 0 b))) (k (cnt b))) =
    seqK (forK (ys @ xs) (cons_putc :: u8 \<Rightarrow> ('a con_scheme, unit) kern)) (k (cnt b + length xs))"
  using assms
proof (induction xs arbitrary: b ys)
  case Nil
  then show ?case using cputs_dbuf [of b ys, where 'a = 'a] by simp
next
  case (Cons c xs)
  from Cons.prems have "c \<noteq> 0" "0 \<notin> set xs" by auto
  with Cons.prems(1-4) show ?case
  proof (cases rule: putch_step [of b ys c, where 'a = 'a])
    case (full b')
    have "bindK (putch_all xs b') (\<lambda>b. seqK (cputs (dbuf (set_dbuf (idx b) 0 b))) (k (cnt b))) =
        seqK (forK xs (cons_putc :: u8 \<Rightarrow> ('a con_scheme, unit) kern)) (k (cnt b + Suc (length xs)))"
      using Cons.IH [of b' "[]"] full \<open>0 \<notin> set xs\<close> by simp
    then show ?thesis using full(2)
      by (simp add: bindK_assoc seqK_bindK forK_append)
  next
    case (room b')
    then show ?thesis using Cons.IH [of b' "ys @ [c]"] Cons.prems(4) \<open>c \<noteq> 0\<close> \<open>0 \<notin> set xs\<close> by (simp add: bindK_assoc)
  qed
qed

text \<open>C33: the kernel's \<open>dprintf\<close>, which collects characters in a buffer of 512 bytes and puts out full
  buffers as terminated strings, is the same routine as putting out the formatted text byte by byte
  under the debug lock, whatever the length of the text, as long as it has no zero byte.\<close>

theorem dprintf_unbuffered:
  assumes "vprintfmt fmt ap = Some out" "0 \<notin> set out"
  shows "dprintf fmt ap = seqK debug_lock (seqK (forK out (cons_putc :: u8 \<Rightarrow> ('a con_scheme, unit) kern)) (seqK debug_unlock (returnK (length out))))"
proof -
  have "bindK (putch_all out dprintbuf0) (\<lambda>b. seqK (cputs (dbuf (set_dbuf (idx b) 0 b))) (seqK debug_unlock (returnK (cnt b)))) =
      seqK (forK out (cons_putc :: u8 \<Rightarrow> ('a con_scheme, unit) kern)) (seqK debug_unlock (returnK (length out)))"
    using putch_all_output [of dprintbuf0 "[]" out "\<lambda>n. seqK debug_unlock (returnK n)"] assms(2) by (simp add: dprintbuf0_def)
  then show ?thesis by (simp add: dprintf_def vdprintf_def assms(1) bytesK_def)
qed

theorem dprintf_unbuffered_witness:
  "dprintf [0x61, 0x25, 0x64, 0] [VInt 12] = seqK debug_lock (seqK (forK [0x61, 0x31, 0x32] (cons_putc :: u8 \<Rightarrow> (con, unit) kern))
     (seqK debug_unlock (returnK 3)))"
proof -
  have "vprintfmt [0x61, 0x25, 0x64, 0] [VInt 12] = Some [0x61, 0x31, 0x32]"
    by (simp add: vprintfmt_def convert_def spec0_def conv_signed_def conv_number_def printnum.simps digit_byte_def)
  from dprintf_unbuffered [OF this] show ?thesis by (simp add: numeral_3_eq_3)
qed

section \<open>The screen\<close>

definition crt_ok :: "'a con_scheme \<Rightarrow> bool" where
  "crt_ok s \<longleftrightarrow> length (crt_buf s) = unat CRT_SIZE \<and> crt_pos s < CRT_SIZE"

lemma crt_sizes: "unat CRT_COLS = 80" "unat CRT_SIZE = 2000"
  by (simp_all add: CRT_COLS_def CRT_SIZE_def)

lemma crt_ok_unat: "crt_ok s \<longleftrightarrow> length (crt_buf s) = 2000 \<and> unat (crt_pos s) < 2000"
  by (simp add: crt_ok_def word_less_nat_alt crt_sizes)

text \<open>Positions after one character, before scrolling.\<close>

lemma line_start:
  assumes "unat p < 2080"
  shows "unat (p - p mod CRT_COLS) \<le> unat p"
proof -
  have "p mod CRT_COLS \<le> p" by (simp add: word_le_nat_alt unat_mod_distrib)
  then show ?thesis by (simp add: unat_sub word_le_nat_alt)
qed

lemma video_switch_ok:
  assumes "crt_ok s"
  obtains b p where "video_switch c s = Inr ((), s\<lparr>crt_buf := b, crt_pos := p\<rparr>)" "length b = 2000" "unat p < 2080"
proof -
  from assms have s: "length (crt_buf s) = 2000" "unat (crt_pos s) < 2000" by (simp_all add: crt_ok_unat)
  have p1: "unat (crt_pos s + 1) = unat (crt_pos s) + 1" "unat (crt_pos s + CRT_COLS) = unat (crt_pos s) + 80"
    using s(2) by (simp_all add: unat_word_ariths crt_sizes)
  have m1: "unat (crt_pos s - 1) < 2000" if "crt_pos s > 0"
    using that s(2) by (simp add: unat_sub word_less_nat_alt word_le_nat_alt)
  have ls: "unat (crt_pos s - crt_pos s mod CRT_COLS) < 2080"
      "unat (crt_pos s + CRT_COLS - (crt_pos s + CRT_COLS) mod CRT_COLS) < 2080"
    using line_start [of "crt_pos s"] line_start [of "crt_pos s + CRT_COLS"] s(2) p1(2) by linarith+
  show thesis
  proof (cases "c AND 0xFF = 0x08")
    case True
    show thesis
    proof (cases "crt_pos s > 0")
      case True
      with m1 s that [of "crt_pos s - 1" "(crt_buf s)[unat (crt_pos s - 1) := ucast ((c AND NOT 0xFF) OR 0x20)]"] \<open>c AND 0xFF = 0x08\<close>
      show thesis by (simp add: video_switch_def set_crt_pos_def crt_write_def monad_defs)
    next
      case False
      with s that [of "crt_pos s" "crt_buf s"] \<open>c AND 0xFF = 0x08\<close> show thesis by (simp add: video_switch_def monad_defs)
    qed
  next
    case False
    note nb = this
    show thesis
    proof (cases "c AND 0xFF = 0x0A \<or> c AND 0xFF = 0x0D")
      case True
      let ?q = "if c AND 0xFF = 0x0A then crt_pos s + CRT_COLS - (crt_pos s + CRT_COLS) mod CRT_COLS
        else crt_pos s - crt_pos s mod CRT_COLS"
      have run: "video_switch c s = Inr ((), s\<lparr>crt_buf := crt_buf s, crt_pos := ?q\<rparr>)"
        using nb True by (auto simp: video_switch_def set_crt_pos_def monad_defs)
      have "unat ?q < 2080" using ls by simp
      with run s(1) show thesis by (rule that)
    next
      case False
      with nb s p1(1) that [of "crt_pos s + 1" "(crt_buf s)[unat (crt_pos s) := ucast c]"]
      show thesis by (simp add: video_switch_def set_crt_pos_def crt_write_def monad_defs)
    qed
  qed
qed

lemma video_scroll_ok:
  assumes "length (crt_buf s) = 2000" "unat (crt_pos s) < 2080"
  obtains b p where "video_scroll s = Inr ((), s\<lparr>crt_buf := b, crt_pos := p, crt_cursor := p\<rparr>)" "length b = 2000" "unat p < 2000"
proof (cases "crt_pos s \<ge> CRT_SIZE")
  case True
  then have "CRT_COLS \<le> crt_pos s" by (simp add: word_le_nat_alt crt_sizes)
  then have "unat (crt_pos s - CRT_COLS) < 2000" using assms(2) by (simp add: unat_sub crt_sizes)
  with True assms that [of "crt_pos s - CRT_COLS" "drop (unat CRT_COLS) (crt_buf s) @ replicate (unat CRT_COLS) 0x0720"]
  show thesis by (simp add: video_scroll_def monad_defs crt_sizes)
next
  case False
  then have "unat (crt_pos s) < 2000" by (simp add: word_le_nat_alt crt_sizes)
  with False assms that [of "crt_pos s" "crt_buf s"] show thesis by (simp add: video_scroll_def monad_defs)
qed

text \<open>What a character on the console changes: the screen, and the serial line if there is one.\<close>

definition screen_frame :: "'a con_scheme \<Rightarrow> 'a con_scheme \<Rightarrow> bool" where
  "screen_frame s s' \<longleftrightarrow> (\<exists>b p c. s' = s\<lparr>crt_buf := b, crt_pos := p, crt_cursor := c\<rparr>)"

lemma screen_frame_refl [simp]: "screen_frame s s"
  unfolding screen_frame_def by (intro exI [of _ "crt_buf s"] exI [of _ "crt_pos s"] exI [of _ "crt_cursor s"]) simp

lemma screen_frame_trans: "screen_frame s t \<Longrightarrow> screen_frame t u \<Longrightarrow> screen_frame s u"
  by (force simp: screen_frame_def)

lemma video_char_ok:
  assumes "crt_ok s"
  shows "wpK (seqK (video_switch c) video_scroll) (\<lambda>_ s'. crt_ok s' \<and> screen_frame s s') s"
proof -
  from assms obtain b p where 1: "video_switch c s = Inr ((), s\<lparr>crt_buf := b, crt_pos := p\<rparr>)" "length b = 2000" "unat p < 2080"
    by (rule video_switch_ok)
  from 1(2,3) obtain b' p' where 2: "video_scroll (s\<lparr>crt_buf := b, crt_pos := p\<rparr>) =
      Inr ((), s\<lparr>crt_buf := b', crt_pos := p', crt_cursor := p'\<rparr>)" "length b' = 2000" "unat p' < 2000"
    by (rule video_scroll_ok [of "s\<lparr>crt_buf := b, crt_pos := p\<rparr>", simplified])
  have "screen_frame s (s\<lparr>crt_buf := b', crt_pos := p', crt_cursor := p'\<rparr>)" by (auto simp: screen_frame_def)
  with 1 2 show ?thesis by (simp add: wpK_def seqK_def crt_ok_unat)
qed

lemma video_putc_ok:
  assumes "crt_ok s"
  shows "wpK (video_putc c) (\<lambda>_ s'. crt_ok s' \<and> screen_frame s s') s"
proof (cases "with_attribute c AND 0xFF = 0x09")
  case True
  let ?I = "\<lambda>s'. crt_ok s' \<and> screen_frame s s'"
  have "wpK (forK [0..<5::nat] (\<lambda>_. seqK (video_switch (with_attribute 0x20)) video_scroll)) (\<lambda>_. ?I) s"
  proof (rule wpK_forK)
    fix t assume "?I t"
    then show "wpK (seqK (video_switch (with_attribute 0x20)) video_scroll) (\<lambda>_. ?I) t"
      by (intro wpK_mono [OF video_char_ok]) (auto intro: screen_frame_trans)
  qed (use assms in simp)
  then have "wpK (seqK (forK [0..<5::nat] (\<lambda>_. seqK (video_switch (with_attribute 0x20)) video_scroll)) video_scroll) (\<lambda>_. ?I) s"
    unfolding wpK_seqK
  proof (rule wpK_mono)
    fix t assume "?I t"
    then have t: "length (crt_buf t) = 2000" "unat (crt_pos t) < 2080" by (simp_all add: crt_ok_unat)
    then obtain b p where r: "video_scroll t = Inr ((), t\<lparr>crt_buf := b, crt_pos := p, crt_cursor := p\<rparr>)" "length b = 2000" "unat p < 2000"
      by (rule video_scroll_ok)
    have "screen_frame t (t\<lparr>crt_buf := b, crt_pos := p, crt_cursor := p\<rparr>)" by (auto simp: screen_frame_def)
    with \<open>?I t\<close> have "screen_frame s (t\<lparr>crt_buf := b, crt_pos := p, crt_cursor := p\<rparr>)" by (blast intro: screen_frame_trans)
    with r show "wpK video_scroll (\<lambda>_. ?I) t" by (simp add: wpK_def crt_ok_unat)
  qed
  with True show ?thesis by (simp add: video_putc_def)
next
  case False
  with video_char_ok [OF assms] show ?thesis by (simp add: video_putc_def)
qed

text \<open>The bytes a text adds to the serial line.\<close>

definition serial_text :: "'a con_scheme \<Rightarrow> bytes \<Rightarrow> bytes" where
  "serial_text s xs = (if serial_exists s then concat (map serial_bytes xs) else [])"

definition out_frame :: "'a con_scheme \<Rightarrow> bytes \<Rightarrow> 'a con_scheme \<Rightarrow> bool" where
  "out_frame s xs s' \<longleftrightarrow> crt_ok s' \<and> screen_frame (s\<lparr>serial_out := serial_out s @ serial_text s xs\<rparr>) s'"

lemma cons_putc_ok:
  assumes "crt_ok s"
  shows "wpK (cons_putc c) (\<lambda>_. out_frame s [c]) s"
proof -
  let ?t = "if serial_exists s then s\<lparr>serial_out := serial_out s @ serial_bytes c\<rparr> else s"
  have t: "?t = s\<lparr>serial_out := serial_out s @ serial_text s [c]\<rparr>" "crt_ok ?t"
    using assms by (simp_all add: serial_text_def crt_ok_def)
  have "wpK (video_putc (scast c)) (\<lambda>_. out_frame s [c]) ?t"
    using video_putc_ok [OF t(2)] unfolding out_frame_def t(1) .
  then show ?thesis by (simp add: cons_putc_def serial_putc_def wpK_seqK wpK_modifyK)
qed

lemma out_frame_append:
  assumes "out_frame s xs t" "out_frame t ys u"
  shows "out_frame s (xs @ ys) u"
proof -
  from assms obtain b p c where t: "t = s\<lparr>serial_out := serial_out s @ serial_text s xs, crt_buf := b, crt_pos := p, crt_cursor := c\<rparr>"
    by (auto simp: out_frame_def screen_frame_def)
  from assms obtain b' p' c' where "u = t\<lparr>serial_out := serial_out t @ serial_text t ys, crt_buf := b', crt_pos := p', crt_cursor := c'\<rparr>"
    "crt_ok u"
    by (auto simp: out_frame_def screen_frame_def)
  with t show ?thesis by (auto simp: out_frame_def screen_frame_def serial_text_def)
qed

lemma out_frame_Nil: "crt_ok s \<Longrightarrow> out_frame s [] s"
  by (simp add: out_frame_def serial_text_def)

lemma forK_cons_putc: "crt_ok s \<Longrightarrow> wpK (forK xs cons_putc) (\<lambda>_. out_frame s xs) s"
proof (induction xs arbitrary: s)
  case Nil
  then show ?case by (simp add: wpK_returnK out_frame_Nil)
next
  case (Cons c xs)
  show ?case unfolding forK.simps wpK_seqK
  proof (rule wpK_mono [OF cons_putc_ok [OF Cons.prems]])
    fix t assume t: "out_frame s [c] t"
    then have "crt_ok t" by (simp add: out_frame_def)
    from Cons.IH [OF this] show "wpK (forK xs cons_putc) (\<lambda>_. out_frame s (c # xs)) t"
      by (rule wpK_mono) (use out_frame_append [OF t] in simp)
  qed
qed

text \<open>C34: putting out any text on the console succeeds from every state in which the cursor is on the screen:
  no cell outside the 25 by 80 screen is ever written, however the text scrolls, wraps or erases; the
  cursor is on the screen again, the serial line, if there is one, has got the text with carriage
  returns, and nothing else changes.\<close>

theorem console_output_safe:
  assumes "crt_ok s"
  shows "\<exists>s'. forK xs cons_putc s = Inr ((), s') \<and> crt_ok s' \<and>
    (\<exists>b p c. s' = s\<lparr>serial_out := serial_out s @ serial_text s xs, crt_buf := b, crt_pos := p, crt_cursor := c\<rparr>)"
  using forK_cons_putc [OF assms, of xs] by (auto simp: wpK_iff out_frame_def screen_frame_def)

definition demo_con :: con where
  "demo_con = fs.extend demo_fs (con.fields [] [] [] True 0 False (replicate 2000 0) 1999 0 (replicate 512 0) 0 0 0
     \<lparr>rlock = UNLOCKED, rcount = 0\<rparr>)"

theorem console_output_safe_witness:
  "\<exists>s'. forK [0x6f, 0x6b, 0x0a] cons_putc demo_con = Inr ((), s') \<and> crt_ok s' \<and>
    (\<exists>b p c. s' = demo_con\<lparr>serial_out := [0x6f, 0x6b, 0x0d, 0x0a], crt_buf := b, crt_pos := p, crt_cursor := c\<rparr>)"
proof -
  have 1: "crt_ok demo_con" "serial_exists demo_con" "serial_out demo_con = []"
    by (simp_all add: demo_con_def fs.defs con.defs crt_ok_unat)
  then show ?thesis
    using console_output_safe [of demo_con "[0x6f, 0x6b, 0x0a]"] by (simp add: serial_text_def serial_bytes_def)
qed

end
