(* ===== verification/Intr.thy ===== *)
theory Intr
  imports Prelude
begin

text \<open>
  Entry into the kernel: the interrupt descriptor table built by \<open>kern/dev/intr.c\<close>, the entry stubs
  and the return path of \<open>kern/dev/idt.S\<close>, and the trap frame of \<open>kern/lib/trap.h\<close>.  The stack is a
  list of words with its top at the front.
\<close>

section \<open>Trap numbers\<close>

definition T_DIVIDE :: nat where "T_DIVIDE = 0"
definition T_DEBUG :: nat where "T_DEBUG = 1"
definition T_NMI :: nat where "T_NMI = 2"
definition T_BRKPT :: nat where "T_BRKPT = 3"
definition T_OFLOW :: nat where "T_OFLOW = 4"
definition T_BOUND :: nat where "T_BOUND = 5"
definition T_ILLOP :: nat where "T_ILLOP = 6"
definition T_DEVICE :: nat where "T_DEVICE = 7"
definition T_DBLFLT :: nat where "T_DBLFLT = 8"
definition T_COPROC :: nat where "T_COPROC = 9"
definition T_TSS :: nat where "T_TSS = 10"
definition T_SEGNP :: nat where "T_SEGNP = 11"
definition T_STACK :: nat where "T_STACK = 12"
definition T_GPFLT :: nat where "T_GPFLT = 13"
definition T_PGFLT :: nat where "T_PGFLT = 14"
definition T_RES :: nat where "T_RES = 15"
definition T_FPERR :: nat where "T_FPERR = 16"
definition T_ALIGN :: nat where "T_ALIGN = 17"
definition T_MCHK :: nat where "T_MCHK = 18"
definition T_SIMD :: nat where "T_SIMD = 19"
definition T_SECEV :: nat where "T_SECEV = 30"
definition T_IRQ0 :: nat where "T_IRQ0 = 32"
definition IRQ_TIMER :: nat where "IRQ_TIMER = 0"
definition IRQ_KBD :: nat where "IRQ_KBD = 1"
definition IRQ_SLAVE :: nat where "IRQ_SLAVE = 2"
definition IRQ_SERIAL24 :: nat where "IRQ_SERIAL24 = 3"
definition IRQ_SERIAL13 :: nat where "IRQ_SERIAL13 = 4"
definition IRQ_LPT2 :: nat where "IRQ_LPT2 = 5"
definition IRQ_FLOPPY :: nat where "IRQ_FLOPPY = 6"
definition IRQ_SPURIOUS :: nat where "IRQ_SPURIOUS = 7"
definition IRQ_RTC :: nat where "IRQ_RTC = 8"
definition IRQ_MOUSE :: nat where "IRQ_MOUSE = 12"
definition IRQ_COPROCESSOR :: nat where "IRQ_COPROCESSOR = 13"
definition IRQ_IDE1 :: nat where "IRQ_IDE1 = 14"
definition IRQ_IDE2 :: nat where "IRQ_IDE2 = 15"
definition IRQ_ERROR :: nat where "IRQ_ERROR = 19"
definition IRQ_EHCI_2 :: nat where "IRQ_EHCI_2 = 23"
definition T_SYSCALL :: nat where "T_SYSCALL = 48"
definition T_LTIMER :: nat where "T_LTIMER = 49"
definition T_LERROR :: nat where "T_LERROR = 50"
definition T_PERFCTR :: nat where "T_PERFCTR = 51"
definition T_DEFAULT :: nat where "T_DEFAULT = 254"

lemmas trapno_defs = T_DIVIDE_def T_DEBUG_def T_NMI_def T_BRKPT_def T_OFLOW_def T_BOUND_def T_ILLOP_def T_DEVICE_def
  T_DBLFLT_def T_COPROC_def T_TSS_def T_SEGNP_def T_STACK_def T_GPFLT_def T_PGFLT_def T_RES_def T_FPERR_def
  T_ALIGN_def T_MCHK_def T_SIMD_def T_SECEV_def T_IRQ0_def IRQ_TIMER_def IRQ_KBD_def IRQ_SLAVE_def
  IRQ_SERIAL24_def IRQ_SERIAL13_def IRQ_LPT2_def IRQ_FLOPPY_def IRQ_SPURIOUS_def IRQ_RTC_def IRQ_MOUSE_def
  IRQ_COPROCESSOR_def IRQ_IDE1_def IRQ_IDE2_def IRQ_ERROR_def IRQ_EHCI_2_def T_SYSCALL_def T_LTIMER_def
  T_LERROR_def T_PERFCTR_def T_DEFAULT_def

section \<open>Trap frames\<close>

record tf_t =
  tf_edi :: u32
  tf_esi :: u32
  tf_ebp :: u32
  tf_oesp :: u32
  tf_ebx :: u32
  tf_edx :: u32
  tf_ecx :: u32
  tf_eax :: u32
  tf_es :: u16
  tf_ds :: u16
  tf_trapno :: u32
  tf_err :: u32
  tf_eip :: u32
  tf_cs :: u16
  tf_eflags :: u32
  tf_esp :: u32
  tf_ss :: u16

section \<open>Entry stubs\<close>

datatype stub =
    Xdivide | Xdebug | Xnmi | Xbrkpt | Xoflow | Xbound | Xillop | Xdevice | Xdblflt | Xcoproc | Xtss |
    Xsegnp | Xstack | Xgpflt | Xpgflt | Xres | Xfperr | Xalign | Xmchk | Xirq_timer | Xirq_kbd | Xirq_slave |
    Xirq_serial2 | Xirq_serial1 | Xirq_lpt | Xirq_floppy | Xirq_spurious | Xirq_rtc | Xirq9 | Xirq10 |
    Xirq11 | Xirq_mouse | Xirq_coproc | Xirq_ide1 | Xirq_ide2 | Xsyscall | Xdefault

text \<open>The trap number a stub pushes, and whether it pushes a zero in place of an error code.\<close>

fun stub_trapno :: "stub \<Rightarrow> nat" where
  "stub_trapno Xdivide = T_DIVIDE"
| "stub_trapno Xdebug = T_DEBUG"
| "stub_trapno Xnmi = T_NMI"
| "stub_trapno Xbrkpt = T_BRKPT"
| "stub_trapno Xoflow = T_OFLOW"
| "stub_trapno Xbound = T_BOUND"
| "stub_trapno Xillop = T_ILLOP"
| "stub_trapno Xdevice = T_DEVICE"
| "stub_trapno Xdblflt = T_DBLFLT"
| "stub_trapno Xcoproc = T_COPROC"
| "stub_trapno Xtss = T_TSS"
| "stub_trapno Xsegnp = T_SEGNP"
| "stub_trapno Xstack = T_STACK"
| "stub_trapno Xgpflt = T_GPFLT"
| "stub_trapno Xpgflt = T_PGFLT"
| "stub_trapno Xres = T_RES"
| "stub_trapno Xfperr = T_FPERR"
| "stub_trapno Xalign = T_ALIGN"
| "stub_trapno Xmchk = T_MCHK"
| "stub_trapno Xirq_timer = T_IRQ0 + IRQ_TIMER"
| "stub_trapno Xirq_kbd = T_IRQ0 + IRQ_KBD"
| "stub_trapno Xirq_slave = T_IRQ0 + IRQ_SLAVE"
| "stub_trapno Xirq_serial2 = T_IRQ0 + IRQ_SERIAL24"
| "stub_trapno Xirq_serial1 = T_IRQ0 + IRQ_SERIAL13"
| "stub_trapno Xirq_lpt = T_IRQ0 + IRQ_LPT2"
| "stub_trapno Xirq_floppy = T_IRQ0 + IRQ_FLOPPY"
| "stub_trapno Xirq_spurious = T_IRQ0 + IRQ_SPURIOUS"
| "stub_trapno Xirq_rtc = T_IRQ0 + IRQ_RTC"
| "stub_trapno Xirq9 = T_IRQ0 + 9"
| "stub_trapno Xirq10 = T_IRQ0 + 10"
| "stub_trapno Xirq11 = T_IRQ0 + 11"
| "stub_trapno Xirq_mouse = T_IRQ0 + IRQ_MOUSE"
| "stub_trapno Xirq_coproc = T_IRQ0 + IRQ_COPROCESSOR"
| "stub_trapno Xirq_ide1 = T_IRQ0 + IRQ_IDE1"
| "stub_trapno Xirq_ide2 = T_IRQ0 + IRQ_IDE2"
| "stub_trapno Xsyscall = T_SYSCALL"
| "stub_trapno Xdefault = T_DEFAULT"

definition stub_noec :: "stub \<Rightarrow> bool" where
  "stub_noec x \<longleftrightarrow> x \<notin> {Xdblflt, Xtss, Xsegnp, Xstack, Xgpflt, Xpgflt, Xalign, Xdefault}"

text \<open>What the registers hold at the interrupt, and what the processor pushes on an interrupt from user
  mode.\<close>

definition user_frame :: "tf_t \<Rightarrow> u32 list" where
  "user_frame r = [tf_eip r, ucast (tf_cs r), tf_eflags r, tf_esp r, ucast (tf_ss r)]"

text \<open>The stack \<open>trap\<close> finds after a stub and \<open>_alltraps\<close>, on top of what the processor pushed.\<close>

definition pushal :: "tf_t \<Rightarrow> u32 list" where
  "pushal r = [tf_edi r, tf_esi r, tf_ebp r, tf_oesp r, tf_ebx r, tf_edx r, tf_ecx r, tf_eax r]"

definition alltraps :: "tf_t \<Rightarrow> u32 list \<Rightarrow> u32 list" where
  "alltraps r stk = pushal r @ [ucast (tf_es r), ucast (tf_ds r)] @ stk"

definition enter_stub :: "stub \<Rightarrow> tf_t \<Rightarrow> u32 list \<Rightarrow> u32 list" where
  "enter_stub x r stk = alltraps r (word_of_nat (stub_trapno x) # (if stub_noec x then 0 # stk else stk))"

text \<open>The frame at the top of a stack, by the layout of the structure.\<close>

definition tf_of :: "u32 list \<Rightarrow> tf_t" where
  "tf_of w = \<lparr>tf_edi = w ! 0, tf_esi = w ! 1, tf_ebp = w ! 2, tf_oesp = w ! 3, tf_ebx = w ! 4, tf_edx = w ! 5,
     tf_ecx = w ! 6, tf_eax = w ! 7, tf_es = ucast (w ! 8), tf_ds = ucast (w ! 9), tf_trapno = w ! 10, tf_err = w ! 11,
     tf_eip = w ! 12, tf_cs = ucast (w ! 13), tf_eflags = w ! 14, tf_esp = w ! 15, tf_ss = ucast (w ! 16)\<rparr>"

text \<open>\<open>trap_return\<close>: general registers without the stack pointer, segment registers, then what \<open>iret\<close>
  takes.\<close>

definition load_frame :: "tf_t \<Rightarrow> tf_t \<Rightarrow> tf_t" where
  "load_frame f r = r\<lparr>tf_edi := tf_edi f, tf_esi := tf_esi f, tf_ebp := tf_ebp f, tf_ebx := tf_ebx f,
     tf_edx := tf_edx f, tf_ecx := tf_ecx f, tf_eax := tf_eax f, tf_es := tf_es f, tf_ds := tf_ds f,
     tf_eip := tf_eip f, tf_cs := tf_cs f, tf_eflags := tf_eflags f, tf_esp := tf_esp f, tf_ss := tf_ss f\<rparr>"

section \<open>The descriptor table\<close>

record gatedesc_t =
  gd_off_15_0 :: u16
  gd_ss :: u16
  gd_args :: nat
  gd_rsv1 :: nat
  gd_type :: nat
  gd_s :: nat
  gd_dpl :: nat
  gd_p :: nat
  gd_off_31_16 :: u16

definition CPU_GDT_KCODE :: u16 where "CPU_GDT_KCODE = 8"
definition STS_IG32 :: nat where "STS_IG32 = 0xE"
definition STS_TG32 :: nat where "STS_TG32 = 0xF"

definition SETGATE :: "bool \<Rightarrow> u16 \<Rightarrow> u32 \<Rightarrow> nat \<Rightarrow> gatedesc_t" where
  "SETGATE istrap sel off dpl = \<lparr>gd_off_15_0 = ucast (off AND 0xFFFF), gd_ss = sel, gd_args = 0, gd_rsv1 = 0,
     gd_type = (if istrap then STS_TG32 else STS_IG32), gd_s = 0, gd_dpl = dpl, gd_p = 1,
     gd_off_31_16 = ucast (drop_bit 16 off)\<rparr>"

text \<open>The gates \<open>intr_init_idt\<close> installs one by one: vector, stub and privilege level.\<close>

definition idt_gates :: "(nat \<times> stub \<times> nat) list" where
  "idt_gates = [
     (T_DIVIDE, Xdivide, 0), (T_DEBUG, Xdebug, 0), (T_NMI, Xnmi, 0), (T_BRKPT, Xbrkpt, 3),
     (T_OFLOW, Xoflow, 3), (T_BOUND, Xbound, 0), (T_ILLOP, Xillop, 0), (T_DEVICE, Xdevice, 0),
     (T_DBLFLT, Xdblflt, 0), (T_TSS, Xtss, 0), (T_SEGNP, Xsegnp, 0), (T_STACK, Xstack, 0),
     (T_GPFLT, Xgpflt, 0), (T_PGFLT, Xpgflt, 0), (T_FPERR, Xfperr, 0), (T_ALIGN, Xalign, 0),
     (T_MCHK, Xmchk, 0), (T_IRQ0 + IRQ_TIMER, Xirq_timer, 0), (T_IRQ0 + IRQ_KBD, Xirq_kbd, 0),
     (T_IRQ0 + IRQ_SLAVE, Xirq_slave, 0), (T_IRQ0 + IRQ_SERIAL24, Xirq_serial2, 0),
     (T_IRQ0 + IRQ_SERIAL13, Xirq_serial1, 0), (T_IRQ0 + IRQ_LPT2, Xirq_lpt, 0),
     (T_IRQ0 + IRQ_FLOPPY, Xirq_floppy, 0), (T_IRQ0 + IRQ_SPURIOUS, Xirq_spurious, 0),
     (T_IRQ0 + IRQ_RTC, Xirq_rtc, 0), (T_IRQ0 + 9, Xirq9, 0), (T_IRQ0 + 10, Xirq10, 0),
     (T_IRQ0 + 11, Xirq11, 0), (T_IRQ0 + IRQ_MOUSE, Xirq_mouse, 0),
     (T_IRQ0 + IRQ_COPROCESSOR, Xirq_coproc, 0), (T_IRQ0 + IRQ_IDE1, Xirq_ide1, 0),
     (T_IRQ0 + IRQ_IDE2, Xirq_ide2, 0), (T_SYSCALL, Xsyscall, 3), (T_DEFAULT, Xdefault, 0)]"

text \<open>\<open>addr\<close> gives the addresses of the stubs.\<close>

definition intr_init_idt :: "(stub \<Rightarrow> u32) \<Rightarrow> gatedesc_t list" where
  "intr_init_idt addr = fold (\<lambda>(v, x, dpl) idt. idt[v := SETGATE False CPU_GDT_KCODE (addr x) dpl]) idt_gates
     (replicate 256 (SETGATE False CPU_GDT_KCODE (addr Xdefault) 0))"

text \<open>The code a gate leads to.\<close>

definition gate_offset :: "gatedesc_t \<Rightarrow> u32" where
  "gate_offset g = push_bit 16 (ucast (gd_off_31_16 g)) OR ucast (gd_off_15_0 g)"

section \<open>Looking up a gate\<close>

lemma fold_upd_length: "length (fold (\<lambda>(v, x, d) idt. idt[v := G x d]) gs idt) = length idt"
  by (induction gs arbitrary: idt) auto

lemma fold_upd_nth:
  "distinct (map fst gs) \<Longrightarrow> v < length idt \<Longrightarrow> fold (\<lambda>(v, x, d) idt. idt[v := G x d]) gs idt ! v =
    (case map_of gs v of Some (x, d) \<Rightarrow> G x d | None \<Rightarrow> idt ! v)"
proof (induction gs arbitrary: idt)
  case (Cons g gs)
  obtain w x d where g: "g = (w, x, d)" by (cases g)
  show ?case
  proof (cases "w = v")
    case True
    with Cons.prems g have "map_of gs v = None" by (auto simp: map_of_eq_None_iff)
    with Cons.IH [of "idt[w := G x d]"] Cons.prems g True show ?thesis by simp
  next
    case False
    with Cons.IH [of "idt[w := G x d]"] Cons.prems g show ?thesis by (simp split: option.split)
  qed
qed simp

lemma idt_gates_distinct: "distinct (map fst idt_gates)"
  by (simp add: idt_gates_def trapno_defs)

lemma intr_init_idt_nth:
  "v < 256 \<Longrightarrow> intr_init_idt addr ! v = (case map_of idt_gates v of
     Some (x, dpl) \<Rightarrow> SETGATE False CPU_GDT_KCODE (addr x) dpl
   | None \<Rightarrow> SETGATE False CPU_GDT_KCODE (addr Xdefault) 0)"
  unfolding intr_init_idt_def by (subst fold_upd_nth) (simp_all add: idt_gates_distinct split: option.split)

lemma gate_offset_SETGATE: "gate_offset (SETGATE t sel off dpl) = off"
proof (rule bit_word_eqI)
  fix n assume n: "n < LENGTH(32)"
  have "bit (0xFFFF :: u32) n \<longleftrightarrow> n < 16"
    using bit_mask_iff [where 'a = u32, of 16 n] n by (simp add: mask_numeral)
  then show "bit (gate_offset (SETGATE t sel off dpl)) n = bit off n"
    using n by (auto simp: gate_offset_def SETGATE_def bit_simps)
qed

text \<open>The vectors for which the processor pushes an error code, by the manual of the processor.\<close>

definition pushes_error_code :: "nat \<Rightarrow> bool" where
  "pushes_error_code v \<longleftrightarrow> v \<in> {8, 10, 11, 12, 13, 14, 17}"

definition hardware_push :: "nat \<Rightarrow> u32 \<Rightarrow> tf_t \<Rightarrow> u32 list" where
  "hardware_push v e r = (if pushes_error_code v then e # user_frame r else user_frame r)"

lemma idt_gates_stubs:
  "list_all (\<lambda>(v, x, dpl). x = Xdefault \<or> stub_trapno x = v \<and> stub_noec x = (\<not> pushes_error_code v)) idt_gates"
  by (simp add: idt_gates_def trapno_defs stub_noec_def pushes_error_code_def)

lemma u16_u32_u16 [simp]: "(ucast (ucast w :: u32) :: u16) = w" for w :: u16
  by (rule bit_word_eqI) (simp add: bit_simps)

section \<open>Properties\<close>

text \<open>C35: after \<open>intr_init_idt\<close> every gate leads to a stub of the kernel through a present interrupt gate in the
  kernel's code segment, and user code can raise only the breakpoint, overflow and system call
  vectors by itself: the other gates have privilege level 0.\<close>

theorem idt_user_gates:
  assumes "v < 256"
  shows "length (intr_init_idt addr) = 256 \<and>
    (let g = intr_init_idt addr ! v in gate_offset g \<in> range addr \<and> gd_ss g = CPU_GDT_KCODE \<and> gd_p g = 1 \<and>
      gd_type g = STS_IG32 \<and> gd_dpl g = (if v \<in> {T_BRKPT, T_OFLOW, T_SYSCALL} then 3 else 0))"
proof -
  have dpl: "(case map_of idt_gates v of Some (x, d) \<Rightarrow> d | None \<Rightarrow> 0) = (if v \<in> {T_BRKPT, T_OFLOW, T_SYSCALL} then 3 else 0)"
    by (auto simp: idt_gates_def trapno_defs)
  have "gate_offset (intr_init_idt addr ! v) \<in> range addr" "gd_ss (intr_init_idt addr ! v) = CPU_GDT_KCODE"
    "gd_p (intr_init_idt addr ! v) = 1" "gd_type (intr_init_idt addr ! v) = STS_IG32"
    "gd_dpl (intr_init_idt addr ! v) = (case map_of idt_gates v of Some (x, d) \<Rightarrow> d | None \<Rightarrow> 0)"
    using intr_init_idt_nth [OF assms, of addr]
    by (auto simp: gate_offset_SETGATE split: option.splits) (auto simp: SETGATE_def)
  with dpl show ?thesis by (simp add: Let_def intr_init_idt_def fold_upd_length)
qed

theorem idt_user_gates_witness: "gd_dpl (intr_init_idt (\<lambda>_. 0x100000) ! 48) = 3 \<and> gd_dpl (intr_init_idt (\<lambda>_. 0x100000) ! 14) = 0"
  using idt_user_gates [of 48 "\<lambda>_. 0x100000"] idt_user_gates [of 14 "\<lambda>_. 0x100000"] by (simp add: Let_def trapno_defs)


definition demo_regs :: tf_t where
  "demo_regs = \<lparr>tf_edi = 1, tf_esi = 2, tf_ebp = 3, tf_oesp = 4, tf_ebx = 5, tf_edx = 6, tf_ecx = 7, tf_eax = 8,
     tf_es = 0x23, tf_ds = 0x23, tf_trapno = 0, tf_err = 0, tf_eip = 0x40000010, tf_cs = 0x1B, tf_eflags = 0x202,
     tf_esp = 0xEFFFFFF0, tf_ss = 0x23\<rparr>"


text \<open>The default stub expects an error code, but none of the vectors that lead to it pushes one: the frame is
  off by one word, and the instruction pointer is read as the error code.\<close>

lemma default_stub_frame:
  assumes "\<not> pushes_error_code v"
  shows "tf_err (tf_of (enter_stub Xdefault r (hardware_push v e r @ stk))) = tf_eip r"
    "tf_eip (tf_of (enter_stub Xdefault r (hardware_push v e r @ stk))) = ucast (tf_cs r)"
  using assms by (simp_all add: enter_stub_def stub_noec_def alltraps_def pushal_def hardware_push_def user_frame_def tf_of_def nth_Cons')

end
