(* ===== verification/Apic.thy ===== *)
theory Apic
  imports Console Intr
begin

text \<open>
  Processor and interrupt hardware: ports and special instructions (\<open>kern/lib/x86.c\<close>), the 8259A
  (\<open>kern/dev/pic.c\<close>), the interval timer and the time stamp counter (\<open>timer.c\<close>, \<open>tsc.c\<close>, \<open>kvm.c\<close>), the local and
  the I/O interrupt controllers (\<open>lapic.c\<close>, \<open>ioapic.c\<close>) and their use by \<open>intr.c\<close>.  What a device answers is input of
  the model: a sequence of values per port or volatile register, the answers of \<open>cpuid\<close>.  What is written to a
  device is recorded.  A read beyond the given inputs waits for the device.  Messages are left out.
\<close>

section \<open>State\<close>

datatype cpu_vendor = UNKNOWN_CPU | INTEL | AMD

record pcpuinfo =
  pi_lapicid :: u32
  pi_bsp :: bool
  pi_cpuid_high :: u32
  pi_vendor :: bytes
  pi_cpu_vendor :: cpu_vendor
  pi_family :: u8
  pi_model :: u8
  pi_step :: u8
  pi_ext_family :: u8
  pi_ext_model :: u8
  pi_brand_idx :: u8
  pi_clflush_size :: u8
  pi_max_cpu_id :: u8
  pi_apic_id :: u8
  pi_feature1 :: u32
  pi_feature2 :: u32
  pi_l1_cache_size :: u32
  pi_l1_cache_line_size :: u32
  pi_cpuid_exthigh :: u32

record ioapic_ent =
  io_base :: u32
  io_id :: u8
  io_gsi :: u32

record hw = con +
  outs :: "(u16 \<times> u8) list"              \<comment> \<open>bytes written to ports, the latest first\<close>
  ins :: "u16 \<Rightarrow> u8 list"                \<comment> \<open>bytes the ports will give\<close>
  tsc_in :: "u64 list"                    \<comment> \<open>values of the time stamp counter\<close>
  cpuid_in :: "u32 \<Rightarrow> u32 \<Rightarrow> u32 \<times> u32 \<times> u32 \<times> u32"   \<comment> \<open>by leaf and subleaf\<close>
  msr_out :: "(u32 \<times> u64) list"
  pvclock_mul :: u32                      \<comment> \<open>what the hypervisor puts into its clock page\<close>
  pvclock_addr :: u32
  irqmask :: u16
  pic_inited :: bool
  lapic :: u32                            \<comment> \<open>address of the controller, 0 if unknown\<close>
  lapic_out :: "(u32 \<times> u32) list"        \<comment> \<open>register writes, the latest first\<close>
  lapic_in :: "u32 \<Rightarrow> u32 list"
  ioapics :: "ioapic_ent list"
  ioapic_regs :: "u32 \<Rightarrow> u32 \<Rightarrow> u32"     \<comment> \<open>by address and register\<close>
  tsc_per_ms :: u64
  using_apic :: bool
  stub_addr :: "stub \<Rightarrow> u32"
  idt :: "gatedesc_t list"
  idt_loaded :: bool
  arch_info :: "u32 \<Rightarrow> pcpuinfo"
  ncpu :: u32
  mp_inited :: bool
  ismp :: bool
  boot_ap_start :: u32                    \<comment> \<open>the image of the start code of further processors\<close>
  boot_ap_size :: u32
  kern_init_ap_addr :: u32

section \<open>Ports and instructions\<close>

definition outb :: "u16 \<Rightarrow> u8 \<Rightarrow> ('a hw_scheme, unit) kern" where
  "outb port v = modifyK (\<lambda>s. s\<lparr>outs := (port, v) # outs s\<rparr>)"

definition inb :: "u16 \<Rightarrow> ('a hw_scheme, u8) kern" where
  "inb port s = (case ins s port of [] \<Rightarrow> Inl Blocked | v # vs \<Rightarrow> Inr (v, s\<lparr>ins := (ins s)(port := vs)\<rparr>))"

definition rdtsc :: "('a hw_scheme, u64) kern" where
  "rdtsc s = (case tsc_in s of [] \<Rightarrow> Inl Blocked | v # vs \<Rightarrow> Inr (v, s\<lparr>tsc_in := vs\<rparr>))"

definition cpuid :: "u32 \<Rightarrow> ('a hw_scheme, u32 \<times> u32 \<times> u32 \<times> u32) kern" where
  "cpuid info = readK (\<lambda>s. cpuid_in s info 0)"

definition cpuid_subleaf :: "u32 \<Rightarrow> u32 \<Rightarrow> ('a hw_scheme, u32 \<times> u32 \<times> u32 \<times> u32) kern" where
  "cpuid_subleaf leaf subleaf = readK (\<lambda>s. cpuid_in s leaf subleaf)"

definition wrmsr :: "u32 \<Rightarrow> u64 \<Rightarrow> ('a hw_scheme, unit) kern" where
  "wrmsr msr v = modifyK (\<lambda>s. s\<lparr>msr_out := (msr, v) # msr_out s\<rparr>)"

definition CR4_OSFXSR :: u32 where "CR4_OSFXSR = 0x200"
definition CR4_OSXMMEXCPT :: u32 where "CR4_OSXMMEXCPT = 0x400"

text \<open>The new value of \<open>cr0\<close> is computed but not loaded.\<close>

definition enable_sse :: "('a hw_scheme, unit) kern" where
  "enable_sse = modifyK (\<lambda>s. s\<lparr>cr4 := cr4 s OR CR4_OSFXSR OR CR4_OSXMMEXCPT\<rparr>)"

section \<open>The 8259A\<close>

definition IO_PIC1 :: u16 where "IO_PIC1 = 0x20"
definition IO_PIC2 :: u16 where "IO_PIC2 = 0xA0"

definition pic_init :: "('a hw_scheme, unit) kern" where
  "pic_init = bindK (readK pic_inited) (\<lambda>i. whenK (\<not> i) (blockK [
     modifyK (\<lambda>s. s\<lparr>pic_inited := True\<rparr>),
     outb (IO_PIC1 + 1) 0xFF, outb (IO_PIC2 + 1) 0xFF,
     outb IO_PIC1 0x11, outb (IO_PIC1 + 1) (word_of_nat T_IRQ0), outb (IO_PIC1 + 1) (push_bit IRQ_SLAVE 1), outb (IO_PIC1 + 1) 0x1,
     outb IO_PIC2 0x11, outb (IO_PIC2 + 1) (word_of_nat (T_IRQ0 + 8)), outb (IO_PIC2 + 1) (word_of_nat IRQ_SLAVE), outb (IO_PIC2 + 1) 0x01,
     outb IO_PIC1 0x68, outb IO_PIC1 0x0A,
     outb IO_PIC2 0x68, outb IO_PIC2 0x0A,
     outb (IO_PIC1 + 1) 0xFF, outb (IO_PIC2 + 1) 0xFF]))"

definition pic_setmask :: "u16 \<Rightarrow> ('a hw_scheme, unit) kern" where
  "pic_setmask m = blockK [
     modifyK (\<lambda>s. s\<lparr>irqmask := m\<rparr>),
     outb (IO_PIC1 + 1) (ucast m),
     outb (IO_PIC2 + 1) (ucast (drop_bit 8 m))]"

definition pic_enable :: "nat \<Rightarrow> ('a hw_scheme, unit) kern" where
  "pic_enable irq = bindK (readK irqmask) (\<lambda>m. pic_setmask (m AND NOT (push_bit irq 1)))"

definition pic_eoi :: "('a hw_scheme, unit) kern" where
  "pic_eoi = seqK (outb IO_PIC1 0x20) (outb IO_PIC2 0x20)"

definition pic_reset :: "('a hw_scheme, unit) kern" where
  "pic_reset = blockK [
     outb (IO_PIC1 + 1) 0x00, outb (IO_PIC2 + 1) 0x00,
     outb IO_PIC1 0x11, outb (IO_PIC1 + 1) (word_of_nat T_IRQ0), outb (IO_PIC1 + 1) (push_bit IRQ_SLAVE 1), outb (IO_PIC1 + 1) 0x3,
     outb IO_PIC2 0x11, outb (IO_PIC2 + 1) (word_of_nat (T_IRQ0 + 8)), outb (IO_PIC2 + 1) (word_of_nat IRQ_SLAVE), outb (IO_PIC2 + 1) 0x01,
     outb IO_PIC1 0x68, outb IO_PIC1 0x0A,
     outb IO_PIC2 0x68, outb IO_PIC2 0x0A]"

section \<open>The interval timer\<close>

definition TIMER_FREQ :: u32 where "TIMER_FREQ = 1193182"
definition FREQ :: u32 where "FREQ = 100"
definition CAL_MS :: u32 where "CAL_MS = 10"
definition CAL_LATCH :: u32 where "CAL_LATCH = TIMER_FREQ div (1000 div CAL_MS)"
definition CAL_PIT_LOOPS :: nat where "CAL_PIT_LOOPS = 1000"

definition LATCH :: u32 where
  "LATCH = (TIMER_FREQ + FREQ div 2) div FREQ"

definition timer_hw_init :: "('a hw_scheme, unit) kern" where
  "timer_hw_init = blockK [outb 0x43 0x34, outb 0x40 (ucast (LATCH AND 0xFF)), outb 0x40 (ucast (drop_bit 8 LATCH AND 0xFF))]"

text \<open>Both calibrations start channel 2 of the timer and poll its output.\<close>

definition start_pit :: "u32 \<Rightarrow> ('a hw_scheme, unit) kern" where
  "start_pit latch = seqK (bindK (inb 0x61) (\<lambda>v. outb 0x61 ((v AND NOT 0x02) OR 0x01)))
     (blockK [outb 0x43 0xB0, outb 0x42 (ucast (latch AND 0xFF)), outb 0x42 (ucast (drop_bit 8 latch))])"

text \<open>Smallest and largest difference of two successive readings, their number, and the last reading.\<close>

record 'w samples =
  smin :: 'w
  smax :: 'w
  scount :: nat
  slast :: 'w

definition add_sample :: "'w::len word \<Rightarrow> 'w word \<Rightarrow> 'w word samples \<Rightarrow> 'w word samples" where
  "add_sample delta v r = \<lparr>smin = (if delta < smin r then delta else smin r), smax = (if delta > smax r then delta else smax r),
     scount = scount r + 1, slast = v\<rparr>"

definition bad_samples :: "nat \<Rightarrow> 'w::len word samples \<Rightarrow> bool" where
  "bad_samples loopmin r \<longleftrightarrow> scount r < loopmin \<or> smax r > 10 * smin r"

text \<open>Every round takes a byte of port 0x61.\<close>

primrec tsc_poll :: "nat \<Rightarrow> u64 samples \<Rightarrow> ('a hw_scheme, u64 samples) kern" where
  "tsc_poll 0 r = faultK Blocked"
| "tsc_poll (Suc k) r = bindK (inb 0x61) (\<lambda>b.
     if b AND 0x20 = 0 then bindK rdtsc (\<lambda>t2. tsc_poll k (add_sample (t2 - slast r) t2 r))
     else returnK r)"

definition tsc_calibrate :: "u32 \<Rightarrow> u32 \<Rightarrow> nat \<Rightarrow> ('a hw_scheme, u64) kern" where
  "tsc_calibrate latch ms loopmin = seqK (start_pit latch) (bindK rdtsc (\<lambda>t1.
     bindK (readK (\<lambda>s. length (ins s 0x61))) (\<lambda>k.
     bindK (tsc_poll (Suc k) \<lparr>smin = - 1, smax = 0, scount = 0, slast = t1\<rparr>) (\<lambda>r.
       returnK (if bad_samples loopmin r then - 1 else (slast r - t1) div ucast ms)))))"

primrec tsc_retry :: "nat \<Rightarrow> ('a hw_scheme, u64) kern" where
  "tsc_retry 0 = returnK (- 1)"
| "tsc_retry (Suc n) = bindK (tsc_calibrate CAL_LATCH CAL_MS CAL_PIT_LOOPS) (\<lambda>r.
     if r \<noteq> - 1 then returnK r else tsc_retry n)"

section \<open>The hypervisor's clock\<close>

definition cpu_has :: "u32 \<Rightarrow> ('a hw_scheme, bool) kern" where
  "cpu_has flag = bindK (cpuid (if flag AND 0x100 \<noteq> 0 then 7 else if flag AND 0x20 \<noteq> 0 then 0x80000001 else 1)) (\<lambda>(eax, ebx, ecx, edx).
     returnK (bit (if flag AND 0x100 \<noteq> 0 then ebx else if flag AND 0x80 \<noteq> 0 then ecx else edx) (unat (flag AND 31))))"

definition CPUID_FEATURE_HYPERVISOR :: u32 where "CPUID_FEATURE_HYPERVISOR = 0x80000000"
definition CPUID_KVM_SIGNATURE :: u32 where "CPUID_KVM_SIGNATURE = 0x40000000"
definition CPUID_KVM_FEATURES :: u32 where "CPUID_KVM_FEATURES = 0x40000001"
definition KVM_FEATURE_CLOCKSOURCE :: u32 where "KVM_FEATURE_CLOCKSOURCE = 0"
definition KVM_FEATURE_CLOCKSOURCE2 :: u32 where "KVM_FEATURE_CLOCKSOURCE2 = 3"
definition MSR_KVM_SYSTEM_TIME_NEW :: u32 where "MSR_KVM_SYSTEM_TIME_NEW = 0x4B564D01"
definition MSR_KVM_SYSTEM_TIME :: u32 where "MSR_KVM_SYSTEM_TIME = 0x12"

definition detect_kvm :: "('a hw_scheme, bool) kern" where
  "detect_kvm = bindK (cpu_has CPUID_FEATURE_HYPERVISOR) (\<lambda>h.
     if h then bindK (cpuid CPUID_KVM_SIGNATURE) (\<lambda>(eax, v0, v1, v2).
       bindK (bytesK (strncmp (lit ''KVMKVMKVM'') (bytes32 v0 @ bytes32 v1 @ bytes32 v2) 9)) (\<lambda>c. returnK (c = 0)))
     else returnK False)"

definition kvm_has_feature :: "u32 \<Rightarrow> ('a hw_scheme, bool) kern" where
  "kvm_has_feature feature = bindK (cpuid CPUID_KVM_FEATURES) (\<lambda>(eax, ebx, ecx, edx). returnK (eax AND feature \<noteq> 0))"

definition kvm_get_tsc_hz :: "('a hw_scheme, u64) kern" where
  "kvm_get_tsc_hz = bindK (kvm_has_feature KVM_FEATURE_CLOCKSOURCE2) (\<lambda>c2. bindK (kvm_has_feature KVM_FEATURE_CLOCKSOURCE) (\<lambda>c1.
     if \<not> c2 \<and> \<not> c1 then returnK 0
     else let msr = (if c2 then MSR_KVM_SYSTEM_TIME_NEW else MSR_KVM_SYSTEM_TIME) in
       bindK (readK pvclock_addr) (\<lambda>a. seqK (wrmsr msr (ucast a OR 1))
         (bindK (readK pvclock_mul) (\<lambda>m. seqK (wrmsr msr (ucast a)) (returnK (ucast m)))))))"

section \<open>The time stamp counter\<close>

definition set_tsc_per_ms :: "u64 \<Rightarrow> ('a hw_scheme, unit) kern" where
  "set_tsc_per_ms v = modifyK (\<lambda>s. s\<lparr>tsc_per_ms := v\<rparr>)"

definition tsc_init :: "('a hw_scheme, int) kern" where
  "tsc_init = seqK timer_hw_init (seqK (set_tsc_per_ms 0) (bindK detect_kvm (\<lambda>kvm.
     if kvm then bindK kvm_get_tsc_hz (\<lambda>hz. seqK (set_tsc_per_ms (hz div 1000)) (returnK 0))
     else bindK (tsc_retry 10) (\<lambda>r.
       if r = - 1 then seqK (set_tsc_per_ms 1000000) (seqK timer_hw_init (returnK 1))
       else seqK (set_tsc_per_ms r) (seqK timer_hw_init (returnK 0))))))"

text \<open>Every round takes a value of the counter.\<close>

primrec wait_tsc :: "nat \<Rightarrow> u64 \<Rightarrow> ('a hw_scheme, unit) kern" where
  "wait_tsc 0 t = faultK Blocked"
| "wait_tsc (Suc k) t = bindK rdtsc (\<lambda>v. if v < t then wait_tsc k t else returnK ())"

definition delay :: "u32 \<Rightarrow> ('a hw_scheme, unit) kern" where
  "delay ms = bindK (readK (\<lambda>s. tsc_per_ms s * ucast ms)) (\<lambda>ticks. bindK rdtsc (\<lambda>start.
     bindK (readK (\<lambda>s. length (tsc_in s))) (\<lambda>k. wait_tsc (Suc k) (start + ticks))))"

definition udelay :: "u32 \<Rightarrow> ('a hw_scheme, unit) kern" where
  "udelay us = bindK (readK (\<lambda>s. tsc_per_ms s div 1000 * ucast us)) (\<lambda>ticks. bindK rdtsc (\<lambda>start.
     bindK (readK (\<lambda>s. length (tsc_in s))) (\<lambda>k. wait_tsc (Suc k) (start + ticks))))"

section \<open>The local interrupt controller\<close>

definition LAPIC_ID :: u32 where "LAPIC_ID = 0x20 div 4"
definition LAPIC_VER :: u32 where "LAPIC_VER = 0x30 div 4"
definition LAPIC_TPR :: u32 where "LAPIC_TPR = 0x80 div 4"
definition LAPIC_EOI :: u32 where "LAPIC_EOI = 0xB0 div 4"
definition LAPIC_LDR :: u32 where "LAPIC_LDR = 0xD0 div 4"
definition LAPIC_DFR :: u32 where "LAPIC_DFR = 0xE0 div 4"
definition LAPIC_DFR_FLAT_MODE :: u32 where "LAPIC_DFR_FLAT_MODE = 0xF0000000"
definition LAPIC_SVR :: u32 where "LAPIC_SVR = 0xF0 div 4"
definition LAPIC_SVR_ENABLE :: u32 where "LAPIC_SVR_ENABLE = 0x100"
definition LAPIC_ESR :: u32 where "LAPIC_ESR = 0x280 div 4"
definition LAPIC_ICRLO :: u32 where "LAPIC_ICRLO = 0x300 div 4"
definition LAPIC_ICRLO_VECTOR :: u32 where "LAPIC_ICRLO_VECTOR = 0xFF"
definition LAPIC_ICRLO_INIT :: u32 where "LAPIC_ICRLO_INIT = 0x500"
definition LAPIC_ICRLO_STARTUP :: u32 where "LAPIC_ICRLO_STARTUP = 0x600"
definition LAPIC_ICRLO_DELIVS :: u32 where "LAPIC_ICRLO_DELIVS = 0x1000"
definition LAPIC_ICRLO_ASSERT :: u32 where "LAPIC_ICRLO_ASSERT = 0x4000"
definition LAPIC_ICRLO_LEVEL :: u32 where "LAPIC_ICRLO_LEVEL = 0x8000"
definition LAPIC_ICRLO_NOBCAST :: u32 where "LAPIC_ICRLO_NOBCAST = 0"
definition LAPIC_ICRLO_BCAST :: u32 where "LAPIC_ICRLO_BCAST = 0x80000"
definition LAPIC_ICRHI :: u32 where "LAPIC_ICRHI = 0x310 div 4"
definition LAPIC_ICRHI_DEST_MASK :: u32 where "LAPIC_ICRHI_DEST_MASK = 0xFF000000"
definition LAPIC_TIMER :: u32 where "LAPIC_TIMER = 0x320 div 4"
definition LAPIC_TIMER_X1 :: u32 where "LAPIC_TIMER_X1 = 0xB"
definition LAPIC_TIMER_PERIODIC :: u32 where "LAPIC_TIMER_PERIODIC = 0x20000"
definition LAPIC_PCINT :: u32 where "LAPIC_PCINT = 0x340 div 4"
definition APIC_LVTT_M :: u32 where "APIC_LVTT_M = 0x10000"
definition LAPIC_LINT0 :: u32 where "LAPIC_LINT0 = 0x350 div 4"
definition LAPIC_LINT1 :: u32 where "LAPIC_LINT1 = 0x360 div 4"
definition LAPIC_LINT_MASKED :: u32 where "LAPIC_LINT_MASKED = 0x10000"
definition LAPIC_ERROR :: u32 where "LAPIC_ERROR = 0x370 div 4"
definition LAPIC_TICR :: u32 where "LAPIC_TICR = 0x380 div 4"
definition LAPIC_TCCR :: u32 where "LAPIC_TCCR = 0x390 div 4"
definition LAPIC_TDCR :: u32 where "LAPIC_TDCR = 0x3E0 div 4"

text \<open>A register is at its index in an array of words.  The read that waits for a write to finish has no effect
  otherwise.\<close>

definition lapic_read :: "u32 \<Rightarrow> ('a hw_scheme, u32) kern" where
  "lapic_read i s = (if lapic s = 0 then Inl NullPointer else case lapic_in s i of
     [] \<Rightarrow> Inl Blocked | v # vs \<Rightarrow> Inr (v, s\<lparr>lapic_in := (lapic_in s)(i := vs)\<rparr>))"

definition lapic_write :: "u32 \<Rightarrow> u32 \<Rightarrow> ('a hw_scheme, unit) kern" where
  "lapic_write i v s = (if lapic s = 0 then Inl NullPointer else Inr ((), s\<lparr>lapic_out := (i, v) # lapic_out s\<rparr>))"

definition lapic_register :: "u32 \<Rightarrow> ('a hw_scheme, unit) kern" where
  "lapic_register addr = modifyK (\<lambda>s. s\<lparr>lapic := addr\<rparr>)"

primrec lapic_poll :: "nat \<Rightarrow> u32 samples \<Rightarrow> ('a hw_scheme, u32 samples) kern" where
  "lapic_poll 0 r = faultK Blocked"
| "lapic_poll (Suc k) r = bindK (inb 0x61) (\<lambda>b.
     if b AND 0x20 = 0 then bindK (lapic_read LAPIC_TCCR) (\<lambda>t2. lapic_poll k (add_sample (slast r - t2) t2 r))
     else returnK r)"

definition lapic_calibrate_timer :: "u32 \<Rightarrow> u32 \<Rightarrow> nat \<Rightarrow> ('a hw_scheme, u32) kern" where
  "lapic_calibrate_timer latch ms loopmin = seqK (lapic_write LAPIC_TICR (- 1)) (seqK (start_pit latch)
     (bindK (lapic_read LAPIC_TCCR) (\<lambda>t1. bindK (readK (\<lambda>s. length (ins s 0x61))) (\<lambda>k.
     bindK (lapic_poll (Suc k) \<lparr>smin = - 1, smax = 0, scount = 0, slast = t1\<rparr>) (\<lambda>r.
       returnK (if bad_samples loopmin r then - 1 else (t1 - slast r) div ms))))))"

primrec lapic_retry :: "nat \<Rightarrow> ('a hw_scheme, u32) kern" where
  "lapic_retry 0 = returnK (- 1)"
| "lapic_retry (Suc n) = bindK (lapic_calibrate_timer CAL_LATCH CAL_MS CAL_PIT_LOOPS) (\<lambda>r.
     if r \<noteq> - 1 then returnK r else lapic_retry n)"

text \<open>Every round takes a value of the register.\<close>

primrec wait_delivery :: "nat \<Rightarrow> ('a hw_scheme, unit) kern" where
  "wait_delivery 0 = faultK Blocked"
| "wait_delivery (Suc k) = bindK (lapic_read LAPIC_ICRLO) (\<lambda>v.
     if v AND LAPIC_ICRLO_DELIVS \<noteq> 0 then wait_delivery k else returnK ())"

definition delivered :: "('a hw_scheme, unit) kern" where
  "delivered = bindK (readK (\<lambda>s. length (lapic_in s LAPIC_ICRLO))) (\<lambda>k. wait_delivery (Suc k))"

definition lapic_init :: "('a hw_scheme, unit) kern" where
  "lapic_init = bindK (readK lapic) (\<lambda>l. seqK (blockK [
       guardK (l \<noteq> 0) (Panic ''NO LAPIC''),
       lapic_write LAPIC_SVR (LAPIC_SVR_ENABLE OR word_of_nat (T_IRQ0 + IRQ_SPURIOUS)),
       lapic_write LAPIC_TDCR LAPIC_TIMER_X1,
       lapic_write LAPIC_TIMER (LAPIC_TIMER_PERIODIC OR word_of_nat (T_IRQ0 + IRQ_TIMER))])
     (bindK (lapic_retry 5) (\<lambda>r. let per_ms = (if r = - 1 then 500000 else r) in seqK (blockK [
       lapic_write LAPIC_TICR (per_ms * 1000 div LAPIC_TIMER_INTR_FREQ),
       lapic_write LAPIC_LINT0 LAPIC_LINT_MASKED,
       lapic_write LAPIC_LINT1 LAPIC_LINT_MASKED])
     (bindK (lapic_read LAPIC_VER) (\<lambda>ver. blockK [
       whenK (drop_bit 16 ver AND 0xFF \<ge> 4) (lapic_write LAPIC_PCINT APIC_LVTT_M),
       lapic_write LAPIC_DFR LAPIC_DFR_FLAT_MODE,
       lapic_write LAPIC_LDR 0,
       lapic_write LAPIC_ERROR (word_of_nat T_LERROR),
       lapic_write LAPIC_ESR 0,
       lapic_write LAPIC_ESR 0,
       lapic_write LAPIC_EOI 0,
       lapic_write LAPIC_ICRHI 0,
       lapic_write LAPIC_ICRLO (LAPIC_ICRLO_BCAST OR LAPIC_ICRLO_INIT OR LAPIC_ICRLO_LEVEL),
       delivered,
       lapic_write LAPIC_TPR 0])))))"

definition lapic_eoi :: "('a hw_scheme, unit) kern" where
  "lapic_eoi = bindK (readK lapic) (\<lambda>l. whenK (l \<noteq> 0) (lapic_write LAPIC_EOI 0))"

definition store16 :: "u32 \<Rightarrow> u16 \<Rightarrow> memory \<Rightarrow> memory" where
  "store16 a v m = m(a := ucast v, a + 1 := ucast (drop_bit 8 v))"

text \<open>The delay between the messages is empty in the code.\<close>

definition lapic_startcpu :: "u8 \<Rightarrow> u32 \<Rightarrow> ('a hw_scheme, unit) kern" where
  "lapic_startcpu apicid addr = blockK [
     outb 0x70 0x0F, outb 0x71 0x0A,
     modifyK (\<lambda>s. s\<lparr>mem := store16 0x469 (ucast (drop_bit 4 addr)) (store16 0x467 0 (mem s))\<rparr>),
     lapic_write LAPIC_ICRHI (push_bit 24 (ucast apicid)),
     lapic_write LAPIC_ICRLO (LAPIC_ICRLO_INIT OR LAPIC_ICRLO_LEVEL OR LAPIC_ICRLO_ASSERT),
     lapic_write LAPIC_ICRLO (LAPIC_ICRLO_INIT OR LAPIC_ICRLO_LEVEL),
     forK [0..<2::nat] (\<lambda>_. seqK (lapic_write LAPIC_ICRHI (push_bit 24 (ucast apicid)))
       (lapic_write LAPIC_ICRLO (LAPIC_ICRLO_STARTUP OR drop_bit 12 addr)))]"

definition T_IPI0 :: nat where "T_IPI0 = 63"

definition lapic_send_ipi :: "u8 \<Rightarrow> u8 \<Rightarrow> u32 \<Rightarrow> u32 \<Rightarrow> ('a hw_scheme, unit) kern" where
  "lapic_send_ipi apicid vector deliver_mode shorthand_mode = blockK [
     guardK (deliver_mode \<noteq> LAPIC_ICRLO_INIT \<and> deliver_mode \<noteq> LAPIC_ICRLO_STARTUP) (Panic ''Kernel assertion failed''),
     guardK (unat vector \<ge> T_IPI0) (Panic ''Kernel assertion failed''),
     delivered,
     whenK (shorthand_mode = LAPIC_ICRLO_NOBCAST)
       (lapic_write LAPIC_ICRHI (push_bit 24 (ucast apicid) AND LAPIC_ICRHI_DEST_MASK)),
     lapic_write LAPIC_ICRLO (shorthand_mode OR deliver_mode OR (ucast vector AND LAPIC_ICRLO_VECTOR))]"

section \<open>The I/O interrupt controllers\<close>

definition MAX_IOAPIC :: nat where "MAX_IOAPIC = 16"
definition IOAPIC_ID :: u32 where "IOAPIC_ID = 0"
definition IOAPIC_VER :: u32 where "IOAPIC_VER = 1"
definition IOAPIC_TABLE :: u32 where "IOAPIC_TABLE = 0x10"
definition IOAPIC_INT_DISABLED :: u32 where "IOAPIC_INT_DISABLED = 0x10000"

definition ioapic_read :: "u32 \<Rightarrow> u32 \<Rightarrow> ('a hw_scheme, u32) kern" where
  "ioapic_read base reg = readK (\<lambda>s. ioapic_regs s base reg)"

definition ioapic_write :: "u32 \<Rightarrow> u32 \<Rightarrow> u32 \<Rightarrow> ('a hw_scheme, unit) kern" where
  "ioapic_write base reg v = modifyK (\<lambda>s. s\<lparr>ioapic_regs := (ioapic_regs s)(base := (ioapic_regs s base)(reg := v))\<rparr>)"

definition ioapic_register :: "u32 \<Rightarrow> u8 \<Rightarrow> u32 \<Rightarrow> ('a hw_scheme, unit) kern" where
  "ioapic_register addr i g = modifyK (\<lambda>s. if length (ioapics s) \<ge> MAX_IOAPIC then s
     else s\<lparr>ioapics := ioapics s @ [\<lparr>io_base = addr, io_id = i, io_gsi = g\<rparr>]\<rparr>)"

text \<open>The number of inputs of a controller, minus one.\<close>

definition ioapic_maxintr :: "u32 \<Rightarrow> ('a hw_scheme, u32) kern" where
  "ioapic_maxintr base = bindK (ioapic_read base IOAPIC_VER) (\<lambda>v. returnK (drop_bit 16 v AND 0xFF))"

definition ioapic_init :: "('a hw_scheme, unit) kern" where
  "ioapic_init = bindK (readK ioapics) (\<lambda>l. forK l (\<lambda>io.
     seqK (guardK (io_base io \<noteq> 0) (Panic ''Kernel assertion failed''))
     (bindK (ioapic_read (io_base io) IOAPIC_ID) (\<lambda>v.
     seqK (whenK ((ucast (drop_bit 24 v) :: u8) = 0) (ioapic_write (io_base io) IOAPIC_ID (push_bit 24 (ucast (io_id io)))))
     (bindK (ioapic_maxintr (io_base io)) (\<lambda>n. forK (word_range 0 (n + 1)) (\<lambda>j. seqK
       (ioapic_write (io_base io) (IOAPIC_TABLE + 2 * j) (IOAPIC_INT_DISABLED OR (word_of_nat T_IRQ0 + j)))
       (ioapic_write (io_base io) (IOAPIC_TABLE + 2 * j + 1) 0))))))))"

primrec ioapic_enable_in :: "ioapic_ent list \<Rightarrow> u8 \<Rightarrow> u8 \<Rightarrow> bool \<Rightarrow> bool \<Rightarrow> ('a hw_scheme, unit) kern" where
  "ioapic_enable_in [] irq apicid trig pol = faultK (Panic ''Cannot enable IRQ'')"
| "ioapic_enable_in (io # l) irq apicid trig pol = bindK (ioapic_maxintr (io_base io)) (\<lambda>n.
     let q = ucast irq; reg = IOAPIC_TABLE + 2 * (q - io_gsi io) in
     if sint q \<ge> sint (io_gsi io) \<and> sint q \<le> sint (io_gsi io + n)
     then seqK (ioapic_write (io_base io) reg ((push_bit 15 (if trig then 1 else 0) OR push_bit 13 (if pol then 1 else 0)) OR (word_of_nat T_IRQ0 + q)))
            (ioapic_write (io_base io) (reg + 1) (push_bit 24 (ucast apicid)))
     else ioapic_enable_in l irq apicid trig pol)"

definition ioapic_enable :: "u8 \<Rightarrow> u8 \<Rightarrow> bool \<Rightarrow> bool \<Rightarrow> ('a hw_scheme, unit) kern" where
  "ioapic_enable irq apicid trig pol = bindK (readK ioapics) (\<lambda>l. ioapic_enable_in l irq apicid trig pol)"

definition ioapic_number :: "('a hw_scheme, nat) kern" where
  "ioapic_number = readK (\<lambda>s. length (ioapics s))"

definition ioapic_get :: "nat \<Rightarrow> ('a hw_scheme, u32) kern" where
  "ioapic_get i = readK (\<lambda>s. if i \<ge> length (ioapics s) then 0 else io_base (ioapics s ! i))"

section \<open>Processors\<close>

definition pcpu_ncpu :: "('a hw_scheme, u32) kern" where
  "pcpu_ncpu = readK ncpu"

definition pcpu_is_smp :: "('a hw_scheme, bool) kern" where
  "pcpu_is_smp = readK ismp"

definition pcpu_onboot :: "('a hw_scheme, bool) kern" where
  "pcpu_onboot = bindK get_pcpu_idx (\<lambda>c. bindK (readK mp_inited) (\<lambda>i.
     if i then indexK c NUM_CPUS (readK (\<lambda>s. pi_bsp (arch_info s c))) else returnK (c = 0)))"

definition pcpu_cpu_lapicid :: "u32 \<Rightarrow> ('a hw_scheme, u8) kern" where
  "pcpu_cpu_lapicid c = bindK (readK ncpu) (\<lambda>n. seqK (guardK (0 \<le> sint c \<and> c < n) (Panic ''Kernel assertion failed''))
     (indexK c NUM_CPUS (readK (\<lambda>s. ucast (pi_lapicid (arch_info s c))))))"

section \<open>Interrupts\<close>

definition intr_init :: "('a hw_scheme, unit) kern" where
  "intr_init = bindK (cpuid 1) (\<lambda>(_, _, _, edx). seqK (modifyK (\<lambda>s. s\<lparr>using_apic := bit edx 9\<rparr>)) (seqK
     (guardK (bit edx 9) (Panic ''Kernel assertion failed'')) (bindK pcpu_onboot (\<lambda>bsp. blockK [
       whenK bsp (blockK [pic_init, ioapic_init, modifyK (\<lambda>s. s\<lparr>idt := intr_init_idt (stub_addr s)\<rparr>)]),
       lapic_init,
       modifyK (\<lambda>s. s\<lparr>idt_loaded := True\<rparr>)]))))"

definition intr_enable :: "u8 \<Rightarrow> u32 \<Rightarrow> ('a hw_scheme, unit) kern" where
  "intr_enable irq cpunum = bindK (readK ncpu) (\<lambda>n.
     seqK (guardK (cpunum = 0xFF \<or> 0 \<le> sint cpunum \<and> cpunum < n) (Panic ''Kernel assertion failed''))
     (whenK (irq < 24) (bindK (readK using_apic) (\<lambda>a.
       if a then bindK (if cpunum = 0xFF then returnK 0xFF else pcpu_cpu_lapicid cpunum) (\<lambda>l. ioapic_enable irq l False False)
       else seqK (guardK (irq < 16) (Panic ''Kernel assertion failed'')) (pic_enable (unat irq))))))"

definition intr_enable_lapicid :: "u8 \<Rightarrow> u32 \<Rightarrow> ('a hw_scheme, unit) kern" where
  "intr_enable_lapicid irq lapic_id = whenK (irq \<le> 24) (bindK (readK using_apic) (\<lambda>a.
     if a then ioapic_enable irq (if lapic_id = 0xFF then 0xFF else ucast lapic_id) False False
     else seqK (guardK (irq < 16) (Panic ''Kernel assertion failed'')) (pic_enable (unat irq))))"

definition intr_eoi :: "('a hw_scheme, unit) kern" where
  "intr_eoi = bindK (readK using_apic) (\<lambda>a. if a then lapic_eoi else pic_eoi)"

end
