(* ===== verification/CLib.thy ===== *)
theory CLib
  imports Memory
begin

text \<open>
  The C library of the kernel, \<open>kern/lib/string.c\<close> and \<open>kern/lib/types.c\<close>: block fills and
  copies through the x86 string instructions, and the functions on zero-terminated strings.
  The block routines work on physical memory; a string is the list of the bytes from its
  pointer to the end of the object it lies in, and \<open>None\<close> stands for a read past that end.
\<close>

section \<open>The string instructions\<close>

text \<open>\<open>rep stosb\<close>, \<open>rep stosl\<close>, \<open>rep movsb\<close> and \<open>rep movsl\<close> with the direction flag clear
  (\<open>cld\<close>), and the last two with the direction flag set (\<open>std\<close>).\<close>

primrec rep_stosb :: "nat \<Rightarrow> u32 \<Rightarrow> u8 \<Rightarrow> memory \<Rightarrow> memory" where
  "rep_stosb 0 d c m = m"
| "rep_stosb (Suc n) d c m = rep_stosb n (d + 1) c (m(d := c))"

primrec rep_stosl :: "nat \<Rightarrow> u32 \<Rightarrow> u32 \<Rightarrow> memory \<Rightarrow> memory" where
  "rep_stosl 0 d w m = m"
| "rep_stosl (Suc n) d w m = rep_stosl n (d + 4) w (store32 d w m)"

primrec rep_movsb :: "nat \<Rightarrow> u32 \<Rightarrow> u32 \<Rightarrow> memory \<Rightarrow> memory" where
  "rep_movsb 0 d s m = m"
| "rep_movsb (Suc n) d s m = rep_movsb n (d + 1) (s + 1) (m(d := m s))"

primrec rep_movsl :: "nat \<Rightarrow> u32 \<Rightarrow> u32 \<Rightarrow> memory \<Rightarrow> memory" where
  "rep_movsl 0 d s m = m"
| "rep_movsl (Suc n) d s m = rep_movsl n (d + 4) (s + 4) (store32 d (load32 m s) m)"

primrec rep_movsb_std :: "nat \<Rightarrow> u32 \<Rightarrow> u32 \<Rightarrow> memory \<Rightarrow> memory" where
  "rep_movsb_std 0 d s m = m"
| "rep_movsb_std (Suc n) d s m = rep_movsb_std n (d - 1) (s - 1) (m(d := m s))"

primrec rep_movsl_std :: "nat \<Rightarrow> u32 \<Rightarrow> u32 \<Rightarrow> memory \<Rightarrow> memory" where
  "rep_movsl_std 0 d s m = m"
| "rep_movsl_std (Suc n) d s m = rep_movsl_std n (d - 4) (s - 4) (store32 d (load32 m s) m)"

section \<open>Block operations\<close>

text \<open>Each of them returns its first argument; the definitions give the memory.\<close>

definition memset :: "u32 \<Rightarrow> u32 \<Rightarrow> u32 \<Rightarrow> memory \<Rightarrow> memory" where
  "memset v c n m =
     (if n = 0 then m
      else if v mod 4 = 0 \<and> n mod 4 = 0
      then let c = c AND 0xFF; c = push_bit 24 c OR push_bit 16 c OR push_bit 8 c OR c in
        rep_stosl (unat (n div 4)) v c m
      else rep_stosb (unat n) v (ucast c) m)"

definition memmove :: "u32 \<Rightarrow> u32 \<Rightarrow> u32 \<Rightarrow> memory \<Rightarrow> memory" where
  "memmove dst src n m =
     (let s = src; d = dst in
      if s < d \<and> s + n > d
      then let s = s + n; d = d + n in
        if s mod 4 = 0 \<and> d mod 4 = 0 \<and> n mod 4 = 0
        then rep_movsl_std (unat (n div 4)) (d - 4) (s - 4) m
        else rep_movsb_std (unat n) (d - 1) (s - 1) m
      else if s mod 4 = 0 \<and> d mod 4 = 0 \<and> n mod 4 = 0
        then rep_movsl (unat (n div 4)) d s m
        else rep_movsb (unat n) d s m)"

definition memcpy :: "u32 \<Rightarrow> u32 \<Rightarrow> u32 \<Rightarrow> memory \<Rightarrow> memory" where
  "memcpy dst src n m = memmove dst src n m"

definition memzero :: "u32 \<Rightarrow> u32 \<Rightarrow> memory \<Rightarrow> memory" where
  "memzero v n m = memset v 0 n m"

section \<open>What they compute\<close>

lemma unat_step:
  fixes a d :: u32
  assumes "a \<noteq> d"
  shows "unat (a - (d + 1)) = unat (a - d) - 1" "0 < unat (a - d)"
  using assms unat_minus_one [of "a - d"] unfolding diff_diff_eq [symmetric] by (simp_all add: unat_gt_0)

lemma unat_wrap: "unat (a - (a + 1)) = 2 ^ 32 - 1" for a :: u32
proof -
  have "a - (a + 1) = (- 1 :: u32)" by simp
  then show ?thesis by (simp add: unsigned_minus_1_eq_mask mask_eq_exp_minus_1)
qed

lemma rep_stosb_spec:
  "n \<le> 2 ^ 32 \<Longrightarrow> rep_stosb n d c m a = (if unat (a - d) < n then c else m a)"
proof (induction n arbitrary: d m)
  case (Suc n)
  show ?case
  proof (cases "a = d")
    case True
    with Suc show ?thesis by (simp add: unat_wrap)
  next
    case False
    with Suc unat_step [OF False] show ?thesis by auto
  qed
qed simp

lemma rep_stosb_add: "rep_stosb (n + k) d c m = rep_stosb k (d + word_of_nat n) c (rep_stosb n d c m)"
  by (induction n arbitrary: d m) (simp_all add: ac_simps)

lemma rep_stosl_bytes:
  assumes "\<And>d m. store32 d w m = rep_stosb 4 d c m"
  shows "rep_stosl k d w m = rep_stosb (4 * k) d c m"
proof (induction k arbitrary: d m)
  case (Suc k)
  have "rep_stosb (4 * Suc k) d c m = rep_stosb (4 * k) (d + 4) c (rep_stosb 4 d c m)"
    using rep_stosb_add [of 4 "4 * k" d c m] by simp
  with Suc show ?case by (simp add: assms)
qed simp

lemma replicate_byte:
  fixes c :: u32
  defines "w \<equiv> push_bit 24 (c AND 0xFF) OR push_bit 16 (c AND 0xFF) OR push_bit 8 (c AND 0xFF) OR (c AND 0xFF)"
  shows "ucast w = (ucast c :: u8)" "ucast (drop_bit 8 w) = (ucast c :: u8)"
    "ucast (drop_bit 16 w) = (ucast c :: u8)" "ucast (drop_bit 24 w) = (ucast c :: u8)"
proof -
  have mask: "(0xFF :: u32) = mask 8" by (simp add: mask_eq_exp_minus_1)
  show "ucast w = (ucast c :: u8)" "ucast (drop_bit 8 w) = (ucast c :: u8)"
    "ucast (drop_bit 16 w) = (ucast c :: u8)" "ucast (drop_bit 24 w) = (ucast c :: u8)"
    unfolding w_def mask by (rule bit_word_eqI; auto simp: bit_simps)+
qed

lemma store32_replicated:
  fixes c :: u32
  shows "store32 d (push_bit 24 (c AND 0xFF) OR push_bit 16 (c AND 0xFF) OR push_bit 8 (c AND 0xFF) OR (c AND 0xFF)) m =
    rep_stosb 4 d (ucast c) m"
proof -
  have "rep_stosb 4 d b m = m(d := b, d + 1 := b, d + 2 := b, d + 3 := b)" for b
    by (simp add: eval_nat_numeral ac_simps)
  then show ?thesis unfolding store32_def replicate_byte by simp
qed

lemma whole_words: "n mod 4 = 0 \<Longrightarrow> 4 * unat (n div 4) = unat n" for n :: u32
proof -
  assume "n mod 4 = 0"
  moreover have "unat (n mod 4) = unat n mod 4" unfolding unat_mod_distrib by simp
  ultimately have "unat n mod 4 = 0" by simp
  then show ?thesis using mult_div_mod_eq [of 4 "unat n"] unfolding unat_div_distrib by simp
qed

lemma memset_eq_stosb: "memset v c n m = rep_stosb (unat n) v (ucast c) m"
proof (cases "v mod 4 = 0 \<and> n mod 4 = 0")
  case True
  then show ?thesis
    using rep_stosl_bytes [OF store32_replicated, of "unat (n div 4)" v c m] whole_words [of n]
    by (simp add: memset_def Let_def)
qed (auto simp: memset_def)

lemma memset_apply: "memset v c n m a = (if a - v < n then ucast c else m a)"
proof -
  have "unat n \<le> 2 ^ 32" using unat_bound [of n] by simp
  then show ?thesis by (simp add: memset_eq_stosb rep_stosb_spec word_less_nat_alt)
qed

text \<open>Copying upwards is a parallel copy when no byte is overwritten before it is read.\<close>

lemma rep_movsb_spec:
  "n \<le> 2 ^ 32 \<Longrightarrow> \<not> (0 < unat (d - s) \<and> unat (d - s) < n) \<Longrightarrow>
    rep_movsb n d s m a = (if unat (a - d) < n then m (s + (a - d)) else m a)"
proof (induction n arbitrary: d s m)
  case (Suc n)
  have IH: "rep_movsb (Suc n) d s m a =
      (if unat (a - (d + 1)) < n then (m(d := m s)) (s + (a - d)) else (m(d := m s)) a)"
  proof -
    have e: "(d + 1) - (s + 1) = d - s" "s + 1 + (a - (d + 1)) = s + (a - d)" by simp_all
    show ?thesis unfolding rep_movsb.simps
      by (rule Suc.IH [where d = "d + 1" and s = "s + 1", unfolded e]) (use Suc.prems in auto)
  qed
  show ?case
  proof (cases "a = d")
    case True
    with IH Suc.prems(1) show ?thesis by (simp add: unat_wrap)
  next
    case False
    have "s + (a - d) \<noteq> d" if "unat (a - d) < Suc n"
    proof
      assume "s + (a - d) = d"
      then have "d - s = a - d" by (metis add_diff_cancel_left')
      with Suc.prems(2) unat_step(2) [OF False] that show False by simp
    qed
    with IH unat_step [OF False] False show ?thesis by auto
  qed
qed simp

lemma rep_movsb_std_spec:
  "n \<le> 2 ^ 32 \<Longrightarrow> \<not> (0 < unat (s - d) \<and> unat (s - d) < n) \<Longrightarrow>
    rep_movsb_std n d s m a = (if unat (d - a) < n then m (s - (d - a)) else m a)"
proof (induction n arbitrary: d s m)
  case (Suc n)
  have IH: "rep_movsb_std (Suc n) d s m a =
      (if unat (d - (a + 1)) < n then (m(d := m s)) (s - (d - a)) else (m(d := m s)) a)"
  proof -
    have e: "(s - 1) - (d - 1) = s - d" "s - 1 - (d - 1 - a) = s - (d - a)" "d - 1 - a = d - (a + 1)" by simp_all
    show ?thesis unfolding rep_movsb_std.simps
      by (rule Suc.IH [where d = "d - 1" and s = "s - 1", unfolded e(1,2), unfolded e(3)]) (use Suc.prems in auto)
  qed
  show ?case
  proof (cases "d = a")
    case True
    with IH Suc.prems(1) show ?thesis by (simp add: unat_wrap)
  next
    case False
    have "s - (d - a) \<noteq> d" if "unat (d - a) < Suc n"
    proof
      assume "s - (d - a) = d"
      then have "s - d = d - a" by (simp add: algebra_simps)
      with Suc.prems(2) unat_step(2) [OF False] that show False by simp
    qed
    with IH unat_step [OF False] False show ?thesis by auto
  qed
qed simp

lemma load32_bytes:
  "ucast (load32 m a) = m a" "ucast (drop_bit 8 (load32 m a)) = m (a + 1)"
  "ucast (drop_bit 16 (load32 m a)) = m (a + 2)" "ucast (drop_bit 24 (load32 m a)) = m (a + 3)"
  by (rule bit_word_eqI; auto simp: load32_def bit_simps not_less dest: bit_imp_le_length)+

lemma unat_less_4: "unat x < 4 \<longleftrightarrow> x = 0 \<or> x = 1 \<or> x = 2 \<or> x = 3" for x :: u32
  using word_less_nat_alt [of x 4]
  by (auto simp: word_unat_eq_iff)

lemma copy_word: "store32 d (load32 m s) m a = (if unat (a - d) < 4 then m (s + (a - d)) else m a)"
proof -
  have "a - d = k \<longleftrightarrow> a = d + k" for k by (auto simp: algebra_simps)
  then show ?thesis
    unfolding store32_def load32_bytes unat_less_4 by auto
qed

lemma rep_movsb_add:
  "rep_movsb (n + k) d s m = rep_movsb k (d + word_of_nat n) (s + word_of_nat n) (rep_movsb n d s m)"
  by (induction n arbitrary: d s m) (simp_all add: ac_simps)

lemma rep_movsb_std_add:
  "rep_movsb_std (n + k) d s m = rep_movsb_std k (d - word_of_nat n) (s - word_of_nat n) (rep_movsb_std n d s m)"
  by (induction n arbitrary: d s m) (simp_all add: diff_diff_eq add.commute)

lemma rep_movsl_bytes:
  "4 * k \<le> 2 ^ 32 \<Longrightarrow> \<not> (0 < unat (d - s) \<and> unat (d - s) < 4 * k) \<Longrightarrow>
    rep_movsl k d s m = rep_movsb (4 * k) d s m"
proof (induction k arbitrary: d s m)
  case (Suc k)
  have word: "store32 d (load32 m s) m = rep_movsb 4 d s m"
    using Suc.prems by (intro ext) (auto simp: copy_word rep_movsb_spec)
  have "rep_movsb (4 * Suc k) d s m = rep_movsb (4 * k) (d + 4) (s + 4) (rep_movsb 4 d s m)"
    using rep_movsb_add [of 4 "4 * k" d s m] by simp
  moreover have "d + 4 - (s + 4) = d - s" by simp
  ultimately show ?case using Suc.IH [of "d + 4" "s + 4"] Suc.prems unfolding rep_movsl.simps word by auto
qed simp

lemma rep_movsl_std_bytes:
  "4 * k \<le> 2 ^ 32 \<Longrightarrow> \<not> (0 < unat (s - d) \<and> unat (s - d) < 4 * k) \<Longrightarrow>
    rep_movsl_std k d s m = rep_movsb_std (4 * k) (d + 3) (s + 3) m"
proof (induction k arbitrary: d s m)
  case (Suc k)
  have e: "s + 3 - (d + 3) = s - d" "s + 3 - (d + 3 - a) = s + (a - d)" for a by simp_all
  have four: "unat (d + 3 - a) < 4 \<longleftrightarrow> unat (a - d) < 4" for a
    unfolding unat_less_4 by (auto simp: algebra_simps)
  have word: "store32 d (load32 m s) m = rep_movsb_std 4 (d + 3) (s + 3) m"
    using Suc.prems by (intro ext) (auto simp: copy_word rep_movsb_std_spec e four)
  have "rep_movsb_std (4 * Suc k) (d + 3) (s + 3) m =
      rep_movsb_std (4 * k) (d - 4 + 3) (s - 4 + 3) (rep_movsb_std 4 (d + 3) (s + 3) m)"
    using rep_movsb_std_add [of 4 "4 * k" "d + 3" "s + 3" m] by (simp add: algebra_simps)
  moreover have "s - 4 - (d - 4) = s - d" by simp
  ultimately show ?case using Suc.IH [of "s - 4" "d - 4"] Suc.prems unfolding rep_movsl_std.simps word by auto
qed simp

lemma unat_diff_overlap:
  fixes s d :: u32
  shows "d \<le> s \<Longrightarrow> unat (s - d) = unat s - unat d"
    "s < d \<Longrightarrow> unat (s - d) = 2 ^ 32 + unat s - unat d"
  by (auto simp: unat_sub_if_size word_le_nat_alt word_less_nat_alt word_size)

lemma forward_safe:
  fixes src dst n :: u32
  assumes "unat src + unat n \<le> 2 ^ 32" "unat dst + unat n \<le> 2 ^ 32" "\<not> (src < dst \<and> src + n > dst)"
  shows "\<not> (0 < unat (dst - src) \<and> unat (dst - src) < unat n)"
proof (cases "src < dst")
  case True
  then have lt: "unat src + unat n < 2 ^ 32" using assms by (simp add: word_less_nat_alt)
  then have "unat (src + n) = unat src + unat n" by (simp add: unat_word_ariths)
  with True assms(3) lt unat_diff_overlap(1) [of src dst] show ?thesis
    by (simp add: word_less_nat_alt word_le_nat_alt)
next
  case False
  then consider "src = dst" | "dst < src" by fastforce
  then show ?thesis
    using assms(1) unat_diff_overlap(2) [of dst src] by cases auto
qed

lemma rev_offset:
  fixes n x :: u32
  assumes "n \<noteq> 0"
  shows "unat (n - 1 - x) < unat n \<longleftrightarrow> x < n"
  using assms unat_minus_one [of n] unat_gt_0 [of n] unat_bound [of x] unat_bound [of n]
  by (auto simp: unat_sub_if_size word_less_nat_alt word_le_nat_alt word_size)

lemma memmove_eq_bytes:
  assumes "unat src + unat n \<le> 2 ^ 32" "unat dst + unat n \<le> 2 ^ 32"
  shows "memmove dst src n m =
    (if src < dst \<and> src + n > dst then rep_movsb_std (unat n) (dst + n - 1) (src + n - 1) m
     else rep_movsb (unat n) dst src m)"
proof -
  have n: "unat n \<le> 2 ^ 32" using assms by simp
  show ?thesis
  proof (cases "src < dst \<and> src + n > dst")
    case True
    have "unat (src - dst) \<ge> unat n"
      using True assms unat_diff_overlap(2) [of src dst] by (simp add: word_less_nat_alt)
    then have "n mod 4 = 0 \<Longrightarrow> rep_movsl_std (unat (n div 4)) (dst + n - 4) (src + n - 4) m =
        rep_movsb_std (unat n) (dst + n - 1) (src + n - 1) m"
      using n whole_words [of n] rep_movsl_std_bytes [of "unat (n div 4)" "src + n - 4" "dst + n - 4" m]
      by simp
    with True show ?thesis by (simp add: memmove_def Let_def)
  next
    case False
    from forward_safe [OF assms False]
    have "n mod 4 = 0 \<Longrightarrow> rep_movsl (unat (n div 4)) dst src m = rep_movsb (unat n) dst src m"
      using n whole_words [of n] rep_movsl_bytes [of "unat (n div 4)" dst src m]
      by simp
    then show ?thesis unfolding memmove_def Let_def if_not_P [OF False] by simp
  qed
qed

lemma memmove_apply:
  assumes "unat src + unat n \<le> 2 ^ 32" "unat dst + unat n \<le> 2 ^ 32"
  shows "memmove dst src n m a = (if a - dst < n then m (src + (a - dst)) else m a)"
proof -
  have n: "unat n \<le> 2 ^ 32" using assms by simp
  show ?thesis
  proof (cases "src < dst \<and> src + n > dst")
    case True
    let ?x = "a - dst"
    have "unat (src - dst) \<ge> unat n"
      using True assms unat_diff_overlap(2) [of src dst] by (simp add: word_less_nat_alt)
    moreover have "src + n - 1 - (dst + n - 1) = src - dst" by simp
    ultimately have "memmove dst src n m a =
        (if unat (dst + n - 1 - a) < unat n then m (src + n - 1 - (dst + n - 1 - a)) else m a)"
      using rep_movsb_std_spec [OF n, of "src + n - 1" "dst + n - 1" m a] True
      by (simp only: memmove_eq_bytes [OF assms] if_True) simp
    moreover have "dst + n - 1 - a = n - 1 - ?x" "src + n - 1 - (dst + n - 1 - a) = src + ?x" by simp_all
    moreover have "n \<noteq> 0" using True by auto
    then have "unat (n - 1 - ?x) < unat n \<longleftrightarrow> ?x < n"
      by (rule rev_offset)
    ultimately show ?thesis by simp
  next
    case False
    have "\<not> (0 < unat (dst - src) \<and> unat (dst - src) < unat n)"
      by (rule forward_safe [OF assms False])
    with n show ?thesis
      unfolding memmove_eq_bytes [OF assms] if_not_P [OF False] by (simp add: rep_movsb_spec word_less_nat_alt)
  qed
qed

section \<open>Properties\<close>

text \<open>C17: when neither area wraps around the address space, \<open>memmove\<close> and \<open>memcpy\<close> compute the parallel
  copy, whatever the alignment and however the areas overlap: every destination byte gets what the
  corresponding source byte held before the call, and no other byte changes.\<close>

theorem memmove_correct:
  assumes "unat src + unat n \<le> 2 ^ 32" "unat dst + unat n \<le> 2 ^ 32"
  shows "memmove dst src n m = (\<lambda>a. if a - dst < n then m (src + (a - dst)) else m a) \<and>
    memcpy dst src n m = memmove dst src n m"
  by (simp add: fun_eq_iff memmove_apply [OF assms] memcpy_def)

theorem memmove_correct_witness:
  "memmove 0x1002 0x1000 8 ucast 0x1005 = 3 \<and> memmove 0x1002 0x1000 8 ucast 0x1001 = 1"
  using memmove_correct [where src = "0x1000" and n = 8 and dst = "0x1002" and m = ucast] by simp

text \<open>C18: \<open>memset\<close> and \<open>memzero\<close> fill exactly the given bytes, for every alignment and length.\<close>

theorem memset_correct:
  "memset v c n m = (\<lambda>a. if a - v < n then ucast c else m a) \<and>
   memzero v n m = (\<lambda>a. if a - v < n then 0 else m a)"
  by (simp add: fun_eq_iff memset_apply memzero_def)

end
