(* ===== verification/PMap.thy ===== *)
theory PMap
  imports VMInit CLib CString
begin

text \<open>
  Access of the kernel to the memory of user processes, \<open>kern/lib/pmap.c\<close>, and the ELF loader,
  \<open>kern/lib/elf.c\<close>.  The kernel runs on the identity mapping, so its pointers are physical
  addresses; the areas below \<open>VM_USERLO\<close> hold the kernel's own buffers.
\<close>

section \<open>Copying between user and kernel memory\<close>

text \<open>The part the three routines share: the physical address of a user address, allocating the
  page if it is absent, and the number of bytes up to the end of the page.\<close>

definition user_pa :: "u32 \<Rightarrow> u32 \<Rightarrow> ('a vmm_scheme, u32) kern" where
  "user_pa pmap_id uva = bindK (get_ptbl_entry_by_va pmap_id uva) (\<lambda>uva_pa.
     bindK (if uva_pa AND PTE_P = 0
            then seqK (voidK (alloc_page pmap_id uva (PTE_P OR PTE_U OR PTE_W)))
                   (get_ptbl_entry_by_va pmap_id uva)
            else returnK uva_pa)
       (\<lambda>uva_pa. returnK ((uva_pa AND 0xfffff000) + uva mod PAGESIZE)))"

definition chunk :: "u32 \<Rightarrow> u32 \<Rightarrow> u32" where
  "chunk len pa = (if len < PAGESIZE - pa mod PAGESIZE then len else PAGESIZE - pa mod PAGESIZE)"

text \<open>Every round handles at least one byte, so \<open>len\<close> rounds are enough.\<close>

primrec copyin_loop :: "nat \<Rightarrow> u32 \<Rightarrow> u32 \<Rightarrow> u32 \<Rightarrow> u32 \<Rightarrow> u32 \<Rightarrow> ('a vmm_scheme, u32) kern" where
  "copyin_loop 0 pmap_id uva kva len copied = (if len = 0 then returnK copied else faultK Diverge)"
| "copyin_loop (Suc fuel) pmap_id uva kva len copied =
     (if len = 0 then returnK copied
      else bindK (user_pa pmap_id uva) (\<lambda>uva_pa.
        let sz = chunk len uva_pa in
        seqK (modifyK (\<lambda>s. s\<lparr>mem := memcpy kva uva_pa sz (mem s)\<rparr>))
          (copyin_loop fuel pmap_id (uva + sz) (kva + sz) (len - sz) (copied + sz))))"

definition pt_copyin :: "u32 \<Rightarrow> u32 \<Rightarrow> u32 \<Rightarrow> u32 \<Rightarrow> ('a vmm_scheme, u32) kern" where
  "pt_copyin pmap_id uva kva len =
     (if \<not> (VM_USERLO \<le> uva \<and> uva + len \<le> VM_USERHI) then returnK 0
      else if kva + len > VM_USERHI then returnK 0
      else copyin_loop (unat len) pmap_id uva kva len 0)"

primrec copyout_loop :: "nat \<Rightarrow> u32 \<Rightarrow> u32 \<Rightarrow> u32 \<Rightarrow> u32 \<Rightarrow> u32 \<Rightarrow> ('a vmm_scheme, u32) kern" where
  "copyout_loop 0 kva pmap_id uva len copied = (if len = 0 then returnK copied else faultK Diverge)"
| "copyout_loop (Suc fuel) kva pmap_id uva len copied =
     (if len = 0 then returnK copied
      else bindK (user_pa pmap_id uva) (\<lambda>uva_pa.
        let sz = chunk len uva_pa in
        seqK (modifyK (\<lambda>s. s\<lparr>mem := memcpy uva_pa kva sz (mem s)\<rparr>))
          (copyout_loop fuel (kva + sz) pmap_id (uva + sz) (len - sz) (copied + sz))))"

definition pt_copyout :: "u32 \<Rightarrow> u32 \<Rightarrow> u32 \<Rightarrow> u32 \<Rightarrow> ('a vmm_scheme, u32) kern" where
  "pt_copyout kva pmap_id uva len =
     (if \<not> (VM_USERLO \<le> uva \<and> uva + len \<le> VM_USERHI) then returnK 0
      else if kva + len > VM_USERHI then returnK 0
      else copyout_loop (unat len) kva pmap_id uva len 0)"

primrec memset_loop :: "nat \<Rightarrow> u32 \<Rightarrow> u32 \<Rightarrow> u8 \<Rightarrow> u32 \<Rightarrow> u32 \<Rightarrow> ('a vmm_scheme, u32) kern" where
  "memset_loop 0 pmap_id va c len done_n = (if len = 0 then returnK done_n else faultK Diverge)"
| "memset_loop (Suc fuel) pmap_id va c len done_n =
     (if len = 0 then returnK done_n
      else bindK (user_pa pmap_id va) (\<lambda>pa.
        let sz = chunk len pa in
        seqK (modifyK (\<lambda>s. s\<lparr>mem := memset pa (scast c) sz (mem s)\<rparr>))
          (memset_loop fuel pmap_id (va + sz) c (len - sz) (done_n + sz))))"

definition pt_memset :: "u32 \<Rightarrow> u32 \<Rightarrow> u8 \<Rightarrow> u32 \<Rightarrow> ('a vmm_scheme, u32) kern" where
  "pt_memset pmap_id va c len = memset_loop (unat len) pmap_id va c len 0"

section \<open>The ELF loader\<close>

definition load16 :: "memory \<Rightarrow> u32 \<Rightarrow> u32" where
  "load16 m a = ucast (m a) OR push_bit 8 (ucast (m (a + 1)))"

text \<open>Fields of the headers, read at the address of the header.\<close>

definition ELF_MAGIC :: u32 where "ELF_MAGIC = 0x464C457F"
definition ELF_PROG_LOAD :: u32 where "ELF_PROG_LOAD = 1"
definition ELF_PROG_FLAG_WRITE :: u32 where "ELF_PROG_FLAG_WRITE = 2"
definition ELF_SHT_STRTAB :: u32 where "ELF_SHT_STRTAB = 3"
definition ELF_SHN_UNDEF :: u32 where "ELF_SHN_UNDEF = 0"

record elfhdr =
  e_magic :: u32
  e_entry :: u32
  e_phoff :: u32
  e_shoff :: u32
  e_phnum :: u32
  e_shstrndx :: u32

definition read_elfhdr :: "memory \<Rightarrow> u32 \<Rightarrow> elfhdr" where
  "read_elfhdr m eh = \<lparr>e_magic = load32 m eh, e_entry = load32 m (eh + 24), e_phoff = load32 m (eh + 28),
     e_shoff = load32 m (eh + 32), e_phnum = load16 m (eh + 44), e_shstrndx = load16 m (eh + 50)\<rparr>"

record proghdr =
  p_type :: u32
  p_offset :: u32
  p_va :: u32
  p_filesz :: u32
  p_memsz :: u32
  p_flags :: u32

definition read_proghdr :: "memory \<Rightarrow> u32 \<Rightarrow> proghdr" where
  "read_proghdr m ph = \<lparr>p_type = load32 m ph, p_offset = load32 m (ph + 4), p_va = load32 m (ph + 8),
     p_filesz = load32 m (ph + 16), p_memsz = load32 m (ph + 20), p_flags = load32 m (ph + 24)\<rparr>"

definition sh_type :: "memory \<Rightarrow> u32 \<Rightarrow> u32" where
  "sh_type m sh = load32 m (sh + 4)"

text \<open>The pages of one segment.  Both addresses are multiples of the page size, so the loop
  runs at most \<open>2^20\<close> times.\<close>

primrec load_pages :: "nat \<Rightarrow> u32 \<Rightarrow> u32 \<Rightarrow> u32 \<Rightarrow> u32 \<Rightarrow> u32 \<Rightarrow> u32 \<Rightarrow> u32 \<Rightarrow> ('a vmm_scheme, unit) kern" where
  "load_pages 0 pid filesz zva eva prm fa va = (if va < eva then faultK Diverge else returnK ())"
| "load_pages (Suc fuel) pid filesz zva eva prm fa va =
     (if va < eva
      then blockK [
        voidK (alloc_page pid va prm),
        if va < rounddown zva PAGESIZE
        then voidK (pt_copyout fa pid va PAGESIZE)
        else if va < zva \<and> filesz \<noteq> 0
        then seqK (voidK (pt_memset pid va 0 PAGESIZE))
               (voidK (pt_copyout fa pid va (zva - va)))
        else voidK (pt_memset pid va 0 PAGESIZE),
        load_pages fuel pid filesz zva eva prm (fa + PAGESIZE) (va + PAGESIZE)]
      else returnK ())"

definition load_segment :: "u32 \<Rightarrow> u32 \<Rightarrow> proghdr \<Rightarrow> ('a vmm_scheme, unit) kern" where
  "load_segment eh pid ph =
     (if p_type ph \<noteq> ELF_PROG_LOAD then returnK ()
      else let fa = eh + rounddown (p_offset ph) PAGESIZE;
               va = rounddown (p_va ph) PAGESIZE;
               zva = p_va ph + p_filesz ph;
               eva = roundup (p_va ph + p_memsz ph) PAGESIZE;
               prm = (if p_flags ph AND ELF_PROG_FLAG_WRITE \<noteq> 0 then PTE_U OR PTE_P OR PTE_W else PTE_U OR PTE_P) in
        load_pages (2 ^ 20) pid (p_filesz ph) zva eva prm fa va)"

primrec load_segments :: "nat \<Rightarrow> u32 \<Rightarrow> u32 \<Rightarrow> u32 \<Rightarrow> u32 \<Rightarrow> ('a vmm_scheme, unit) kern" where
  "load_segments 0 eh pid eph ph = returnK ()"
| "load_segments (Suc n) eh pid eph ph =
     (if ph < eph
      then seqK (bindK (readK (\<lambda>s. read_proghdr (mem s) ph)) (load_segment eh pid))
             (load_segments n eh pid eph (ph + 32))
      else returnK ())"

text \<open>The number of rounds is at most the number of program headers, since the pointer then
  has reached the end of the table.\<close>

definition elf_load :: "u32 \<Rightarrow> u32 \<Rightarrow> ('a vmm_scheme, unit) kern" where
  "elf_load exe pid = bindK (readK (\<lambda>s. read_elfhdr (mem s) exe)) (\<lambda>eh. blockK [
     guardK (e_magic eh = ELF_MAGIC) (Panic ''eh->e_magic == ELF_MAGIC''),
     guardK (e_shstrndx eh \<noteq> ELF_SHN_UNDEF) (Panic ''eh->e_shstrndx != ELF_SHN_UNDEF''),
     bindK (readK (\<lambda>s. sh_type (mem s) (exe + e_shoff eh + 40 * e_shstrndx eh))) (\<lambda>t.
       guardK (t = ELF_SHT_STRTAB) (Panic ''sh[eh->e_shstrndx].sh_type == ELF_SHT_STRTAB'')),
     load_segments (unat (e_phnum eh)) exe pid (exe + e_phoff eh + 32 * e_phnum eh) (exe + e_phoff eh)])"

definition elf_entry :: "u32 \<Rightarrow> ('a vmm_scheme, u32) kern" where
  "elf_entry exe = bindK (readK (\<lambda>s. read_elfhdr (mem s) exe)) (\<lambda>eh.
     seqK (guardK (e_magic eh = ELF_MAGIC) (Panic ''eh->e_magic == ELF_MAGIC'')) (returnK (e_entry eh)))"

section \<open>Writing to a page of a process\<close>

text \<open>A change of memory inside a page that backs a virtual page leaves the page tables, and so
  every translation, as they were.\<close>

lemma data_write:
  assumes "vm_inv s" "slot_page s (Data p v) = Some pg" "\<forall>x. page_of x \<noteq> pg \<longrightarrow> m x = mem s x"
  shows "vm_inv (s\<lparr>mem := m\<rparr>)"
    "\<And>q w. user_proc q \<Longrightarrow> user_page w \<Longrightarrow> mapping (s\<lparr>mem := m\<rparr>) q w = mapping s q w"
proof -
  have ok: "ctr_inv s" "pdes_ok s" "identity_ok s" "slots_ok s" using assms(1) by (simp_all add: vm_inv_def)
  have up: "user_page pg" using norm_user [OF ok(1)] slots_taken [OF ok(4) assms(2)] by simp
  have "tbl_page s q d \<noteq> pg" if "user_proc q" "\<not> kern_pde d" "PDirPool s q d \<noteq> 0" for q d
    using slots_inj [OF ok(4) slot_TableI [OF that]] assms(2) by blast
  then show map: "mapping (s\<lparr>mem := m\<rparr>) q w = mapping s q w" if "user_proc q" "user_page w" for q w
    by (intro mapping_mem [where P = "{pg}"] that) (use assms(3) in auto)
  have "slot_page (s\<lparr>mem := m\<rparr>) a = slot_page s a" for a
    by (rule slot_page_eqI) (simp_all add: map)
  then have "slots_ok (s\<lparr>mem := m\<rparr>)" using ok(4) by (simp add: slots_ok_def)
  moreover have "identity_ok (s\<lparr>mem := m\<rparr>)"
    by (rule identity_ok_mem [OF ok(3)]) (metis assms(3) up)
  ultimately show "vm_inv (s\<lparr>mem := m\<rparr>)" using ok by (simp add: vm_inv_def)
qed

lemma user_translate_cong:
  assumes "vm_inv s" "vm_inv s'" "user_proc q"
    and "\<And>w. user_page w \<Longrightarrow> mapping s' q w = mapping s q w"
  shows "user_translate s' q vb = user_translate s q vb"
proof (cases "user_va vb")
  case True
  with assms show ?thesis by (simp add: user_translate_mapping user_va_page)
next
  case False
  with assms show ?thesis by (simp add: kernel_not_reachable)
qed

lemma user_translate_offset:
  assumes "vm_inv s" "user_proc p" "user_va va" "user_translate s p va = Some a"
  shows "unat a = unat (page_of a) * 4096 + unat va mod 4096" "user_page (page_of a)"
    "a = page_start (drop_bit 12 (mapping s p (page_of va))) + (va AND 0xFFF)"
    "bit (mapping s p (page_of va)) 0" "bit (mapping s p (page_of va)) 2"
proof -
  let ?e = "mapping s p (page_of va)"
  show e: "a = page_start (drop_bit 12 ?e) + (va AND 0xFFF)" "bit ?e 0" "bit ?e 2"
    using user_translate_mapping [OF assms(1-3)] assms(4) by (auto simp: Let_def split: if_splits)
  then show "unat a = unat (page_of a) * 4096 + unat va mod 4096"
    using unat_in_page [OF entry_split(3) offset_small] page_of_in_page [OF entry_split(3) offset_small]
    by (simp add: and_mod_page unat_mod)
  have "slots_ok s" "ctr_inv s" using assms(1) by (simp_all add: vm_inv_def)
  with user_translate_page [OF assms] show "user_page (page_of a)"
    by (meson norm_user slots_taken)
qed

lemma user_translate_user_va: "vm_inv s \<Longrightarrow> user_proc p \<Longrightarrow> user_translate s p va = Some a \<Longrightarrow> user_va va"
  using kernel_not_reachable [of s p va] by fastforce

lemma user_translate_inj:
  assumes "vm_inv s" "user_proc p" "user_proc q" "user_translate s p va = Some a" "user_translate s q vb = Some a"
  shows "q = p \<and> vb = va"
proof -
  note uva = user_translate_user_va [OF assms(1,2,4)] user_translate_user_va [OF assms(1,3,5)]
  have "slots_ok s" using assms(1) by (simp add: vm_inv_def)
  from slots_inj [OF this user_translate_page [OF assms(1,3) uva(2) assms(5)]
      user_translate_page [OF assms(1,2) uva(1) assms(4)]]
  have same: "q = p" "page_of vb = page_of va" by simp_all
  have "unat vb mod 4096 = unat va mod 4096"
    using user_translate_offset(1) [OF assms(1,2) uva(1) assms(4)]
      user_translate_offset(1) [OF assms(1,3) uva(2) assms(5)] by simp
  moreover have "unat vb div 4096 = unat va div 4096" using same(2) by (metis unat_page_of)
  ultimately have "unat vb = unat va" by (metis div_mult_mod_eq)
  with same show ?thesis by (simp only: word_unat_eq_iff)
qed

lemma within_page:
  fixes v i :: nat
  assumes "v mod 4096 + i < 4096"
  shows "(v + i) div 4096 = v div 4096" "(v + i) mod 4096 = v mod 4096 + i"
proof -
  have e: "v + i = (v mod 4096 + i) + v div 4096 * 4096" by simp
  have "(v mod 4096 + i + v div 4096 * 4096) div 4096 = v div 4096 + (v mod 4096 + i) div 4096"
    by (rule div_mult_self1) simp
  then show "(v + i) div 4096 = v div 4096" using assms by (simp only: e [symmetric] div_less add_0_right)
  have "(v mod 4096 + i + v div 4096 * 4096) mod 4096 = (v mod 4096 + i) mod 4096" by (rule mod_mult_self1)
  then show "(v + i) mod 4096 = v mod 4096 + i" using assms by (simp only: e [symmetric] mod_less)
qed

text \<open>The addresses that follow within the same page.\<close>

lemma user_translate_add:
  assumes "vm_inv s" "user_proc p" "user_va va" "user_translate s p va = Some a"
    and "unat va mod 4096 + unat i < 4096"
  shows "user_translate s p (va + i) = Some (a + i)" "unat (a + i) = unat a + unat i" "page_of (a + i) = page_of a"
proof -
  note off = user_translate_offset [OF assms(1-4)]
  have pg: "unat (page_of va) * 4096 + unat va mod 4096 = unat va" by (simp add: unat_page_of)
  have lt: "unat va + unat i < 2 ^ 32" using assms(5) page_of_small [of va] pg by simp
  then have v: "unat (va + i) = unat va + unat i" by (simp add: unat_word_ariths)
  have same: "page_of (va + i) = page_of va"
    by (simp only: word_unat_eq_iff unat_page_of v within_page(1) [OF assms(5)])
  then have uva: "user_va (va + i)" using assms(3) by (simp add: user_va_page)
  have "unat ((va AND 0xFFF) + i) = unat va mod 4096 + unat i"
    using assms(5) by (simp add: and_mod_page unat_mod unat_word_ariths)
  moreover have "unat ((va + i) AND 0xFFF) = unat va mod 4096 + unat i"
    by (simp only: and_mod_page unat_mod_distrib v) (simp add: within_page(2) [OF assms(5)])
  ultimately have "(va + i) AND 0xFFF = (va AND 0xFFF) + i" by (simp only: word_unat_eq_iff)
  then show "user_translate s p (va + i) = Some (a + i)"
    using user_translate_mapping [OF assms(1,2) uva] off(3-5) same by (simp add: Let_def ac_simps)
  show a: "unat (a + i) = unat a + unat i"
    using off(1) assms(5) page_of_small [of a] by (simp add: unat_word_ariths)
  show "page_of (a + i) = page_of a"
    by (simp only: word_unat_eq_iff unat_page_of a) (rule within_page(1), use off(1) assms(5) in simp)
qed

lemma user_pa_mapped:
  assumes "vm_inv s" "user_proc p" "user_translate s p va = Some a"
  shows "user_pa p va s = Inr (a, s)"
proof -
  note uva = user_translate_user_va [OF assms]
  note off = user_translate_offset [OF assms(1,2) uva assms(3)]
  have "bit (mapping s p (page_of va) AND PTE_P) 0" using off(4) by (simp add: PTE_P_def bit_simps)
  then have "mapping s p (page_of va) AND PTE_P \<noteq> 0" by auto
  moreover have "(mapping s p (page_of va) AND 0xfffff000) + va mod PAGESIZE = a"
    using off(3) entry_split(2) [of "mapping s p (page_of va)"] by (simp add: ADDR_MASK_def PAGESIZE_def and_mod_page)
  ultimately show ?thesis
    using assms(2) by (simp add: user_pa_def monad_defs get_ptbl_entry_by_va_eq user_proc_def)
qed

lemma unat_chunk: "unat (chunk len a) = min (unat len) (4096 - unat a mod 4096)"
proof -
  have m: "unat (a mod 4096) = unat a mod 4096" by (simp add: unat_mod)
  have "unat (4096 - a mod 4096) = 4096 - unat a mod 4096"
    using unat_sub [of "a mod 4096" 4096] by (simp add: m word_le_nat_alt)
  then show ?thesis by (simp add: chunk_def PAGESIZE_def word_less_nat_alt min_def)
qed

lemma unat_add_range: "unat u + unat n \<le> 2 ^ 32 \<Longrightarrow> i < n \<Longrightarrow> unat (u + i) = unat u + unat i" for u n i :: u32
  by (simp add: unat_word_ariths word_less_nat_alt)

text \<open>The bytes of a chunk: the offsets below \<open>sz\<close> from \<open>a\<close>, all in the page of \<open>a\<close>.\<close>

lemma chunk_bytes:
  fixes uva :: u32
  assumes "vm_inv s" "user_proc p" "user_translate s p uva = Some a" "sz = chunk len a"
  shows "unat a + unat sz \<le> 2 ^ 32" "sz \<le> len" "len \<noteq> 0 \<Longrightarrow> sz \<noteq> 0"
    "i < sz \<Longrightarrow> user_translate s p (uva + i) = Some (a + i)"
    "x - a < sz \<Longrightarrow> page_of x = page_of a"
    "x - a < sz \<Longrightarrow> user_translate s p (uva + (x - a)) = Some x"
proof -
  note uva = user_translate_user_va [OF assms(1-3)]
  note off = user_translate_offset [OF assms(1,2) uva assms(3)]
  have amod: "unat a mod 4096 = unat uva mod 4096" using off(1) by simp
  have sz: "unat sz = min (unat len) (4096 - unat uva mod 4096)" by (simp add: assms(4) unat_chunk amod)
  have in_page: "unat uva mod 4096 + unat j < 4096" if "j < sz" for j
    using that sz by (auto simp: word_less_nat_alt)
  show "unat a + unat sz \<le> 2 ^ 32" using off(1) sz page_of_small [of a] by simp
  show "sz \<le> len" using sz by (simp add: word_le_nat_alt)
  show "sz \<noteq> 0" if "len \<noteq> 0" using sz that by (auto simp: min_def unat_eq_0 split: if_splits)
  show "user_translate s p (uva + i) = Some (a + i)" if "i < sz" for i
    by (rule user_translate_add(1) [OF assms(1,2) uva assms(3) in_page [OF that]])
  show "page_of x = page_of a" if "x - a < sz"
    using user_translate_add(3) [OF assms(1,2) uva assms(3) in_page [OF that]] by simp
  show "user_translate s p (uva + (x - a)) = Some x" if "x - a < sz"
    using user_translate_add(1) [OF assms(1,2) uva assms(3) in_page [OF that]] by simp
qed

text \<open>Writing one chunk.\<close>

lemma chunk_write:
  assumes "vm_inv s" "user_proc p" "user_translate s p uva = Some a" "sz = chunk len a"
    and m: "\<forall>x. \<not> x - a < sz \<longrightarrow> m x = mem s x"
  shows "vm_inv (s\<lparr>mem := m\<rparr>)"
    "user_proc q \<Longrightarrow> user_translate (s\<lparr>mem := m\<rparr>) q vb = user_translate s q vb"
    "unat x < unat VM_USERLO \<Longrightarrow> m x = mem s x"
proof -
  note uva = user_translate_user_va [OF assms(1-3)]
  have out: "\<forall>x. page_of x \<noteq> page_of a \<longrightarrow> m x = mem s x"
    using chunk_bytes(5) [OF assms(1-4)] m by blast
  note s1 = data_write [OF assms(1) user_translate_page [OF assms(1,2) uva assms(3)] out]
  then show "vm_inv (s\<lparr>mem := m\<rparr>)" by simp
  show "user_translate (s\<lparr>mem := m\<rparr>) q vb = user_translate s q vb" if "user_proc q"
    by (rule user_translate_cong [OF assms(1) s1(1) that s1(2) [OF that]])
  show "m x = mem s x" if "unat x < unat VM_USERLO"
  proof -
    have "\<not> user_page (page_of x)"
      using that by (simp add: user_page_def VM_PI_values VM_USERLO_def word_le_nat_alt unat_page_of
          less_eq_div_iff_mult_less_eq)
    with user_translate_offset(2) [OF assms(1,2) uva assms(3)] out show ?thesis by metis
  qed
qed

text \<open>What is left after a chunk.\<close>

lemma chunk_rest:
  fixes len sz uva :: u32
  assumes "sz \<le> len" "sz \<noteq> 0" "unat len \<le> Suc fuel"
  shows "unat (len - sz) \<le> fuel" "unat (len - sz) + unat sz = unat len" "uva + sz + (i - sz) = uva + i"
    "j < len - sz \<Longrightarrow> sz + j < len \<and> \<not> sz + j < sz" "i < len \<Longrightarrow> \<not> i < sz \<Longrightarrow> i - sz < len - sz"
proof -
  have u: "unat sz \<le> unat len" "unat (len - sz) = unat len - unat sz" "0 < unat sz"
    using assms(1,2) by (simp_all add: word_le_nat_alt unat_sub unat_gt_0)
  then show "unat (len - sz) \<le> fuel" "unat (len - sz) + unat sz = unat len" using assms(3) by simp_all
  show "uva + sz + (i - sz) = uva + i" by simp
  show "sz + j < len \<and> \<not> sz + j < sz" if "j < len - sz"
    using that u unat_bound [of len] by (simp add: word_less_nat_alt unat_word_ariths)
  show "i - sz < len - sz" if "i < len" "\<not> i < sz"
    using that u by (simp add: word_less_nat_alt unat_sub_if_size word_size)
qed

lemma copyout_loop_run:
  "\<lbrakk>unat len \<le> fuel; vm_inv s; user_proc p; unat uva + unat len \<le> 2 ^ 32;
    unat kva + unat len \<le> unat VM_USERLO; \<forall>i < len. user_translate s p (uva + i) \<noteq> None\<rbrakk> \<Longrightarrow>
   \<exists>m. copyout_loop fuel kva p uva len c s = Inr (c + len, s\<lparr>mem := m\<rparr>) \<and> vm_inv (s\<lparr>mem := m\<rparr>) \<and>
     (\<forall>q vb. user_proc q \<longrightarrow> user_translate (s\<lparr>mem := m\<rparr>) q vb = user_translate s q vb) \<and>
     (\<forall>i a. i < len \<and> user_translate s p (uva + i) = Some a \<longrightarrow> m a = mem s (kva + i)) \<and>
     (\<forall>a. (\<forall>i < len. user_translate s p (uva + i) \<noteq> Some a) \<longrightarrow> m a = mem s a)"
proof (induction fuel arbitrary: kva uva len c s)
  case 0
  then show ?case by (intro exI [of _ "mem s"]) (simp add: unat_eq_0 returnK_def)
next
  case (Suc fuel)
  show ?case
  proof (cases "len = 0")
    case True
    with Suc.prems(2) show ?thesis by (intro exI [of _ "mem s"]) (simp add: returnK_def)
  next
    case False
    then have "0 < len" by (simp add: word_gt_0)
    then obtain a where a: "user_translate s p uva = Some a" using Suc.prems(6) by fastforce
    define sz where "sz = chunk len a"
    note ch = chunk_bytes [OF Suc.prems(2,3) a sz_def]
    note rest = chunk_rest [OF ch(2) ch(3) [OF False] Suc.prems(1)]
    let ?m1 = "memcpy a kva sz (mem s)" and ?s1 = "s\<lparr>mem := memcpy a kva sz (mem s)\<rparr>"
    have kva: "unat kva + unat len < 2 ^ 32" using Suc.prems(5) by (simp add: VM_USERLO_def)
    then have "unat kva + unat sz \<le> 2 ^ 32" using rest(2) by simp
    then have m1: "?m1 x = (if x - a < sz then mem s (kva + (x - a)) else mem s x)" for x
      by (simp add: memcpy_def memmove_apply [OF _ ch(1)])
    then have keep: "\<forall>x. \<not> x - a < sz \<longrightarrow> ?m1 x = mem s x" by simp
    note s1 = chunk_write [OF Suc.prems(2,3) a sz_def keep]
    have kern: "?m1 (kva + i) = mem s (kva + i)" if "i < len" for i
      using unat_add_range [of kva len i] kva Suc.prems(5) that by (intro s1(3)) (simp_all add: word_less_nat_alt)
    have step: "copyout_loop (Suc fuel) kva p uva len c s =
        copyout_loop fuel (kva + sz) p (uva + sz) (len - sz) (c + sz) ?s1"
      using False user_pa_mapped [OF Suc.prems(2,3) a] by (simp add: monad_defs sz_def Let_def)
    have "\<exists>m. copyout_loop fuel (kva + sz) p (uva + sz) (len - sz) (c + sz) ?s1 =
        Inr (c + sz + (len - sz), ?s1\<lparr>mem := m\<rparr>) \<and> vm_inv (?s1\<lparr>mem := m\<rparr>) \<and>
      (\<forall>q vb. user_proc q \<longrightarrow> user_translate (?s1\<lparr>mem := m\<rparr>) q vb = user_translate ?s1 q vb) \<and>
      (\<forall>i a. i < len - sz \<and> user_translate ?s1 p (uva + sz + i) = Some a \<longrightarrow> m a = mem ?s1 (kva + sz + i)) \<and>
      (\<forall>a. (\<forall>i < len - sz. user_translate ?s1 p (uva + sz + i) \<noteq> Some a) \<longrightarrow> m a = mem ?s1 a)"
    proof (rule Suc.IH [OF rest(1) s1(1) Suc.prems(3)])
      show "unat (uva + sz) + unat (len - sz) \<le> 2 ^ 32"
        using Suc.prems(4) rest(2) by (simp add: unat_word_ariths)
      show "unat (kva + sz) + unat (len - sz) \<le> unat VM_USERLO"
        using Suc.prems(5) kva rest(2) by (simp add: unat_word_ariths)
      show "\<forall>i < len - sz. user_translate ?s1 p (uva + sz + i) \<noteq> None"
        using s1(2) [OF Suc.prems(3)] Suc.prems(6) rest(4) by (metis add.assoc)
    qed
    then obtain m where m: "copyout_loop fuel (kva + sz) p (uva + sz) (len - sz) (c + sz) ?s1 =
        Inr (c + len, s\<lparr>mem := m\<rparr>)" "vm_inv (s\<lparr>mem := m\<rparr>)"
      "\<And>q vb. user_proc q \<Longrightarrow> user_translate (s\<lparr>mem := m\<rparr>) q vb = user_translate s q vb"
      "\<And>i b. i < len - sz \<Longrightarrow> user_translate s p (uva + sz + i) = Some b \<Longrightarrow> m b = ?m1 (kva + sz + i)"
      "\<And>b. (\<And>i. i < len - sz \<Longrightarrow> user_translate s p (uva + sz + i) \<noteq> Some b) \<Longrightarrow> m b = ?m1 b"
      using s1(2) Suc.prems(3) by auto
    have hit: "m b = mem s (kva + i)" if i: "i < len" "user_translate s p (uva + i) = Some b" for i b
    proof (cases "i < sz")
      case True
      then have b: "b = a + i" using ch(4) i(2) by simp
      have "user_translate s p (uva + sz + j) \<noteq> Some b" if "j < len - sz" for j
      proof
        assume "user_translate s p (uva + sz + j) = Some b"
        with user_translate_inj [OF Suc.prems(2,3,3) i(2)] have "sz + j = i" by (metis add.assoc add_left_cancel)
        with rest(4) [OF that] True show False by simp
      qed
      with m(5) [of b] True show ?thesis by (simp add: m1 b)
    next
      case False
      with m(4) [OF rest(5) [OF i(1) False]] i(2) kern [OF i(1)] show ?thesis by (simp add: rest(3))
    qed
    have miss: "m b = mem s b" if "\<forall>i < len. user_translate s p (uva + i) \<noteq> Some b" for b
    proof -
      have "m b = ?m1 b" using that rest(4) by (intro m(5)) (metis add.assoc)
      moreover have "\<not> b - a < sz" using that ch(2,6) by (meson order_less_le_trans)
      ultimately show ?thesis by (simp add: m1)
    qed
    from step m(1-3) hit miss show ?thesis by (intro exI [of _ m]) simp
  qed
qed

section \<open>Writing to a kernel buffer\<close>

text \<open>A kernel buffer lies below the user range, outside the identity page tables.\<close>

definition kernel_buffer :: "'a vmm_scheme \<Rightarrow> u32 \<Rightarrow> u32 \<Rightarrow> bool" where
  "kernel_buffer s kva len \<longleftrightarrow> unat kva + unat len \<le> unat VM_USERLO \<and>
     (unat kva + unat len \<le> unat (IDPTbl_addr s) \<or> unat (IDPTbl_addr s) + 2 ^ 22 \<le> unat kva)"

lemma kernel_page: "unat x < unat VM_USERLO \<Longrightarrow> \<not> user_page (page_of x)"
  by (simp add: user_page_def VM_PI_values VM_USERLO_def word_le_nat_alt unat_page_of less_eq_div_iff_mult_less_eq)

lemma in_buffer:
  fixes x kva len :: u32
  assumes "x - kva < len" "unat kva + unat len \<le> 2 ^ 32"
  shows "unat x = unat kva + unat (x - kva)" "unat (x - kva) < unat len"
  using unat_add_range [OF assms(2,1)] assms(1) by (simp_all add: word_less_nat_alt)

lemma kernel_write:
  assumes "vm_inv s" "kernel_buffer s kva len" "\<forall>x. \<not> x - kva < len \<longrightarrow> m x = mem s x"
  shows "vm_inv (s\<lparr>mem := m\<rparr>)" "user_proc q \<Longrightarrow> user_translate (s\<lparr>mem := m\<rparr>) q vb = user_translate s q vb"
    "user_page (page_of x) \<Longrightarrow> m x = mem s x"
proof -
  have ok: "ctr_inv s" "pdes_ok s" "identity_ok s" "slots_ok s" "idptbl_placed s"
    using assms(1) by (simp_all add: vm_inv_def identity_ok_def)
  have buf: "unat kva + unat len \<le> 2 ^ 32" "unat kva + unat len \<le> unat VM_USERLO"
    using assms(2) by (simp_all add: kernel_buffer_def VM_USERLO_def)
  show user: "m x = mem s x" if "user_page (page_of x)" for x
    using that kernel_page [of x] in_buffer [OF _ buf(1), of x] buf(2) assms(3) by fastforce
  have "user_page (tbl_page s q d)" if "user_proc q" "\<not> kern_pde d" "PDirPool s q d \<noteq> 0" for q d
    using norm_user [OF ok(1)] slots_taken [OF ok(4) slot_TableI [OF that]] by simp
  then have map: "mapping (s\<lparr>mem := m\<rparr>) q w = mapping s q w" if "user_proc q" "user_page w" for q w
    by (intro mapping_mem [where P = "{pg. \<not> user_page pg}"] that) (use user in auto)
  have "slot_page (s\<lparr>mem := m\<rparr>) a = slot_page s a" for a
    by (rule slot_page_eqI) (simp_all add: map)
  then have slots: "slots_ok (s\<lparr>mem := m\<rparr>)" using ok(4) by (simp add: slots_ok_def)
  have id: "load32 m (idptbl_row s d + 4 * k) = load32 (mem s) (idptbl_row s d + 4 * k)"
    if dk: "d < 1024" "k < 1024" for d k
  proof -
    let ?r = "idptbl_row s d + 4 * k"
    have r: "unat ?r = unat (IDPTbl_addr s) + unat d * 4096 + 4 * unat k" by (rule identity_row(1) [OF ok(5) dk])
    have b: "unat d < 1024" "unat k < 1024" using dk by (simp_all add: word_less_nat_alt)
    have "m (?r + j) = mem s (?r + j)" if "unat j < 4" for j
    proof -
      have "unat (?r + j) = unat ?r + unat j"
        using r b that ok(5) by (simp add: unat_word_ariths idptbl_placed_def VM_USERLO_def)
      then have "unat (IDPTbl_addr s) \<le> unat (?r + j)" "unat (?r + j) < unat (IDPTbl_addr s) + 2 ^ 22"
        using r b that by simp_all
      then have "\<not> ?r + j - kva < len"
        using in_buffer [OF _ buf(1), of "?r + j"] assms(2) unfolding kernel_buffer_def by linarith
      then show ?thesis using assms(3) by blast
    qed
    from this [of 0] this [of 1] this [of 2] this [of 3] show ?thesis by (simp add: load32_def)
  qed
  have row: "idptbl_row (s\<lparr>mem := m\<rparr>) d = idptbl_row s d" for d by (simp add: idptbl_row_def)
  have "identity_ok (s\<lparr>mem := m\<rparr>)"
    using ok(3) id by (simp add: identity_ok_def row idptbl_placed_def)
  with ok slots show inv: "vm_inv (s\<lparr>mem := m\<rparr>)" by (simp add: vm_inv_def)
  show "user_translate (s\<lparr>mem := m\<rparr>) q vb = user_translate s q vb" if "user_proc q"
    by (rule user_translate_cong [OF assms(1) inv that map [OF that]])
qed

lemma copyin_loop_run:
  "\<lbrakk>unat len \<le> fuel; vm_inv s; user_proc p; unat uva + unat len \<le> 2 ^ 32;
    kernel_buffer s kva len; \<forall>i < len. user_translate s p (uva + i) \<noteq> None\<rbrakk> \<Longrightarrow>
   \<exists>m. copyin_loop fuel p uva kva len c s = Inr (c + len, s\<lparr>mem := m\<rparr>) \<and>
     (\<forall>i a. i < len \<and> user_translate s p (uva + i) = Some a \<longrightarrow> m (kva + i) = mem s a) \<and>
     (\<forall>x. \<not> x - kva < len \<longrightarrow> m x = mem s x)"
proof (induction fuel arbitrary: kva uva len c s)
  case 0
  then show ?case by (intro exI [of _ "mem s"]) (simp add: unat_eq_0 returnK_def)
next
  case (Suc fuel)
  show ?case
  proof (cases "len = 0")
    case True
    then show ?thesis by (intro exI [of _ "mem s"]) (simp add: returnK_def)
  next
    case False
    then have "0 < len" by (simp add: word_gt_0)
    then obtain a where a: "user_translate s p uva = Some a" using Suc.prems(6) by fastforce
    define sz where "sz = chunk len a"
    note ch = chunk_bytes [OF Suc.prems(2,3) a sz_def]
    note rest = chunk_rest [OF ch(2) ch(3) [OF False] Suc.prems(1)]
    let ?m1 = "memcpy kva a sz (mem s)" and ?s1 = "s\<lparr>mem := memcpy kva a sz (mem s)\<rparr>"
    have kva: "unat kva + unat len < 2 ^ 32" using Suc.prems(5) by (simp add: kernel_buffer_def VM_USERLO_def)
    then have "unat kva + unat sz \<le> 2 ^ 32" using rest(2) by simp
    then have m1: "?m1 x = (if x - kva < sz then mem s (a + (x - kva)) else mem s x)" for x
      by (simp add: memcpy_def memmove_apply [OF ch(1)])
    then have keep: "\<forall>x. \<not> x - kva < sz \<longrightarrow> ?m1 x = mem s x" by simp
    have buf: "kernel_buffer s kva sz" "kernel_buffer ?s1 (kva + sz) (len - sz)"
      using Suc.prems(5) kva rest(2) by (auto simp: kernel_buffer_def unat_word_ariths)
    note s1 = kernel_write [OF Suc.prems(2) buf(1) keep]
    have step: "copyin_loop (Suc fuel) p uva kva len c s =
        copyin_loop fuel p (uva + sz) (kva + sz) (len - sz) (c + sz) ?s1"
      using False user_pa_mapped [OF Suc.prems(2,3) a] by (simp add: monad_defs sz_def Let_def)
    have "unat (uva + sz) + unat (len - sz) \<le> 2 ^ 32"
      using Suc.prems(4) rest(2) by (simp add: unat_word_ariths)
    moreover have "\<forall>i < len - sz. user_translate ?s1 p (uva + sz + i) \<noteq> None"
      using s1(2) [OF Suc.prems(3)] Suc.prems(6) rest(4) by (metis add.assoc)
    ultimately obtain m where m: "copyin_loop fuel p (uva + sz) (kva + sz) (len - sz) (c + sz) ?s1 =
        Inr (c + len, s\<lparr>mem := m\<rparr>)"
      "\<And>i b. i < len - sz \<Longrightarrow> user_translate s p (uva + sz + i) = Some b \<Longrightarrow> m (kva + sz + i) = ?m1 b"
      "\<And>x. \<not> x - (kva + sz) < len - sz \<Longrightarrow> m x = ?m1 x"
      using Suc.IH [OF rest(1) s1(1) Suc.prems(3) _ buf(2), of "uva + sz" "c + sz"] s1(2) [OF Suc.prems(3)] by auto
    have off: "sz + (x - (kva + sz)) = x - kva" for x by simp
    have hit: "m (kva + i) = mem s b" if i: "i < len" "user_translate s p (uva + i) = Some b" for i b
    proof (cases "i < sz")
      case True
      have "\<not> i - sz < len - sz" using rest(4) [of "i - sz"] True by auto
      then show ?thesis using m(3) [of "kva + i"] True ch(4) [OF True] i(2) by (simp add: m1)
    next
      case False
      have "?m1 b = mem s b"
        by (rule s1(3)) (rule user_translate_offset(2) [OF Suc.prems(2,3) user_translate_user_va [OF Suc.prems(2,3) i(2)] i(2)])
      with m(2) [OF rest(5) [OF i(1) False]] i(2) show ?thesis by (simp add: rest(3))
    qed
    have miss: "m x = mem s x" if "\<not> x - kva < len" for x
    proof -
      have "\<not> x - kva < sz" using that ch(2) by (meson order_less_le_trans)
      moreover have "\<not> x - (kva + sz) < len - sz" using rest(4) [of "x - (kva + sz)"] that unfolding off by blast
      ultimately show ?thesis using m(3) [of x] m1 [of x] by simp
    qed
    from step m(1) hit miss show ?thesis by (intro exI [of _ m]) simp
  qed
qed

section \<open>Properties\<close>

text \<open>What a process reads at an address.\<close>

definition user_byte :: "'a vmm_scheme \<Rightarrow> u32 \<Rightarrow> u32 \<Rightarrow> u8 option" where
  "user_byte s p va = map_option (mem s) (user_translate s p va)"

lemma copy_guards:
  fixes uva kva len :: u32
  assumes "VM_USERLO \<le> uva" "unat uva + unat len \<le> unat VM_USERHI" "unat kva + unat len \<le> unat VM_USERLO"
  shows "VM_USERLO \<le> uva \<and> uva + len \<le> VM_USERHI" "\<not> kva + len > VM_USERHI" "unat uva + unat len \<le> 2 ^ 32"
  using assms by (simp_all add: VM_USERLO_def VM_USERHI_def word_le_nat_alt unat_word_ariths not_less)

text \<open>C21: \<open>pt_copyout\<close> to a mapped area of a user process copies all bytes, across page boundaries: the
  process then reads the kernel's bytes there, and no other byte of it, of any other process or of
  the kernel changes.\<close>

theorem pt_copyout_correct:
  assumes "vm_inv s" "user_proc p"
    and "VM_USERLO \<le> uva" "unat uva + unat len \<le> unat VM_USERHI" "unat kva + unat len \<le> unat VM_USERLO"
    and "\<forall>i < len. user_translate s p (uva + i) \<noteq> None"
  shows "\<exists>s'. pt_copyout kva p uva len s = Inr (len, s') \<and> vm_inv s' \<and>
    (\<forall>q vb. user_proc q \<longrightarrow> user_byte s' q vb =
      (if q = p \<and> vb - uva < len then Some (mem s (kva + (vb - uva))) else user_byte s q vb)) \<and>
    (\<forall>a. unat a < unat VM_USERLO \<longrightarrow> mem s' a = mem s a)"
proof -
  note g = copy_guards [OF assms(3-5)]
  from copyout_loop_run [OF order_refl assms(1,2) g(3) assms(5,6), of 0] obtain m where
    m: "copyout_loop (unat len) kva p uva len 0 s = Inr (len, s\<lparr>mem := m\<rparr>)" "vm_inv (s\<lparr>mem := m\<rparr>)"
      "\<And>q vb. user_proc q \<Longrightarrow> user_translate (s\<lparr>mem := m\<rparr>) q vb = user_translate s q vb"
      "\<And>i a. i < len \<Longrightarrow> user_translate s p (uva + i) = Some a \<Longrightarrow> m a = mem s (kva + i)"
      "\<And>a. (\<And>i. i < len \<Longrightarrow> user_translate s p (uva + i) \<noteq> Some a) \<Longrightarrow> m a = mem s a"
    by auto
  have run: "pt_copyout kva p uva len s = Inr (len, s\<lparr>mem := m\<rparr>)"
    using m(1) g by (simp add: pt_copyout_def)
  have bytes: "user_byte (s\<lparr>mem := m\<rparr>) q vb =
      (if q = p \<and> vb - uva < len then Some (mem s (kva + (vb - uva))) else user_byte s q vb)" if "user_proc q" for q vb
  proof (cases "user_translate s q vb")
    case None
    with assms(6) [rule_format, of "vb - uva"] show ?thesis using m(3) [OF that] by (auto simp: user_byte_def)
  next
    case (Some a)
    show ?thesis
    proof (cases "q = p \<and> vb - uva < len")
      case True
      with m(4) [of "vb - uva" a] Some m(3) [OF that] show ?thesis by (simp add: user_byte_def)
    next
      case False
      have "user_translate s p (uva + i) \<noteq> Some a" if "i < len" for i
        using user_translate_inj [OF assms(1,2) \<open>user_proc q\<close> _ Some] False that by fastforce
      with m(5) False Some m(3) [OF that] show ?thesis by (auto simp: user_byte_def)
    qed
  qed
  have "m a = mem s a" if "unat a < unat VM_USERLO" for a
  proof (rule m(5))
    fix i assume "i < len"
    show "user_translate s p (uva + i) \<noteq> Some a"
      using kernel_page [OF that] user_translate_offset(2) [OF assms(1,2)] user_translate_user_va [OF assms(1,2)] by blast
  qed
  with run m(2) bytes show ?thesis by (intro exI [of _ "s\<lparr>mem := m\<rparr>"]) simp
qed

text \<open>C22: \<open>pt_copyin\<close> from a mapped area of a user process fills the kernel buffer with the bytes the
  process reads there; nothing else in memory changes and no process notices.\<close>

theorem pt_copyin_correct:
  assumes "vm_inv s" "user_proc p" "kernel_buffer s kva len"
    and "VM_USERLO \<le> uva" "unat uva + unat len \<le> unat VM_USERHI"
    and "\<forall>i < len. user_translate s p (uva + i) \<noteq> None"
  shows "\<exists>s'. pt_copyin p uva kva len s = Inr (len, s') \<and> vm_inv s' \<and>
    (\<forall>i < len. Some (mem s' (kva + i)) = user_byte s p (uva + i)) \<and>
    (\<forall>x. \<not> x - kva < len \<longrightarrow> mem s' x = mem s x) \<and>
    (\<forall>q vb. user_proc q \<longrightarrow> user_byte s' q vb = user_byte s q vb)"
proof -
  have "unat kva + unat len \<le> unat VM_USERLO" using assms(3) by (simp add: kernel_buffer_def)
  note g = copy_guards [OF assms(4,5) this]
  from copyin_loop_run [OF order_refl assms(1,2) g(3) assms(3,6), of 0] obtain m where
    m: "copyin_loop (unat len) p uva kva len 0 s = Inr (len, s\<lparr>mem := m\<rparr>)"
      "\<And>i a. i < len \<Longrightarrow> user_translate s p (uva + i) = Some a \<Longrightarrow> m (kva + i) = mem s a"
      "\<forall>x. \<not> x - kva < len \<longrightarrow> m x = mem s x"
    by auto
  note s' = kernel_write [OF assms(1,3) m(3)]
  have run: "pt_copyin p uva kva len s = Inr (len, s\<lparr>mem := m\<rparr>)" using m(1) g by (simp add: pt_copyin_def)
  have "user_byte (s\<lparr>mem := m\<rparr>) q vb = user_byte s q vb" if "user_proc q" for q vb
    using s'(2) [OF that, of vb] s'(3) user_translate_offset(2) [OF assms(1) that] user_translate_user_va [OF assms(1) that]
    by (cases "user_translate s q vb") (auto simp: user_byte_def)
  moreover have "Some (m (kva + i)) = user_byte s p (uva + i)" if "i < len" for i
    using assms(6) m(2) [OF that] that by (fastforce simp: user_byte_def)
  ultimately show ?thesis using run s'(1) m(3) by (intro exI [of _ "s\<lparr>mem := m\<rparr>"]) simp
qed

lemma demo_mapped:
  obtains s :: vmm where "vm_inv s" "user_proc 1" "\<forall>i < 4. user_translate s 1 (0x40001234 + i) \<noteq> None"
proof -
  obtain s :: vmm and a where s: "vm_inv s" "user_translate s 1 0x40001234 = Some a" using demo_vm_mapped by blast
  have "user_translate s 1 (0x40001234 + i) \<noteq> None" if "i < 4" for i
    using user_translate_add(1) [OF s(1) demo_vm_facts(2) user_translate_user_va [OF s(1) demo_vm_facts(2) s(2)] s(2), of i] that
    by (simp add: word_less_nat_alt)
  with s(1) demo_vm_facts(2) show thesis by (intro that) auto
qed

theorem pt_copyout_correct_witness:
  "\<exists>s s' :: vmm. pt_copyout 0x1000 1 0x40001234 4 s = Inr (4, s') \<and> user_byte s' 1 0x40001236 = Some (mem s 0x1002)"
proof -
  obtain s :: vmm where s: "vm_inv s" "user_proc 1" "\<forall>i < 4. user_translate s 1 (0x40001234 + i) \<noteq> None"
    by (rule demo_mapped)
  have "VM_USERLO \<le> 0x40001234" "unat (0x40001234 :: u32) + unat (4 :: u32) \<le> unat VM_USERHI"
      "unat (0x1000 :: u32) + unat (4 :: u32) \<le> unat VM_USERLO"
    by (simp_all add: VM_USERLO_def VM_USERHI_def)
  from pt_copyout_correct [OF s(1,2) this s(3)] s(2) show ?thesis by fastforce
qed

theorem pt_copyin_correct_witness:
  "\<exists>(s :: vmm) s' kva. pt_copyin 1 0x40001234 kva 4 s = Inr (4, s') \<and> Some (mem s' (kva + 2)) = user_byte s 1 0x40001236"
proof -
  obtain s :: vmm where s: "vm_inv s" "user_proc 1" "\<forall>i < 4. user_translate s 1 (0x40001234 + i) \<noteq> None"
    by (rule demo_mapped)
  have placed: "idptbl_placed s" using s(1) by (simp add: vm_inv_def identity_ok_def)
  define kva :: u32 where "kva = (if IDPTbl_addr s = 0 then 0x400000 else 0)"
  have "IDPTbl_addr s \<noteq> 0 \<Longrightarrow> 4 \<le> unat (IDPTbl_addr s)"
    using placed by (cases "unat (IDPTbl_addr s) < 4") (auto simp: idptbl_placed_def unat_eq_0)
  then have "kernel_buffer s kva 4" by (auto simp: kernel_buffer_def kva_def VM_USERLO_def)
  moreover have "VM_USERLO \<le> 0x40001234" "unat (0x40001234 :: u32) + unat (4 :: u32) \<le> unat VM_USERHI"
    by (simp_all add: VM_USERLO_def VM_USERHI_def)
  ultimately show ?thesis
    using pt_copyin_correct [OF s(1,2) _ _ _ s(3), of kva] by fastforce
qed

text \<open>C23: the result of \<open>alloc_page\<close> is ignored.  When the user page is absent and the quota of the
  process is used up, \<open>pt_copyout\<close> still reports success and writes the data to the lowest page of
  physical memory, at the offset of the user address.\<close>

theorem pt_copyout_ignores_failure:
  assumes "vm_inv s" "user_proc p" "is_used (CONTAINER s) p" "user_va uva"
    and "mapping s p (page_of uva) = 0" "\<not> pages_needed s p uva \<le> page_quota_left s p"
    and "len \<noteq> 0" "unat uva mod 4096 + unat len \<le> 4096" "unat kva + unat len \<le> unat VM_USERLO"
  shows "\<exists>s'. pt_copyout kva p uva len s = Inr (len, s') \<and>
    (\<forall>i < len. mem s' (uva mod 4096 + i) = mem s (kva + i))"
proof -
  from alloc_page_fails [OF assms(1-4,6)] obtain s1 where
    s1: "alloc_page p uva (PTE_P OR PTE_U OR PTE_W) s = Inr (MagicNumber, s1)" "mapping s1 = mapping s" "mem s1 = mem s"
    by blast
  have pa: "user_pa p uva s = Inr (uva mod 4096, s1)"
    using s1 assms(2,5) by (simp add: user_pa_def monad_defs get_ptbl_entry_by_va_eq user_proc_def PAGESIZE_def)
  have off: "unat (uva mod 4096) = unat uva mod 4096" by (simp add: unat_mod)
  have sz: "chunk len (uva mod 4096) = len"
    using assms(8) by (simp only: word_unat_eq_iff unat_chunk off)
  have pg: "unat (page_of uva) * 4096 + unat uva mod 4096 = unat uva" by (simp add: unat_page_of)
  have lo: "VM_USERLO \<le> uva" using assms(4) by (simp add: user_va_def)
  have "page_of uva < VM_USERHI_PI" using assms(4) by (simp add: user_va_page user_page_def)
  then have hi: "unat uva + unat len \<le> unat VM_USERHI"
    using pg assms(8) by (simp add: VM_PI_values VM_USERHI_def word_less_nat_alt)
  note g = copy_guards [OF lo hi assms(9)]
  obtain fuel where fuel: "unat len = Suc fuel" using assms(7) by (cases "unat len") (auto simp: unat_eq_0)
  have "copyout_loop (unat len) kva p uva len 0 s = Inr (len, s1\<lparr>mem := memcpy (uva mod 4096) kva len (mem s)\<rparr>)"
    using pa assms(7) s1(3) by (cases fuel) (simp_all add: fuel monad_defs Let_def sz)
  then have run: "pt_copyout kva p uva len s = Inr (len, s1\<lparr>mem := memcpy (uva mod 4096) kva len (mem s)\<rparr>)"
    using g by (simp add: pt_copyout_def)
  have "memcpy (uva mod 4096) kva len (mem s) (uva mod 4096 + i) = mem s (kva + i)" if "i < len" for i
    using memmove_apply [of kva len "uva mod 4096"] off assms(8,9) that by (simp add: memcpy_def VM_USERLO_def)
  with run show ?thesis by (intro exI) auto
qed

theorem pt_copyout_ignores_failure_witness:
  "\<exists>s s' :: vmm. pt_copyout 0x1000 1 0x40001234 4 s = Inr (4, s') \<and> mem s' 0x236 = mem s 0x1002"
proof -
  obtain s :: vmm where s: "vm_inv s" "is_used (CONTAINER s) 1" "\<not> has_table s 1 0x40001234" "page_quota_left s 1 = 1"
    using demo_vm_one_page by blast
  have "user_va 0x40001234" by (simp add: user_va_def VM_USERLO_def VM_USERHI_def)
  moreover have "mapping s 1 (page_of 0x40001234) = 0" "\<not> pages_needed s 1 0x40001234 \<le> page_quota_left s 1"
    using s(3,4) by (simp_all add: mapping_def has_table_def pages_needed_def)
  ultimately obtain s' where "pt_copyout 0x1000 1 0x40001234 4 s = Inr (4, s')"
      "\<forall>i < 4. mem s' (0x40001234 mod 4096 + i) = mem s (0x1000 + i)"
    using pt_copyout_ignores_failure [OF s(1) demo_vm_facts(2) s(2), of "0x40001234" 4 "0x1000"]
    by (auto simp: VM_USERLO_def)
  moreover from this(2) have "mem s' 0x236 = mem s 0x1002" by (auto dest: spec [of _ 2])
  ultimately show ?thesis by blast
qed

end
