(* ===== verification/Smp.thy ===== *)
theory Smp
  imports Apic PMap
begin

text \<open>
  Finding and starting the processors: the tables of the firmware (\<open>kern/dev/acpi.c\<close>, \<open>acpi.h\<close>, \<open>mptable.h\<close>), which lie
  in physical memory, and \<open>kern/dev/pcpu_mp.c\<close>.  A pointer to a table is its address, the null pointer is 0;
  fields are read at their offsets.  Messages are left out.
\<close>

section \<open>Structures in memory\<close>

definition load_bytes :: "memory \<Rightarrow> u32 \<Rightarrow> nat \<Rightarrow> bytes" where
  "load_bytes m a n = map (\<lambda>i. m (a + word_of_nat i)) [0..<n]"

definition store_bytes :: "u32 \<Rightarrow> bytes \<Rightarrow> memory \<Rightarrow> memory" where
  "store_bytes a xs m = (\<lambda>x. if unat (x - a) < length xs then xs ! unat (x - a) else m x)"

text \<open>Sum of \<open>len\<close> bytes, \<open>len\<close> taken as a signed number.\<close>

definition sum_bytes :: "memory \<Rightarrow> u32 \<Rightarrow> u32 \<Rightarrow> u8" where
  "sum_bytes m addr len = sum_list (load_bytes m addr (nat (sint len)))"

definition sdt_sig :: "memory \<Rightarrow> u32 \<Rightarrow> u32" where
  "sdt_sig m a = load32 m a"

definition sdt_length :: "memory \<Rightarrow> u32 \<Rightarrow> u32" where
  "sdt_length m a = load32 m (a + 4)"

definition ACPI_RSDP_SIG1 :: u32 where "ACPI_RSDP_SIG1 = 0x20445352"
definition ACPI_RSDP_SIG2 :: u32 where "ACPI_RSDP_SIG2 = 0x20525450"
definition ACPI_RSDT_SIG :: u32 where "ACPI_RSDT_SIG = 0x54445352"
definition ACPI_XSDT_SIG :: u32 where "ACPI_XSDT_SIG = 0x54445358"
definition ACPI_MADT_SIG :: u32 where "ACPI_MADT_SIG = 0x43495041"

text \<open>The structure with the pointers to the tables has 36 bytes.\<close>

definition rsdp_size :: u32 where "rsdp_size = 36"

definition rsdt_addr :: "memory \<Rightarrow> u32 \<Rightarrow> u32" where
  "rsdt_addr m p = load32 m (p + 16)"

text \<open>The lower half of a 64-bit address.\<close>

definition xsdt_addr :: "memory \<Rightarrow> u32 \<Rightarrow> u32" where
  "xsdt_addr m p = load32 m (p + 24)"

section \<open>Search for the ACPI tables\<close>

primrec rsdp_loop :: "nat \<Rightarrow> u32 \<Rightarrow> u32 \<Rightarrow> ('a hw_scheme, u32) kern" where
  "rsdp_loop 0 p e = faultK Diverge"
| "rsdp_loop (Suc k) p e = bindK (readK mem) (\<lambda>m.
     if p < e
     then if load32 m p = ACPI_RSDP_SIG1 \<and> load32 m (p + 4) = ACPI_RSDP_SIG2 \<and> sum_bytes m p rsdp_size = 0 then returnK p
       else rsdp_loop k (p + 16) e
     else returnK 0)"

definition acpi_probe_rsdp_aux :: "u32 \<Rightarrow> u32 \<Rightarrow> ('a hw_scheme, u32) kern" where
  "acpi_probe_rsdp_aux addr len = rsdp_loop (unat len div 16 + 2) addr (addr + len)"

definition bda_word :: "memory \<Rightarrow> u32 \<Rightarrow> u32" where
  "bda_word m i = push_bit 8 (ucast (m (0x400 + i + 1))) OR ucast (m (0x400 + i))"

definition acpi_probe_rsdp :: "('a hw_scheme, u32) kern" where
  "acpi_probe_rsdp = bindK (readK (\<lambda>s. push_bit 4 (bda_word (mem s) 0x0E))) (\<lambda>p.
     bindK (if p \<noteq> 0 then acpi_probe_rsdp_aux p 1024 else returnK 0) (\<lambda>r.
       if r \<noteq> 0 then returnK r else acpi_probe_rsdp_aux 0xE0000 0x1FFFF))"

definition acpi_probe_rsdt :: "u32 \<Rightarrow> ('a hw_scheme, u32) kern" where
  "acpi_probe_rsdt rsdp = seqK (guardK (rsdp \<noteq> 0) (Panic ''Kernel assertion failed'')) (bindK (readK mem) (\<lambda>m.
     let rsdt = rsdt_addr m rsdp in
     returnK (if rsdt = 0 then 0
       else if sdt_sig m rsdt = ACPI_RSDT_SIG \<and> sum_bytes m rsdt (sdt_length m rsdt) = 0 then rsdt else 0)))"

definition acpi_probe_xsdt :: "u32 \<Rightarrow> ('a hw_scheme, u32) kern" where
  "acpi_probe_xsdt rsdp = seqK (guardK (rsdp \<noteq> 0) (Panic ''Kernel assertion failed'')) (bindK (readK mem) (\<lambda>m.
     let xsdt = xsdt_addr m rsdp in
     returnK (if xsdt = 0 then 0
       else if sdt_sig m xsdt = ACPI_XSDT_SIG \<and> sum_bytes m xsdt (sdt_length m xsdt) = 0 then xsdt else 0)))"

text \<open>The entries of a table of tables, each \<open>w\<close> bytes wide: 4 in the one, 8 in the other, of which the lower
  half is the address.\<close>

primrec sdt_ent_loop :: "nat \<Rightarrow> u32 \<Rightarrow> u32 \<Rightarrow> u32 \<Rightarrow> u32 \<Rightarrow> ('a hw_scheme, u32) kern" where
  "sdt_ent_loop 0 w p e sig = faultK Diverge"
| "sdt_ent_loop (Suc k) w p e sig = bindK (readK mem) (\<lambda>m.
     if p < e
     then let hdr = load32 m p in
       if sdt_sig m hdr = sig \<and> sum_bytes m hdr (sdt_length m hdr) = 0 then returnK hdr
       else sdt_ent_loop k w (p + w) e sig
     else returnK 0)"

definition acpi_probe_rsdt_ent :: "u32 \<Rightarrow> u32 \<Rightarrow> ('a hw_scheme, u32) kern" where
  "acpi_probe_rsdt_ent rsdt sig = seqK (guardK (rsdt \<noteq> 0) (Panic ''Kernel assertion failed''))
     (bindK (readK (\<lambda>s. sdt_length (mem s) rsdt)) (\<lambda>len. sdt_ent_loop (unat len div 4 + 2) 4 (rsdt + 36) (rsdt + len) sig))"

definition acpi_probe_xsdt_ent :: "u32 \<Rightarrow> u32 \<Rightarrow> ('a hw_scheme, u32) kern" where
  "acpi_probe_xsdt_ent xsdt sig = seqK (guardK (xsdt \<noteq> 0) (Panic ''Kernel assertion failed''))
     (bindK (readK (\<lambda>s. sdt_length (mem s) xsdt)) (\<lambda>len. sdt_ent_loop (unat len div 8 + 2) 8 (xsdt + 36) (xsdt + len) sig))"

section \<open>The table of processors\<close>

definition pcpuinfo_zero :: pcpuinfo where
  "pcpuinfo_zero = \<lparr>pi_lapicid = 0, pi_bsp = False, pi_cpuid_high = 0, pi_vendor = replicate 20 0, pi_cpu_vendor = UNKNOWN_CPU,
     pi_family = 0, pi_model = 0, pi_step = 0, pi_ext_family = 0, pi_ext_model = 0, pi_brand_idx = 0, pi_clflush_size = 0,
     pi_max_cpu_id = 0, pi_apic_id = 0, pi_feature1 = 0, pi_feature2 = 0, pi_l1_cache_size = 0, pi_l1_cache_line_size = 0,
     pi_cpuid_exthigh = 0\<rparr>"

definition upd_info :: "u32 \<Rightarrow> (pcpuinfo \<Rightarrow> pcpuinfo) \<Rightarrow> ('a hw_scheme, unit) kern" where
  "upd_info c f = indexK c NUM_CPUS (modifyK (\<lambda>s. s\<lparr>arch_info := (arch_info s)(c := f (arch_info s c))\<rparr>))"

definition pcpu_mp_init_cpu :: "u32 \<Rightarrow> u8 \<Rightarrow> bool \<Rightarrow> ('a hw_scheme, unit) kern" where
  "pcpu_mp_init_cpu i lapic_id is_bsp = seqK (guardK (is_bsp \<and> i = 0 \<or> \<not> is_bsp) (Panic ''Kernel assertion failed''))
     (if i \<ge> NUM_CPUS then returnK ()
      else upd_info i (\<lambda>x. x\<lparr>pi_lapicid := ucast lapic_id, pi_bsp := is_bsp\<rparr>))"

definition inc_ncpu :: "('a hw_scheme, unit) kern" where
  "inc_ncpu = modifyK (\<lambda>s. s\<lparr>ncpu := ncpu s + 1\<rparr>)"

text \<open>Switching the interrupt lines from the old controller to the new ones.\<close>

definition imcr_to_apic :: "('a hw_scheme, unit) kern" where
  "imcr_to_apic = seqK (outb 0x22 0x70) (bindK (inb 0x23) (\<lambda>v. outb 0x23 (v OR 1)))"

definition PCPU_AP_START_ADDR :: u32 where "PCPU_AP_START_ADDR = 0x8000"

section \<open>The MP tables\<close>

definition sum_mp :: "memory \<Rightarrow> u32 \<Rightarrow> u32 \<Rightarrow> u8" where
  "sum_mp m addr len = sum_list (load_bytes m addr (nat (sint len)))"

definition mem_is :: "memory \<Rightarrow> u32 \<Rightarrow> string \<Rightarrow> bool" where
  "mem_is m a str = (memcmp (load_bytes m a (length str)) (map of_char str) (length str) = Some 0)"

definition mp_size :: u32 where "mp_size = 16"

primrec mpsearch_loop :: "nat \<Rightarrow> u32 \<Rightarrow> u32 \<Rightarrow> ('a hw_scheme, u32) kern" where
  "mpsearch_loop 0 p e = faultK Diverge"
| "mpsearch_loop (Suc k) p e = bindK (readK mem) (\<lambda>m.
     if p < e
     then if mem_is m p ''_MP_'' \<and> sum_mp m p mp_size = 0 then returnK p else mpsearch_loop k (p + mp_size) e
     else returnK 0)"

definition mpsearch1 :: "u32 \<Rightarrow> u32 \<Rightarrow> ('a hw_scheme, u32) kern" where
  "mpsearch1 addr len = mpsearch_loop (unat len div 16 + 2) addr (addr + len)"

definition mpsearch :: "('a hw_scheme, u32) kern" where
  "mpsearch = bindK (readK mem) (\<lambda>m. let p = push_bit 4 (bda_word m 0x0E) in
     bindK (if p \<noteq> 0 then mpsearch1 p 1024 else mpsearch1 (bda_word m 0x13 * 1024 - 1024) 1024) (\<lambda>r.
       if r \<noteq> 0 then returnK r else mpsearch1 0xF0000 0x10000))"

definition mp_physaddr :: "memory \<Rightarrow> u32 \<Rightarrow> u32" where
  "mp_physaddr m p = load32 m (p + 4)"

definition mp_imcrp :: "memory \<Rightarrow> u32 \<Rightarrow> u8" where
  "mp_imcrp m p = m (p + 12)"

definition conf_length :: "memory \<Rightarrow> u32 \<Rightarrow> u32" where
  "conf_length m c = load16 m (c + 4)"

definition conf_lapicaddr :: "memory \<Rightarrow> u32 \<Rightarrow> u32" where
  "conf_lapicaddr m c = load32 m (c + 36)"

definition conf_size :: u32 where "conf_size = 44"

text \<open>The result is the addresses of the configuration table and of the structure that points to it.\<close>

definition mpconfig :: "('a hw_scheme, u32 \<times> u32) kern" where
  "mpconfig = bindK mpsearch (\<lambda>mp. bindK (readK mem) (\<lambda>m. returnK (
     if mp = 0 \<or> mp_physaddr m mp = 0 then (0, 0)
     else let conf = mp_physaddr m mp in
       if \<not> mem_is m conf ''PCMP'' then (0, 0)
       else if m (conf + 6) \<noteq> 1 \<and> m (conf + 6) \<noteq> 4 then (0, 0)
       else if sum_mp m conf (conf_length m conf) \<noteq> 0 then (0, 0)
       else (conf, mp))))"

definition MPENAB :: u8 where "MPENAB = 1"
definition MPBOOT :: u8 where "MPBOOT = 2"
definition MPPROC :: u8 where "MPPROC = 0"
definition MPBUS :: u8 where "MPBUS = 1"
definition MPIOAPIC :: u8 where "MPIOAPIC = 2"
definition MPIOINTR :: u8 where "MPIOINTR = 3"
definition MPLINTR :: u8 where "MPLINTR = 4"
definition mpproc_size :: u32 where "mpproc_size = 20"
definition mpioapic_size :: u32 where "mpioapic_size = 8"

text \<open>A processor entry; the result is the index for the next further processor.\<close>

definition mp_proc_entry :: "u32 \<Rightarrow> u32 \<Rightarrow> ('a hw_scheme, u32) kern" where
  "mp_proc_entry p ap_idx = bindK (readK mem) (\<lambda>m. let flags = m (p + 3); apicid = m (p + 1) in
     if flags AND MPENAB = 0 then returnK ap_idx
     else if flags AND MPBOOT \<noteq> 0 then seqK (pcpu_mp_init_cpu 0 apicid True) (seqK inc_ncpu (returnK ap_idx))
     else seqK (pcpu_mp_init_cpu ap_idx apicid False) (seqK inc_ncpu (returnK (ap_idx + 1))))"

text \<open>An entry of unknown type is not skipped: the loop looks at it again and again.\<close>

primrec mp_entries :: "nat \<Rightarrow> u32 \<Rightarrow> u32 \<Rightarrow> u32 \<Rightarrow> ('a hw_scheme, unit) kern" where
  "mp_entries 0 p e ap_idx = faultK Diverge"
| "mp_entries (Suc k) p e ap_idx = (if p < e
     then bindK (readK mem) (\<lambda>m.
       if m p = MPPROC then bindK (mp_proc_entry p ap_idx) (\<lambda>ap_idx. mp_entries k (p + mpproc_size) e ap_idx)
       else if m p = MPIOAPIC
       then seqK (ioapic_register (load32 m (p + 4)) (m (p + 1)) 0) (mp_entries k (p + mpioapic_size) e ap_idx)
       else if m p = MPBUS \<or> m p = MPIOINTR \<or> m p = MPLINTR then mp_entries k (p + 8) e ap_idx
       else mp_entries k p e ap_idx)
     else returnK ())"

definition mp_init_fallback :: "('a hw_scheme, bool) kern" where
  "mp_init_fallback = bindK (readK mp_inited) (\<lambda>i. if i then returnK True
     else bindK mpconfig (\<lambda>(conf, mp). if conf = 0 then returnK False
       else bindK (readK mem) (\<lambda>m. seqK (blockK [
         modifyK (\<lambda>s. s\<lparr>ismp := True, ncpu := 0\<rparr>),
         lapic_register (conf_lapicaddr m conf),
         mp_entries (unat (conf_length m conf) + 1) (conf + conf_size) (conf + conf_length m conf) 1,
         whenK (mp_imcrp m mp \<noteq> 0) imcr_to_apic,
         modifyK (\<lambda>s. s\<lparr>mem := memcpy 0x8000 (boot_ap_start s) (boot_ap_size s) (mem s)\<rparr>),
         modifyK (\<lambda>s. s\<lparr>mp_inited := True\<rparr>)]) (returnK True))))"

section \<open>The ACPI table of interrupt controllers\<close>

definition ACPI_MADT_APIC_LAPIC :: u8 where "ACPI_MADT_APIC_LAPIC = 0"
definition ACPI_MADT_APIC_IOAPIC :: u8 where "ACPI_MADT_APIC_IOAPIC = 1"
definition ACPI_APIC_ENABLED :: u32 where "ACPI_APIC_ENABLED = 1"
definition APIC_MADT_PCAT_COMPAT :: u32 where "APIC_MADT_PCAT_COMPAT = 1"

text \<open>A processor entry: the first one is the boot processor.\<close>

definition madt_lapic :: "u8 \<Rightarrow> bool \<Rightarrow> u32 \<Rightarrow> ('a hw_scheme, bool \<times> u32) kern" where
  "madt_lapic lapic_id found_bsp ap_idx =
     (if \<not> found_bsp then seqK (pcpu_mp_init_cpu 0 lapic_id True) (seqK inc_ncpu (returnK (True, ap_idx)))
      else seqK (pcpu_mp_init_cpu ap_idx lapic_id False) (seqK inc_ncpu (returnK (True, ap_idx + 1))))"

definition madt_entry :: "u32 \<Rightarrow> bool \<Rightarrow> u32 \<Rightarrow> ('a hw_scheme, bool \<times> u32) kern" where
  "madt_entry p found_bsp ap_idx = bindK (readK mem) (\<lambda>m.
     if m p = ACPI_MADT_APIC_LAPIC
     then if load32 m (p + 4) AND ACPI_APIC_ENABLED = 0 then returnK (found_bsp, ap_idx)
       else madt_lapic (m (p + 3)) found_bsp ap_idx
     else if m p = ACPI_MADT_APIC_IOAPIC
     then seqK (ioapic_register (load32 m (p + 4)) (m (p + 2)) (load32 m (p + 8))) (returnK (found_bsp, ap_idx))
     else returnK (found_bsp, ap_idx))"

primrec madt_entries :: "nat \<Rightarrow> u32 \<Rightarrow> u32 \<Rightarrow> bool \<Rightarrow> u32 \<Rightarrow> ('a hw_scheme, unit) kern" where
  "madt_entries 0 p e found_bsp ap_idx = faultK Diverge"
| "madt_entries (Suc k) p e found_bsp ap_idx = (if p < e
     then bindK (madt_entry p found_bsp ap_idx) (\<lambda>(found_bsp, ap_idx).
       bindK (readK (\<lambda>s. mem s (p + 1))) (\<lambda>len. madt_entries k (p + ucast len) e found_bsp ap_idx))
     else returnK ())"

definition madt_addr :: "('a hw_scheme, u32) kern" where
  "madt_addr = bindK acpi_probe_rsdp (\<lambda>rsdp. if rsdp = 0 then returnK 0
     else bindK (acpi_probe_xsdt rsdp) (\<lambda>xsdt.
       if xsdt \<noteq> 0 then acpi_probe_xsdt_ent xsdt ACPI_MADT_SIG
       else bindK (acpi_probe_rsdt rsdp) (\<lambda>rsdt. if rsdt = 0 then returnK 0 else acpi_probe_rsdt_ent rsdt ACPI_MADT_SIG)))"

text \<open>A table of \<open>n\<close> bytes has at most \<open>n\<close> entries, if none of them has length 0.\<close>

definition pcpu_mp_init :: "('a hw_scheme, bool) kern" where
  "pcpu_mp_init = bindK (readK mp_inited) (\<lambda>i. if i then returnK True
     else bindK madt_addr (\<lambda>madt.
       if madt = 0
       then bindK mp_init_fallback (\<lambda>ok. if ok then returnK True
         else seqK (modifyK (\<lambda>s. s\<lparr>ismp := False, ncpu := 1\<rparr>)) (returnK False))
       else bindK (readK mem) (\<lambda>m. seqK (blockK [
         modifyK (\<lambda>s. s\<lparr>ismp := True\<rparr>),
         lapic_register (load32 m (madt + 36)),
         modifyK (\<lambda>s. s\<lparr>ncpu := 0\<rparr>),
         madt_entries (unat (sdt_length m madt) + 1) (madt + 44) (madt + sdt_length m madt) False 1,
         whenK (load32 m (madt + 40) AND APIC_MADT_PCAT_COMPAT = 0) imcr_to_apic,
         modifyK (\<lambda>s. s\<lparr>mem := memmove 0x8000 (boot_ap_start s) (boot_ap_size s) (mem s)\<rparr>),
         modifyK (\<lambda>s. s\<lparr>mp_inited := True\<rparr>)]) (returnK True))))"

section \<open>Starting a processor\<close>

text \<open>The new processor sets its boot flag; in a sequential run nobody does.\<close>

definition pcpu_boot_ap :: "u32 \<Rightarrow> u32 \<Rightarrow> u32 \<Rightarrow> ('a hw_scheme, u32) kern" where
  "pcpu_boot_ap c f stack_addr = bindK (readK ncpu) (\<lambda>n.
     seqK (guardK (c > 0 \<and> c < n) (Panic ''Kernel assertion failed''))
     (bindK (get_pcpu_inited_info c) (\<lambda>ini. seqK (guardK ini (Panic ''Kernel assertion failed''))
     (seqK (guardK (f \<noteq> 0) (Panic ''Kernel assertion failed''))
     (bindK pcpu_onboot (\<lambda>bsp. if \<not> bsp then returnK 1
      else bindK (get_pcpu_boot_info c) (\<lambda>b. if b then returnK 0
        else bindK (pcpu_cpu_lapicid c) (\<lambda>l. seqK (blockK [
          modifyK (\<lambda>s. s\<lparr>mem := store32 (PCPU_AP_START_ADDR - 12) (kern_init_ap_addr s)
            (store32 (PCPU_AP_START_ADDR - 8) f (store32 (PCPU_AP_START_ADDR - 4) (stack_addr + 4096) (mem s)))\<rparr>),
          lapic_startcpu l PCPU_AP_START_ADDR,
          bindK (get_pcpu_boot_info c) (\<lambda>b. guardK b Spin)]) (returnK 0)))))))))"

section \<open>Identification of a processor\<close>

definition vendor_bytes :: "u32 \<Rightarrow> u32 \<Rightarrow> u32 \<Rightarrow> bytes" where
  "vendor_bytes b d c = bytes32 b @ bytes32 d @ bytes32 c @ [0]"

definition vendor_of :: "bytes \<Rightarrow> ('a hw_scheme, cpu_vendor) kern" where
  "vendor_of v = bindK (bytesK (strncmp v (lit ''GenuineIntel'') 20)) (\<lambda>c. if c = 0 then returnK INTEL
     else bindK (bytesK (strncmp v (lit ''AuthenticAMD'') 20)) (\<lambda>c. returnK (if c = 0 then AMD else UNKNOWN_CPU)))"

text \<open>Size and line size by descriptor; the table has 255 entries.\<close>

definition intel_cache_info :: "u8 \<Rightarrow> ('a hw_scheme, u32 \<times> u32) kern" where
  "intel_cache_info d = indexK d 0xFF (returnK (case map_of [(0x0A, 8, 32), (0x0C, 16, 32), (0x0D, 16, 64), (0x0E, 24, 64),
     (0x2C, 32, 64), (0x60, 16, 64), (0x66, 8, 64), (0x67, 16, 64), (0x68, 32, 64)] d of Some x \<Rightarrow> x | None \<Rightarrow> (0, 0)))"

primrec cache_descs :: "bytes \<Rightarrow> u32 \<times> u32 \<Rightarrow> ('a hw_scheme, u32 \<times> u32) kern" where
  "cache_descs [] r = returnK r"
| "cache_descs (d # ds) r = bindK (intel_cache_info d) (cache_descs ds)"

text \<open>Asking for leaf 2 several times gives the same answer each time.  The first subleaf that describes a data cache of level 1.\<close>

primrec leaf4_scan :: "u32 list \<Rightarrow> ('a hw_scheme, (u32 \<times> u32) option) kern" where
  "leaf4_scan [] = returnK None"
| "leaf4_scan (i # is) = bindK (cpuid_subleaf 4 i) (\<lambda>(eax, ebx, ecx, edx).
     if eax AND 0xF = 1 \<and> drop_bit 5 (eax AND 0xE0) = 1 then returnK (Some (ebx, ecx)) else leaf4_scan is)"

definition leaf4_size :: "u32 \<Rightarrow> u32 \<Rightarrow> u32 \<times> u32" where
  "leaf4_size b c = ((drop_bit 22 (b AND 0xFFC00000) + 1) * (drop_bit 12 (b AND 0x3FF000) + 1) *
     ((b AND 0xFFF) + 1) * (c + 1) div 1024, (b AND 0xFFF) + 1)"

definition l1_cache :: "cpu_vendor \<Rightarrow> ('a hw_scheme, u32 \<times> u32) kern" where
  "l1_cache v = (case v of
     INTEL \<Rightarrow> bindK (cpuid 2) (\<lambda>(eax, ebx, ecx, edx).
       bindK (cache_descs (bytes32 eax @ bytes32 ebx @ bytes32 ecx @ bytes32 edx) (0, 0)) (\<lambda>(size, line).
         if size \<noteq> 0 \<and> line \<noteq> 0 then returnK (size, line)
         else bindK (leaf4_scan [0, 1, 2]) (\<lambda>r. returnK (case r of None \<Rightarrow> (size, line) | Some (ebx, ecx) \<Rightarrow> leaf4_size ebx ecx))))
   | AMD \<Rightarrow> bindK (cpuid 0x80000005) (\<lambda>(eax, ebx, ecx, edx). returnK (drop_bit 24 (ecx AND 0xFF000000), ecx AND 0xFF))
   | UNKNOWN_CPU \<Rightarrow> returnK (0, 0))"

definition pcpu_identify :: "('a hw_scheme, unit) kern" where
  "pcpu_identify = bindK get_pcpu_idx (\<lambda>c.
     bindK (cpuid 0) (\<lambda>(high, ebx0, ecx0, edx0). let vn = vendor_bytes ebx0 edx0 ecx0 in
     bindK (vendor_of vn) (\<lambda>vendor. bindK (cpuid 1) (\<lambda>(eax, ebx, ecx, edx).
     bindK (l1_cache vendor) (\<lambda>(size, line). bindK (cpuid 0x80000000) (\<lambda>(exthigh, _, _, _).
       upd_info c (\<lambda>x. x\<lparr>pi_cpuid_high := high, pi_vendor := vn @ drop 13 (pi_vendor x), pi_cpu_vendor := vendor,
         pi_family := ucast (drop_bit 8 eax AND 0xF), pi_model := ucast (drop_bit 4 eax AND 0xF), pi_step := ucast (eax AND 0xF),
         pi_ext_family := ucast (drop_bit 20 eax AND 0xFF), pi_ext_model := ucast (drop_bit 16 eax AND 0xFF),
         pi_brand_idx := ucast (ebx AND 0xFF), pi_clflush_size := ucast (drop_bit 8 ebx AND 0xFF),
         pi_max_cpu_id := ucast (drop_bit 16 ebx AND 0xFF), pi_apic_id := ucast (drop_bit 24 ebx AND 0xFF),
         pi_feature1 := ecx, pi_feature2 := edx, pi_l1_cache_size := size, pi_l1_cache_line_size := line,
         pi_cpuid_exthigh := exthigh\<rparr>)))))))"

definition pcpu_init_cpu :: "('a hw_scheme, unit) kern" where
  "pcpu_init_cpu = pcpu_identify"

section \<open>A machine\<close>

text \<open>One processor, interrupt controllers known, no input pending.\<close>

definition demo_hw :: hw where
  "demo_hw = con.extend demo_con (hw.fields [] (\<lambda>_. []) [] (\<lambda>_ _. (0, 0, 0, 0)) [] 0 0 0xFFFB False 0xFEE00000 [] (\<lambda>_. []) []
     (\<lambda>_ _. 0) 1000000 True (\<lambda>_. 0) [] False (\<lambda>_. pcpuinfo_zero\<lparr>pi_bsp := True\<rparr>) 1 True False 0 0 0)"

end
