(* ===== verification/Proc.thy ===== *)
theory Proc
  imports Smp
begin

text \<open>
  Processes: segment descriptors and task state of \<open>kern/lib/seg.c\<close>, creation and start of user
  processes (\<open>kern/proc/PProc\<close>), and the access of system call handlers to the trap frame
  (\<open>kern/trap/TSyscallArg\<close>).  A kernel stack record is named by its address; a trap frame, which
  lies on the kernel stack of its process, by the id of the process.
\<close>

section \<open>Segments\<close>

record segdesc_t =
  sd_lim_15_0 :: u16
  sd_base_15_0 :: u16
  sd_base_23_16 :: u8
  sd_type :: nat
  sd_s :: nat
  sd_dpl :: nat
  sd_p :: nat
  sd_lim_19_16 :: nat
  sd_avl :: nat
  sd_rsv1 :: nat
  sd_db :: nat
  sd_g :: nat
  sd_base_31_24 :: u8

definition SEGDESC_NULL :: segdesc_t where
  "SEGDESC_NULL = \<lparr>sd_lim_15_0 = 0, sd_base_15_0 = 0, sd_base_23_16 = 0, sd_type = 0, sd_s = 0, sd_dpl = 0, sd_p = 0,
     sd_lim_19_16 = 0, sd_avl = 0, sd_rsv1 = 0, sd_db = 0, sd_g = 0, sd_base_31_24 = 0\<rparr>"

definition SEGDESC32 :: "nat \<Rightarrow> u32 \<Rightarrow> u32 \<Rightarrow> nat \<Rightarrow> segdesc_t" where
  "SEGDESC32 ty base lim dpl = \<lparr>sd_lim_15_0 = ucast (drop_bit 12 lim AND 0xFFFF), sd_base_15_0 = ucast (base AND 0xFFFF),
     sd_base_23_16 = ucast (drop_bit 16 base AND 0xFF), sd_type = ty, sd_s = 1, sd_dpl = dpl, sd_p = 1,
     sd_lim_19_16 = unat (drop_bit 28 lim), sd_avl = 0, sd_rsv1 = 0, sd_db = 1, sd_g = 1,
     sd_base_31_24 = ucast (drop_bit 24 base)\<rparr>"

definition SEGDESC16 :: "nat \<Rightarrow> u32 \<Rightarrow> u32 \<Rightarrow> nat \<Rightarrow> segdesc_t" where
  "SEGDESC16 ty base lim dpl = \<lparr>sd_lim_15_0 = ucast (lim AND 0xFFFF), sd_base_15_0 = ucast (base AND 0xFFFF),
     sd_base_23_16 = ucast (drop_bit 16 base AND 0xFF), sd_type = ty, sd_s = 1, sd_dpl = dpl, sd_p = 1,
     sd_lim_19_16 = unat (drop_bit 16 lim), sd_avl = 0, sd_rsv1 = 0, sd_db = 1, sd_g = 0,
     sd_base_31_24 = ucast (drop_bit 24 base)\<rparr>"

definition STA_X :: nat where "STA_X = 8"
definition STA_W :: nat where "STA_W = 2"
definition STA_R :: nat where "STA_R = 2"
definition STS_T32A :: nat where "STS_T32A = 9"

definition CPU_GDT_KDATA :: u16 where "CPU_GDT_KDATA = 0x10"
definition CPU_GDT_UCODE :: u16 where "CPU_GDT_UCODE = 0x18"
definition CPU_GDT_UDATA :: u16 where "CPU_GDT_UDATA = 0x20"
definition FL_IF :: u32 where "FL_IF = 0x200"

record tss_t =
  ts_esp0 :: u32
  ts_ss0 :: u16
  ts_iomb :: u16
  ts_iopm :: bytes

section \<open>State\<close>

datatype handler = ExceptionHandler | InterruptHandler | SyscallDispatch

record proc = hw +
  tframe :: "u32 \<Rightarrow> tf_t"            \<comment> \<open>the frame of the last trap of a process\<close>
  uctx_pool :: "u32 \<Rightarrow> tf_t"
  user_regs :: tf_t                   \<comment> \<open>the registers of the CPU in user mode\<close>
  last_active :: "u32 \<Rightarrow> u32"
  TRAP_HANDLER :: "u32 \<Rightarrow> nat \<Rightarrow> handler option"
  trap_inited :: bool
  cr2 :: u32
  ks_gdt :: "u32 \<Rightarrow> segdesc_t list"
  ks_tss :: "u32 \<Rightarrow> tss_t"
  bsp_kstack_addr :: u32
  started :: bool
  proc_start_addr :: u32              \<comment> \<open>address of \<open>proc_start_user\<close>\<close>
  elf_image :: "u32 \<Rightarrow> u32"          \<comment> \<open>addresses of the linked program images\<close>
  kernel_buf :: u32
  sys_buf :: u32
  locals :: "nat \<Rightarrow> u32"             \<comment> \<open>addresses of the local arrays of a handler\<close>

section \<open>Kernel stacks\<close>

definition kstack_addr :: "'a thr_scheme \<Rightarrow> u32 \<Rightarrow> u32" where
  "kstack_addr s pid = proc_kstack_addr s + 4096 * pid"

text \<open>The task state follows the six descriptors in the record; it has 236 bytes.\<close>

definition tss_desc :: "u32 \<Rightarrow> segdesc_t" where
  "tss_desc ks = (SEGDESC16 STS_T32A (ks + 48) 235 0)\<lparr>sd_s := 0\<rparr>"

definition gdt_of :: "u32 \<Rightarrow> segdesc_t list" where
  "gdt_of ks = [SEGDESC_NULL, SEGDESC32 (STA_X + STA_R) 0 0xFFFFFFFF 0, SEGDESC32 STA_W 0 0xFFFFFFFF 0,
     SEGDESC32 (STA_X + STA_R) 0 0xFFFFFFFF 3, SEGDESC32 STA_W 0 0xFFFFFFFF 3, tss_desc ks]"

definition kstack_switch :: "u32 \<Rightarrow> ('a proc_scheme, unit) kern" where
  "kstack_switch pid = bindK get_pcpu_idx (\<lambda>cpu. bindK (get_pcpu_kstack_pointer cpu) (\<lambda>ks.
     indexK pid NUM_IDS (modifyK (\<lambda>s. s\<lparr>
       ks_tss := (ks_tss s)(ks := (ks_tss s ks)\<lparr>ts_esp0 := kstack_hi s pid, ts_ss0 := CPU_GDT_KDATA\<rparr>),
       ks_gdt := (ks_gdt s)(ks := (ks_gdt s ks)[5 := tss_desc (kstack_addr s pid)])\<rparr>))))"

text \<open>The part of \<open>seg_init\<close> that fills the stack record of a CPU.\<close>

definition seg_init_gdt :: "u32 \<Rightarrow> ('a proc_scheme, unit) kern" where
  "seg_init_gdt cpu = indexK cpu NUM_CPUS (modifyK (\<lambda>s. let ks = bsp_kstack_addr s + 4096 * cpu in s\<lparr>
     ks_gdt := (ks_gdt s)(ks := gdt_of ks),
     ks_tss := (ks_tss s)(ks := (ks_tss s ks)\<lparr>ts_esp0 := ks + 4096, ts_ss0 := CPU_GDT_KDATA\<rparr>),
     cur_kstack := (cur_kstack s)\<lparr>ks_magic := KSTACK_MAGIC\<rparr>\<rparr>))"

definition seg_init_proc :: "u32 \<Rightarrow> u32 \<Rightarrow> ('a proc_scheme, unit) kern" where
  "seg_init_proc cpu pid = indexK pid NUM_IDS (modifyK (\<lambda>s. let ks = kstack_addr s pid in s\<lparr>
     ks_gdt := (ks_gdt s)(ks := gdt_of ks),
     ks_tss := (ks_tss s)(ks := \<lparr>ts_esp0 = kstack_hi s pid, ts_ss0 = CPU_GDT_KDATA, ts_iomb = 104,
       ts_iopm = replicate 128 0 @ [0xFF]\<rparr>),
     thread_kstack := (thread_kstack s)(pid := \<lparr>ks_cpu_idx = cpu, ks_magic = KSTACK_MAGIC\<rparr>)\<rparr>))"

section \<open>Processes\<close>

definition trap_return :: "tf_t \<Rightarrow> ('a proc_scheme, unit) kern" where
  "trap_return f = modifyK (\<lambda>s. s\<lparr>user_regs := load_frame f (user_regs s)\<rparr>)"

definition set_last_active :: "u32 \<Rightarrow> u32 \<Rightarrow> ('a proc_scheme, unit) kern" where
  "set_last_active cpu pid = indexK cpu NUM_CPUS (modifyK (\<lambda>s. s\<lparr>last_active := (last_active s)(cpu := pid)\<rparr>))"

definition proc_start_user :: "('a proc_scheme, unit) kern" where
  "proc_start_user = bindK get_curid (\<lambda>cur_pid. bindK get_pcpu_idx (\<lambda>cpu_idx. bindK (readK started) (\<lambda>st. blockK [
     whenK (cur_pid \<noteq> 1 \<and> \<not> st) (seqK (modifyK (\<lambda>s. s\<lparr>started := True\<rparr>)) log_init),
     kstack_switch cur_pid,
     set_pdir_base cur_pid,
     set_last_active cpu_idx cur_pid,
     bindK (indexK cur_pid NUM_IDS (readK (\<lambda>s. uctx_pool s cur_pid))) trap_return])))"

definition start_frame :: "u32 \<Rightarrow> tf_t \<Rightarrow> tf_t" where
  "start_frame ip f = f\<lparr>tf_es := CPU_GDT_UDATA OR 3, tf_ds := CPU_GDT_UDATA OR 3, tf_cs := CPU_GDT_UCODE OR 3,
     tf_ss := CPU_GDT_UDATA OR 3, tf_esp := VM_USERHI, tf_eflags := FL_IF, tf_eip := ip\<rparr>"

definition proc_create :: "u32 \<Rightarrow> u32 \<Rightarrow> ('a proc_scheme, u32) kern" where
  "proc_create elf_addr q = bindK get_curid (\<lambda>i. bindK (readK proc_start_addr) (\<lambda>ent.
     bindK (thread_spawn ent i q) (\<lambda>pid. seqK
       (whenK (pid \<noteq> NUM_IDS) (blockK [
          elf_load elf_addr pid,
          bindK (elf_entry elf_addr) (\<lambda>ip. indexK pid NUM_IDS (modifyK (\<lambda>s.
            s\<lparr>uctx_pool := (uctx_pool s)(pid := start_frame ip (uctx_pool s pid))\<rparr>))),
          bindK get_pcpu_idx (\<lambda>cpu. seg_init_proc cpu pid)]))
       (returnK pid))))"

section \<open>System call arguments and results\<close>

definition syscall_get_arg1 :: "u32 \<Rightarrow> ('a proc_scheme, u32) kern" where
  "syscall_get_arg1 p = readK (\<lambda>s. tf_eax (tframe s p))"

definition syscall_get_arg2 :: "u32 \<Rightarrow> ('a proc_scheme, u32) kern" where
  "syscall_get_arg2 p = readK (\<lambda>s. tf_ebx (tframe s p))"

definition syscall_get_arg3 :: "u32 \<Rightarrow> ('a proc_scheme, u32) kern" where
  "syscall_get_arg3 p = readK (\<lambda>s. tf_ecx (tframe s p))"

definition syscall_get_arg4 :: "u32 \<Rightarrow> ('a proc_scheme, u32) kern" where
  "syscall_get_arg4 p = readK (\<lambda>s. tf_edx (tframe s p))"

definition syscall_get_arg5 :: "u32 \<Rightarrow> ('a proc_scheme, u32) kern" where
  "syscall_get_arg5 p = readK (\<lambda>s. tf_esi (tframe s p))"

definition syscall_get_arg6 :: "u32 \<Rightarrow> ('a proc_scheme, u32) kern" where
  "syscall_get_arg6 p = readK (\<lambda>s. tf_edi (tframe s p))"

definition upd_frame :: "u32 \<Rightarrow> (tf_t \<Rightarrow> tf_t) \<Rightarrow> ('a proc_scheme, unit) kern" where
  "upd_frame p f = modifyK (\<lambda>s. s\<lparr>tframe := (tframe s)(p := f (tframe s p))\<rparr>)"

definition syscall_set_errno :: "u32 \<Rightarrow> u32 \<Rightarrow> ('a proc_scheme, unit) kern" where
  "syscall_set_errno p v = upd_frame p (\<lambda>f. f\<lparr>tf_eax := v\<rparr>)"

definition syscall_set_retval1 :: "u32 \<Rightarrow> u32 \<Rightarrow> ('a proc_scheme, unit) kern" where
  "syscall_set_retval1 p v = upd_frame p (\<lambda>f. f\<lparr>tf_ebx := v\<rparr>)"

definition syscall_set_retval2 :: "u32 \<Rightarrow> u32 \<Rightarrow> ('a proc_scheme, unit) kern" where
  "syscall_set_retval2 p v = upd_frame p (\<lambda>f. f\<lparr>tf_ecx := v\<rparr>)"

definition syscall_set_retval3 :: "u32 \<Rightarrow> u32 \<Rightarrow> ('a proc_scheme, unit) kern" where
  "syscall_set_retval3 p v = upd_frame p (\<lambda>f. f\<lparr>tf_edx := v\<rparr>)"

definition syscall_set_retval4 :: "u32 \<Rightarrow> u32 \<Rightarrow> ('a proc_scheme, unit) kern" where
  "syscall_set_retval4 p v = upd_frame p (\<lambda>f. f\<lparr>tf_esi := v\<rparr>)"

definition syscall_set_retval5 :: "u32 \<Rightarrow> u32 \<Rightarrow> ('a proc_scheme, unit) kern" where
  "syscall_set_retval5 p v = upd_frame p (\<lambda>f. f\<lparr>tf_edi := v\<rparr>)"

end
