(* ===== verification/SysFile.thy ===== *)
theory SysFile
  imports Proc
begin

text \<open>
  The file system calls, \<open>kern/fs/sysfile.c\<close>.  A handler gets the id of the process whose trap frame
  it works on.  Buffers in the kernel, among them the local arrays of a handler, are areas of memory
  at the addresses in the state.
\<close>

section \<open>Error numbers and flags\<close>

definition E_SUCC :: u32 where "E_SUCC = 0"
definition E_MEM :: u32 where "E_MEM = 1"
definition E_INVAL_CALLNR :: u32 where "E_INVAL_CALLNR = 3"
definition E_INVAL_ADDR :: u32 where "E_INVAL_ADDR = 4"
definition E_INVAL_PID :: u32 where "E_INVAL_PID = 5"
definition E_DISK_OP :: u32 where "E_DISK_OP = 13"
definition E_EXCEEDS_QUOTA :: u32 where "E_EXCEEDS_QUOTA = 23"
definition E_MAX_NUM_CHILDEN_REACHED :: u32 where "E_MAX_NUM_CHILDEN_REACHED = 24"
definition E_INVAL_CHILD_ID :: u32 where "E_INVAL_CHILD_ID = 25"
definition E_NEXIST :: u32 where "E_NEXIST = 26"
definition E_CREATE :: u32 where "E_CREATE = 27"
definition E_BADF :: u32 where "E_BADF = 29"

lemmas errno_defs = E_SUCC_def E_MEM_def E_INVAL_CALLNR_def E_INVAL_ADDR_def E_INVAL_PID_def E_DISK_OP_def
  E_EXCEEDS_QUOTA_def E_MAX_NUM_CHILDEN_REACHED_def E_INVAL_CHILD_ID_def E_NEXIST_def E_CREATE_def E_BADF_def

definition O_RDONLY :: u32 where "O_RDONLY = 0"
definition O_WRONLY :: u32 where "O_WRONLY = 1"
definition O_RDWR :: u32 where "O_RDWR = 2"
definition O_CREATE :: u32 where "O_CREATE = 0x200"

definition kernel_buf_size :: u32 where "kernel_buf_size = 50000"

section \<open>Buffers\<close>

definition write_buf :: "u32 \<Rightarrow> bytes \<Rightarrow> ('a proc_scheme, unit) kern" where
  "write_buf a xs = modifyK (\<lambda>s. s\<lparr>mem := store_bytes a xs (mem s)\<rparr>)"

text \<open>Copying a path of 128 bytes from the user into the local array number \<open>k\<close>.\<close>

definition copyin_path :: "nat \<Rightarrow> u32 \<Rightarrow> ('a proc_scheme, bytes) kern" where
  "copyin_path k uva = bindK get_curid (\<lambda>pid. bindK (readK (\<lambda>s. locals s k)) (\<lambda>a.
     seqK (pt_copyin pid uva a 128) (readK (\<lambda>s. load_bytes (mem s) a 128))))"

definition kern_info :: "string \<Rightarrow> ('a proc_scheme, unit) kern" where
  "kern_info msg = debug_info (lit (msg @ [CHR 0x0A])) []"

definition sys_return :: "u32 \<Rightarrow> u32 \<Rightarrow> u32 \<Rightarrow> ('a proc_scheme, unit) kern" where
  "sys_return p e r = seqK (syscall_set_errno p e) (syscall_set_retval1 p r)"

section \<open>File descriptors\<close>

definition open_file :: "u32 \<Rightarrow> nat \<Rightarrow> ('a proc_scheme, nat option) kern" where
  "open_file pid fd = bindK (tcb_get_openfiles pid) (\<lambda>fds.
     if fd < length fds then returnK (fds ! fd) else faultK OutOfBounds)"

text \<open>The file of a descriptor unless it is null or has no inode.\<close>

definition live_file :: "u32 \<Rightarrow> nat \<Rightarrow> ('a proc_scheme, nat option) kern" where
  "live_file pid fd = bindK (open_file pid fd) (\<lambda>fp. case fp of
     None \<Rightarrow> returnK None
   | Some f \<Rightarrow> bindK (get_file f) (\<lambda>x. returnK (if f_ip x = None then None else Some f)))"

definition fdalloc :: "nat \<Rightarrow> ('a proc_scheme, u32) kern" where
  "fdalloc f = bindK get_curid (\<lambda>curid. bindK (tcb_get_openfiles curid) (\<lambda>fds.
     case find (\<lambda>i. fds ! i = None) [0..<NOFILE] of
       Some i \<Rightarrow> seqK (tcb_set_openfiles curid i (Some f)) (returnK (word_of_nat i))
     | None \<Rightarrow> returnK (- 1)))"

section \<open>Reading and writing\<close>

definition sys_read :: "u32 \<Rightarrow> ('a proc_scheme, unit) kern" where
  "sys_read p = bindK (syscall_get_arg2 p) (\<lambda>fd. bindK (syscall_get_arg3 p) (\<lambda>user_buf. bindK (syscall_get_arg4 p) (\<lambda>n.
     if n > kernel_buf_size then seqK (kern_info ''size error, sys_read'') (sys_return p E_BADF (- 1))
     else seqK (spinlock_acquire Fs_lk)
       (if sint fd < 0 \<or> sint fd \<ge> int NOFILE
        then blockK [kern_info ''fd error, sys_read'', sys_return p E_BADF (- 1), spinlock_release Fs_lk]
        else if user_buf < VM_USERLO \<or> user_buf + n > VM_USERHI
        then blockK [kern_info ''user buffer error, sys_read'', sys_return p E_INVAL_ADDR (- 1), spinlock_release Fs_lk]
        else bindK get_curid (\<lambda>pid. bindK (live_file pid (unat fd)) (\<lambda>fp. case fp of
          None \<Rightarrow> blockK [kern_info ''fd error, sys_read'', sys_return p E_BADF (- 1), spinlock_release Fs_lk]
        | Some f \<Rightarrow> bindK (readK kernel_buf) (\<lambda>kb. bindK (file_read f n) (\<lambda>(size_read, xs). blockK [
            write_buf kb xs,
            whenK (sint size_read > 0) (bindK get_curid (\<lambda>pid. voidK (pt_copyout kb pid user_buf size_read))),
            sys_return p E_SUCC size_read,
            spinlock_release Fs_lk]))))))))"

definition sys_write :: "u32 \<Rightarrow> ('a proc_scheme, unit) kern" where
  "sys_write p = bindK (syscall_get_arg2 p) (\<lambda>fd. bindK (syscall_get_arg3 p) (\<lambda>user_buf. bindK (syscall_get_arg4 p) (\<lambda>n.
     if n > kernel_buf_size then seqK (kern_info ''size error, sys_write'') (sys_return p E_BADF (- 1))
     else seqK (spinlock_acquire Fs_lk)
       (if sint fd < 0 \<or> sint fd \<ge> int NOFILE
        then blockK [kern_info ''fd error, sys_write'', sys_return p E_BADF (- 1), spinlock_release Fs_lk]
        else if user_buf < VM_USERLO \<or> user_buf + n > VM_USERHI
        then blockK [kern_info ''user buffer error, sys_write'', sys_return p E_INVAL_ADDR (- 1), spinlock_release Fs_lk]
        else bindK get_curid (\<lambda>pid. bindK (live_file pid (unat fd)) (\<lambda>fp. case fp of
          None \<Rightarrow> blockK [kern_info ''tcb open files error, sys_write'', sys_return p E_BADF (- 1), spinlock_release Fs_lk]
        | Some f \<Rightarrow> bindK (readK kernel_buf) (\<lambda>kb. seqK (pt_copyin pid user_buf kb n)
            (bindK (readK (\<lambda>s. load_bytes (mem s) kb (unat n))) (\<lambda>src. bindK (file_write f src n) (\<lambda>size_wrote.
              seqK (sys_return p E_SUCC size_wrote) (spinlock_release Fs_lk))))))))))) "

definition sys_close :: "u32 \<Rightarrow> ('a proc_scheme, unit) kern" where
  "sys_close p = bindK (syscall_get_arg2 p) (\<lambda>fd. bindK get_curid (\<lambda>pid.
     if unat fd \<ge> NOFILE then sys_return p E_BADF (- 1)
     else bindK (open_file pid (unat fd)) (\<lambda>fp. case fp of
       None \<Rightarrow> sys_return p E_BADF (- 1)
     | Some f \<Rightarrow> blockK [file_close f, tcb_set_openfiles pid (unat fd) None, sys_return p E_SUCC 0])))"

text \<open>The structure has 20 bytes; it is read from the user and filled in, but not copied back.\<close>

definition sys_fstat :: "u32 \<Rightarrow> ('a proc_scheme, unit) kern" where
  "sys_fstat p = bindK (syscall_get_arg2 p) (\<lambda>fd.
     if unat fd \<ge> NOFILE then sys_return p E_BADF (- 1)
     else bindK (syscall_get_arg3 p) (\<lambda>user_stat.
       if user_stat < VM_USERLO \<or> user_stat + 20 > VM_USERHI then sys_return p E_INVAL_ADDR (- 1)
       else bindK get_curid (\<lambda>pid. bindK (open_file pid (unat fd)) (\<lambda>fp. case fp of
         None \<Rightarrow> sys_return p E_BADF (- 1)
       | Some f \<Rightarrow> bindK (readK (\<lambda>s. locals s 0)) (\<lambda>a. seqK (pt_copyin pid user_stat a 20)
           (bindK (file_stat f) (\<lambda>(st, _). sys_return p (if st = 0 then E_SUCC else E_BADF) st)))))))"

section \<open>Names\<close>

definition upd_nlink :: "nat \<Rightarrow> (u16 \<Rightarrow> u16) \<Rightarrow> ('a proc_scheme, unit) kern" where
  "upd_nlink ip f = upd_inode ip (\<lambda>n. n\<lparr>i_nlink := f (i_nlink n)\<rparr>)"

definition link_bad :: "u32 \<Rightarrow> nat \<Rightarrow> ('a proc_scheme, unit) kern" where
  "link_bad p ip = blockK [inode_lock ip, upd_nlink ip (\<lambda>n. n - 1), inode_update ip, inode_unlockput ip, commit_trans,
     syscall_set_errno p E_DISK_OP]"

definition sys_link :: "u32 \<Rightarrow> ('a proc_scheme, unit) kern" where
  "sys_link p = bindK (syscall_get_arg2 p) (\<lambda>a2. bindK (copyin_path 0 a2) (\<lambda>old.
     bindK (syscall_get_arg3 p) (\<lambda>a3. bindK (copyin_path 1 a3) (\<lambda>new.
     bindK (namei old) (\<lambda>r. case r of
       None \<Rightarrow> syscall_set_errno p E_NEXIST
     | Some ip \<Rightarrow> seqK begin_trans (seqK (inode_lock ip) (bindK (get_inode ip) (\<lambda>n.
         if i_type n = T_DIR then blockK [inode_unlockput ip, commit_trans, syscall_set_errno p E_DISK_OP]
         else seqK (blockK [upd_nlink ip (\<lambda>n. n + 1), inode_update ip, inode_unlock ip])
           (bindK (nameiparent new (replicate DIRSIZ 0)) (\<lambda>(r, name). case r of
             None \<Rightarrow> link_bad p ip
           | Some dp \<Rightarrow> seqK (inode_lock dp) (bindK (get_inode dp) (\<lambda>d. bindK (get_inode ip) (\<lambda>n.
               bindK (if i_dev d \<noteq> i_dev n then returnK (- 1) else dir_link dp name (i_inum n)) (\<lambda>r.
                 if sint r < 0 then seqK (inode_unlockput dp) (link_bad p ip)
                 else blockK [inode_unlockput dp, inode_put ip, commit_trans, syscall_set_errno p E_SUCC]))))))))))))))"

primrec isdirempty_loop :: "nat \<Rightarrow> nat \<Rightarrow> u32 \<Rightarrow> ('a proc_scheme, bool) kern" where
  "isdirempty_loop 0 dp off = faultK Diverge"
| "isdirempty_loop (Suc k) dp off = bindK (get_inode dp) (\<lambda>d.
     if off < i_size d
     then bindK (inode_read dp off dirent_size) (\<lambda>(r, xs).
       if r \<noteq> dirent_size then faultK (Panic ''isdirempty: readi'')
       else if de_inum (dirent_of xs) \<noteq> 0 then returnK False
       else isdirempty_loop k dp (off + dirent_size))
     else returnK True)"

definition isdirempty :: "nat \<Rightarrow> ('a proc_scheme, bool) kern" where
  "isdirempty dp = bindK (get_inode dp) (\<lambda>d. isdirempty_loop (dir_rounds d) dp (2 * dirent_size))"

definition unlink_bad :: "u32 \<Rightarrow> nat \<Rightarrow> ('a proc_scheme, unit) kern" where
  "unlink_bad p dp = blockK [inode_unlockput dp, commit_trans, syscall_set_errno p E_DISK_OP]"

definition unlink_entry :: "u32 \<Rightarrow> nat \<Rightarrow> nat \<Rightarrow> u32 \<Rightarrow> ('a proc_scheme, unit) kern" where
  "unlink_entry p dp ip off = bindK (inode_write dp (replicate 16 0) off dirent_size) (\<lambda>r. blockK [
     guardK (r = dirent_size) (Panic ''unlink: writei''),
     bindK (get_inode ip) (\<lambda>n. whenK (i_type n = T_DIR) (seqK (upd_nlink dp (\<lambda>n. n - 1)) (inode_update dp))),
     inode_unlockput dp,
     upd_nlink ip (\<lambda>n. n - 1),
     inode_update ip,
     inode_unlockput ip,
     commit_trans,
     syscall_set_errno p E_SUCC])"

definition sys_unlink :: "u32 \<Rightarrow> ('a proc_scheme, unit) kern" where
  "sys_unlink p = bindK (syscall_get_arg2 p) (\<lambda>a2. bindK (copyin_path 0 a2) (\<lambda>path.
     bindK (nameiparent path (replicate DIRSIZ 0)) (\<lambda>(r, name). case r of
       None \<Rightarrow> syscall_set_errno p E_DISK_OP
     | Some dp \<Rightarrow> seqK begin_trans (seqK (inode_lock dp)
         (bindK (bytesK (dir_namecmp name (lit ''.''))) (\<lambda>dot. bindK (bytesK (dir_namecmp name (lit ''..''))) (\<lambda>dotdot.
           if dot = 0 \<or> dotdot = 0 then unlink_bad p dp
           else bindK (dir_lookup dp name) (\<lambda>e. case e of
             None \<Rightarrow> unlink_bad p dp
           | Some (ip, off) \<Rightarrow> seqK (inode_lock ip) (bindK (get_inode ip) (\<lambda>n.
               seqK (guardK (\<not> sint (i_nlink n) < 1) (Panic ''unlink: nlink < 1''))
               (bindK (if i_type n = T_DIR then isdirempty ip else returnK True) (\<lambda>empty.
                 if \<not> empty then seqK (inode_unlockput ip) (unlink_bad p dp)
                 else unlink_entry p dp ip off))))))))))))"

section \<open>Creation and opening\<close>

definition create_dots :: "nat \<Rightarrow> nat \<Rightarrow> ('a proc_scheme, unit) kern" where
  "create_dots dp ip = blockK [
     upd_nlink dp (\<lambda>n. n + 1),
     inode_update dp,
     bindK (get_inode ip) (\<lambda>n. bindK (dir_link ip (lit ''.'') (i_inum n)) (\<lambda>r.
       guardK (\<not> sint r < 0) (Panic ''create dots''))),
     bindK (get_inode dp) (\<lambda>d. bindK (dir_link ip (lit ''..'') (i_inum d)) (\<lambda>r.
       guardK (\<not> sint r < 0) (Panic ''create dots'')))]"

definition create_new :: "nat \<Rightarrow> bytes \<Rightarrow> u16 \<Rightarrow> u16 \<Rightarrow> u16 \<Rightarrow> ('a proc_scheme, nat) kern" where
  "create_new dp name ty maj mnr = bindK (get_inode dp) (\<lambda>d. bindK (inode_alloc (i_dev d) ty) (\<lambda>ip.
     seqK (blockK [
       inode_lock ip,
       upd_inode ip (\<lambda>n. n\<lparr>i_major := maj, i_minor := mnr, i_nlink := 1\<rparr>),
       inode_update ip,
       whenK (ty = T_DIR) (create_dots dp ip),
       bindK (get_inode ip) (\<lambda>n. bindK (dir_link dp name (i_inum n)) (\<lambda>r.
         guardK (\<not> sint r < 0) (Panic ''create: dir_link''))),
       inode_unlockput dp]) (returnK ip)))"

definition create :: "bytes \<Rightarrow> u16 \<Rightarrow> u16 \<Rightarrow> u16 \<Rightarrow> ('a proc_scheme, nat option) kern" where
  "create path ty maj mnr = bindK (nameiparent path (replicate DIRSIZ 0)) (\<lambda>(r, name). case r of
     None \<Rightarrow> returnK None
   | Some dp \<Rightarrow> seqK (inode_lock dp) (bindK (dir_lookup dp name) (\<lambda>e. case e of
       Some (ip, _) \<Rightarrow> seqK (inode_unlockput dp) (seqK (inode_lock ip) (bindK (get_inode ip) (\<lambda>n.
         if ty = T_FILE \<and> i_type n = T_FILE then returnK (Some ip)
         else seqK (inode_unlockput ip) (returnK None))))
     | None \<Rightarrow> bindK (create_new dp name ty maj mnr) (\<lambda>ip. returnK (Some ip)))))"

definition open_inode :: "u32 \<Rightarrow> bytes \<Rightarrow> u32 \<Rightarrow> ('a proc_scheme, nat option) kern" where
  "open_inode p path omode =
     (if omode AND O_CREATE \<noteq> 0
      then seqK begin_trans (bindK (create path T_FILE 0 0) (\<lambda>r. seqK commit_trans (case r of
        None \<Rightarrow> seqK (sys_return p E_CREATE (- 1)) (returnK None)
      | Some ip \<Rightarrow> returnK (Some ip))))
      else bindK (namei path) (\<lambda>r. case r of
        None \<Rightarrow> seqK (sys_return p E_NEXIST (- 1)) (returnK None)
      | Some ip \<Rightarrow> seqK (inode_lock ip) (bindK (get_inode ip) (\<lambda>n.
          if i_type n = T_DIR \<and> omode \<noteq> O_RDONLY
          then seqK (inode_unlockput ip) (seqK (sys_return p E_DISK_OP (- 1)) (returnK None))
          else returnK (Some ip)))))"

definition sys_open :: "u32 \<Rightarrow> ('a proc_scheme, unit) kern" where
  "sys_open p = bindK (syscall_get_arg2 p) (\<lambda>a2. bindK (copyin_path 0 a2) (\<lambda>path.
     bindK (syscall_get_arg3 p) (\<lambda>omode. bindK (open_inode p path omode) (\<lambda>r. case r of
       None \<Rightarrow> returnK ()
     | Some ip \<Rightarrow> bindK file_alloc (\<lambda>f. case f of
         None \<Rightarrow> seqK (inode_unlockput ip) (sys_return p E_DISK_OP (- 1))
       | Some f \<Rightarrow> bindK (fdalloc f) (\<lambda>fd.
           if sint fd < 0
           then blockK [file_close f, inode_unlockput ip, sys_return p E_DISK_OP (- 1)]
           else blockK [
             inode_unlock ip,
             upd_file f (\<lambda>x. x\<lparr>f_type := FD_INODE, f_ip := Some ip, f_off := 0,
               f_readable := (omode AND O_WRONLY = 0),
               f_writable := (omode AND O_WRONLY \<noteq> 0 \<or> omode AND O_RDWR \<noteq> 0)\<rparr>),
             sys_return p E_SUCC fd]))))))"

definition sys_mkdir :: "u32 \<Rightarrow> ('a proc_scheme, unit) kern" where
  "sys_mkdir p = bindK (syscall_get_arg2 p) (\<lambda>a2. bindK (copyin_path 0 a2) (\<lambda>path.
     seqK begin_trans (bindK (create path T_DIR 0 0) (\<lambda>r. case r of
       None \<Rightarrow> seqK commit_trans (syscall_set_errno p E_DISK_OP)
     | Some ip \<Rightarrow> blockK [inode_unlockput ip, commit_trans, syscall_set_errno p E_SUCC]))))"

definition sys_chdir :: "u32 \<Rightarrow> ('a proc_scheme, unit) kern" where
  "sys_chdir p = bindK get_curid (\<lambda>pid. bindK (syscall_get_arg2 p) (\<lambda>a2. bindK (copyin_path 0 a2) (\<lambda>path.
     bindK (namei path) (\<lambda>r. case r of
       None \<Rightarrow> syscall_set_errno p E_DISK_OP
     | Some ip \<Rightarrow> seqK (inode_lock ip) (bindK (get_inode ip) (\<lambda>n.
         if i_type n \<noteq> T_DIR then seqK (inode_unlockput ip) (syscall_set_errno p E_DISK_OP)
         else seqK (inode_unlock ip) (bindK (tcb_get_cwd pid) (\<lambda>c. case c of
           None \<Rightarrow> faultK NullPointer
         | Some old \<Rightarrow> blockK [inode_put old, tcb_set_cwd pid (Some ip), syscall_set_errno p E_SUCC]))))))))"

end
