(* ===== verification/Syscall.thy ===== *)
theory Syscall
  imports SysFile
begin

text \<open>
  The remaining system calls, \<open>kern/trap/TSyscall\<close>, and their dispatch by number,
  \<open>kern/trap/TDispatch\<close>.  A handler that yields writes the result to the frame of its own process,
  which nobody else reads before the process runs again.
\<close>

section \<open>Output and processes\<close>

definition sys_buf_of :: "u32 \<Rightarrow> ('a proc_scheme, u32) kern" where
  "sys_buf_of pid = indexK pid NUM_IDS (readK (\<lambda>s. sys_buf s + PAGESIZE * pid))"

text \<open>Every round handles at least one byte.\<close>

primrec sys_puts_loop :: "nat \<Rightarrow> u32 \<Rightarrow> u32 \<Rightarrow> u32 \<Rightarrow> u32 \<Rightarrow> ('a proc_scheme, unit) kern" where
  "sys_puts_loop 0 p cur_pid cur_pos remain = syscall_set_errno p E_SUCC"
| "sys_puts_loop (Suc k) p cur_pid cur_pos remain =
     (if remain \<noteq> 0
      then let nbytes = (if remain < PAGESIZE - 1 then remain else PAGESIZE - 1) in
        bindK (sys_buf_of cur_pid) (\<lambda>b. bindK (pt_copyin cur_pid cur_pos b nbytes) (\<lambda>r.
          if r \<noteq> nbytes then syscall_set_errno p E_MEM
          else seqK (write_buf (b + nbytes) [0])
            (bindK (readK (\<lambda>s. load_bytes (mem s) b (unat nbytes + 1))) (\<lambda>str.
              seqK (debug_info (lit ''%s'') [VStr (Some str)])
                (sys_puts_loop k p cur_pid (cur_pos + nbytes) (remain - nbytes))))))
      else syscall_set_errno p E_SUCC)"

definition sys_puts :: "u32 \<Rightarrow> ('a proc_scheme, unit) kern" where
  "sys_puts p = bindK get_curid (\<lambda>cur_pid. bindK (syscall_get_arg2 p) (\<lambda>str_uva. bindK (syscall_get_arg3 p) (\<lambda>str_len.
     if \<not> (VM_USERLO \<le> str_uva \<and> str_uva + str_len \<le> VM_USERHI) then syscall_set_errno p E_INVAL_ADDR
     else sys_puts_loop (unat str_len) p cur_pid str_uva str_len)))"

definition sys_spawn :: "u32 \<Rightarrow> ('a proc_scheme, unit) kern" where
  "sys_spawn p = bindK get_curid (\<lambda>curid. bindK (syscall_get_arg2 p) (\<lambda>elf_id. bindK (syscall_get_arg3 p) (\<lambda>q.
     bindK (container_can_consume curid q) (\<lambda>ok.
       if ok = 0 then sys_return p E_EXCEEDS_QUOTA NUM_IDS
       else if NUM_IDS < curid * MAX_CHILDREN + 1 + MAX_CHILDREN then sys_return p E_MAX_NUM_CHILDEN_REACHED NUM_IDS
       else bindK (container_get_nchildren curid) (\<lambda>n.
         if n = MAX_CHILDREN then sys_return p E_INVAL_CHILD_ID NUM_IDS
         else if 1 \<le> elf_id \<and> elf_id \<le> 5
         then bindK (readK (\<lambda>s. elf_image s elf_id)) (\<lambda>elf_addr. bindK (proc_create elf_addr q) (\<lambda>new_pid.
           if new_pid = NUM_IDS then sys_return p E_INVAL_PID NUM_IDS
           else sys_return p E_SUCC new_pid))
         else sys_return p E_INVAL_PID NUM_IDS)))))"

definition sys_yield :: "u32 \<Rightarrow> ('a proc_scheme, unit) kern" where
  "sys_yield p = seqK thread_yield (syscall_set_errno p E_SUCC)"

section \<open>Directories\<close>

definition sys_dir :: "u32 \<Rightarrow> ('a proc_scheme, unit) kern" where
  "sys_dir p = bindK (syscall_get_arg2 p) (\<lambda>fd. bindK get_curid (\<lambda>curid.
     bindK (live_file curid (unat fd)) (\<lambda>fp. case fp of
       None \<Rightarrow> sys_return p E_BADF (- 1)
     | Some f \<Rightarrow> bindK (get_file f) (\<lambda>x. case f_ip x of
         None \<Rightarrow> faultK NullPointer
       | Some ip \<Rightarrow> bindK (get_inode ip) (\<lambda>n. sys_return p E_SUCC (if i_type n = T_DIR then 1 else 0))))))"

text \<open>Appending the names of a directory to the buffer; the result is the position behind the last
  one.\<close>

primrec sys_ls_loop :: "nat \<Rightarrow> nat \<Rightarrow> u32 \<Rightarrow> u32 \<Rightarrow> ('a proc_scheme, u32) kern" where
  "sys_ls_loop 0 dp off buf_p = faultK Diverge"
| "sys_ls_loop (Suc k) dp off buf_p = bindK (get_inode dp) (\<lambda>d.
     if off < i_size d
     then bindK (inode_read dp off dirent_size) (\<lambda>(r, xs).
       if r \<noteq> dirent_size then faultK (Panic ''inode read length mismatch, sys_ls'')
       else let de = dirent_of xs in
         if de_inum de = 0 then sys_ls_loop k dp (off + dirent_size) buf_p
         else bindK (bytesK (strnlen (de_name de) 255)) (\<lambda>n.
           seqK (write_buf buf_p (take n (de_name de) @ [0x20]))
             (sys_ls_loop k dp (off + dirent_size) (buf_p + word_of_nat n + 1))))
     else returnK buf_p)"

definition sys_ls :: "u32 \<Rightarrow> ('a proc_scheme, unit) kern" where
  "sys_ls p = bindK (syscall_get_arg2 p) (\<lambda>user_buf. bindK (syscall_get_arg3 p) (\<lambda>buf_len. bindK get_curid (\<lambda>curid.
     bindK (sys_buf_of curid) (\<lambda>b. bindK (tcb_get_cwd curid) (\<lambda>c. case c of
       None \<Rightarrow> faultK NullPointer
     | Some dp \<Rightarrow> bindK (get_inode dp) (\<lambda>d. bindK (sys_ls_loop (dir_rounds d) dp 0 b) (\<lambda>buf_p.
         let len = (if sint (buf_p - b) < sint buf_len then buf_p - b else buf_len) in blockK [
           write_buf (buf_p - 1) [0],
           voidK (pt_copyout b curid user_buf len),
           sys_return p E_SUCC len])))))))"

text \<open>The search of \<open>sys_pwd\<close> for the name of a directory in its parent; it fills a row of the local
  array \<open>arr[20][20]\<close> and counts the levels.\<close>

primrec pwd_name :: "nat \<Rightarrow> nat \<Rightarrow> u32 \<Rightarrow> nat \<Rightarrow> bytes list \<Rightarrow> u32 \<Rightarrow> ('a proc_scheme, nat \<times> bytes list) kern" where
  "pwd_name 0 up inum lvl arr off = faultK Diverge"
| "pwd_name (Suc k) up inum lvl arr off = bindK (get_inode up) (\<lambda>d.
     if off < i_size d
     then bindK (inode_read up off dirent_size) (\<lambda>(r, xs).
       if r \<noteq> dirent_size then faultK (Panic ''inode read length mismatch, sys_pwd'')
       else let de = dirent_of xs in
         if ucast (de_inum de) = inum
         then if lvl < length arr
           then bindK (bytesK (strncpy (arr ! lvl) (de_name de) 20)) (\<lambda>row. returnK (lvl + 1, arr[lvl := row]))
           else faultK OutOfBounds
         else pwd_name k up inum lvl arr (off + dirent_size))
     else returnK (lvl, arr))"

definition lookup_parent :: "nat \<Rightarrow> ('a proc_scheme, nat) kern" where
  "lookup_parent dp = bindK (dir_lookup dp (lit ''..'')) (\<lambda>r. case r of
     None \<Rightarrow> faultK NullPointer | Some (ip, _) \<Rightarrow> returnK ip)"

text \<open>Going up to the root.  Inode numbers in directories have 16 bits, so that a longer way than
  \<open>2^16\<close> directories never ends.\<close>

primrec pwd_up :: "nat \<Rightarrow> nat \<Rightarrow> nat \<Rightarrow> nat \<Rightarrow> bytes list \<Rightarrow> ('a proc_scheme, nat \<times> bytes list) kern" where
  "pwd_up 0 cur up lvl arr = faultK Diverge"
| "pwd_up (Suc k) cur up lvl arr = bindK (get_inode cur) (\<lambda>c. bindK (get_inode up) (\<lambda>u.
     if i_inum u \<noteq> i_inum c
     then bindK (pwd_name (dir_rounds u) up (i_inum c) lvl arr 0) (\<lambda>(lvl, arr).
       bindK (lookup_parent up) (\<lambda>up'. pwd_up k up up' lvl arr))
     else returnK (lvl, arr)))"

primrec pwd_write :: "bytes list \<Rightarrow> u32 \<Rightarrow> ('a proc_scheme, u32) kern" where
  "pwd_write [] q = returnK q"
| "pwd_write (row # rows) q = bindK (bytesK (strncpy (replicate 255 0) row 255)) (\<lambda>xs.
     bindK (bytesK (strnlen row 255)) (\<lambda>n. seqK (write_buf q xs) (seqK (write_buf (q + word_of_nat n) [SLASH])
       (pwd_write rows (q + word_of_nat n + 1)))))"

definition sys_pwd :: "u32 \<Rightarrow> ('a proc_scheme, unit) kern" where
  "sys_pwd p = bindK get_curid (\<lambda>curid. bindK (tcb_get_cwd curid) (\<lambda>c. case c of
     None \<Rightarrow> faultK NullPointer
   | Some cur \<Rightarrow> bindK (lookup_parent cur) (\<lambda>up. bindK (syscall_get_arg2 p) (\<lambda>user_buf. bindK (sys_buf_of curid) (\<lambda>b.
       bindK (pwd_up (2 ^ 16 + 1) cur up 0 (replicate 20 (replicate 20 0))) (\<lambda>(lvl, arr).
         if lvl < length arr
         then bindK (bytesK (strncpy (arr ! lvl) (lit ''/'') 8)) (\<lambda>row.
           bindK (pwd_write (rev (take (lvl + 1) (arr[lvl := row]))) b) (\<lambda>q. blockK [
             write_buf (q - 1) [0],
             voidK (pt_copyout b curid user_buf (q - b)),
             sys_return p E_SUCC 0]))
         else faultK OutOfBounds))))))"

definition sys_readline :: "u32 \<Rightarrow> ('a proc_scheme, unit) kern" where
  "sys_readline p = bindK (readline (Some (lit ''>:''))) (\<lambda>r. case r of
     None \<Rightarrow> faultK NullPointer
   | Some kernbuf \<Rightarrow> bindK (syscall_get_arg2 p) (\<lambda>userbuf.
       bindK (readK (\<lambda>s. load_bytes (mem s) kernbuf (unat BUFLEN))) (\<lambda>str. bindK (bytesK (strnlen str 100)) (\<lambda>n.
         bindK get_curid (\<lambda>curid. bindK (pt_copyout kernbuf curid userbuf (word_of_nat n + 1)) (\<lambda>r. seqK
           (guardK (r = word_of_nat n + 1) (Panic ''Readline error, sys_readline''))
           (sys_return p E_SUCC 0)))))))"

section \<open>Dispatch\<close>

definition syscall_dispatch :: "u32 \<Rightarrow> ('a proc_scheme, unit) kern" where
  "syscall_dispatch p = bindK (syscall_get_arg1 p) (\<lambda>nr.
     if nr = 0 then sys_puts p
     else if nr = 1 then sys_spawn p
     else if nr = 2 then sys_yield p
     else if nr = 3 then sys_open p
     else if nr = 4 then sys_close p
     else if nr = 5 then sys_read p
     else if nr = 6 then sys_write p
     else if nr = 7 then sys_mkdir p
     else if nr = 8 then sys_chdir p
     else if nr = 9 then sys_link p
     else if nr = 10 then sys_unlink p
     else if nr = 11 then sys_fstat p
     else if nr = 12 then sys_dir p
     else if nr = 13 then sys_ls p
     else if nr = 14 then sys_pwd p
     else if nr = 15 then sys_readline p
     else syscall_set_errno p E_INVAL_CALLNR)"

end
