(* ===== verification/Trap.thy ===== *)
theory Trap
  imports Syscall
begin

text \<open>
  Traps: exceptions, interrupts and system calls (\<open>kern/trap/TTrapHandler\<close>) and the registration of
  their handlers (\<open>kern/trap/TTrapInit\<close>).  The register dump printed ahead of a panic is left out.
\<close>

section \<open>Exceptions\<close>

definition default_exception_handler :: "u32 \<Rightarrow> ('a proc_scheme, unit) kern" where
  "default_exception_handler p = faultK (Panic ''Trap'')"

definition PFE_PR :: u32 where "PFE_PR = 1"

definition pgflt_handler :: "u32 \<Rightarrow> ('a proc_scheme, unit) kern" where
  "pgflt_handler p = bindK get_curid (\<lambda>cur_pid. bindK (readK (\<lambda>s. tf_err (tframe s p))) (\<lambda>errno.
     bindK (readK cr2) (\<lambda>fault_va.
       if errno AND PFE_PR \<noteq> 0 then faultK (Panic ''Permission denied'')
       else bindK (alloc_page cur_pid fault_va (PTE_W OR PTE_U OR PTE_P)) (\<lambda>r.
         guardK (r \<noteq> MagicNumber) (Panic ''Page allocation failed'')))))"

definition exception_handler :: "u32 \<Rightarrow> ('a proc_scheme, unit) kern" where
  "exception_handler p = bindK (readK (\<lambda>s. tf_trapno (tframe s p))) (\<lambda>t.
     if unat t = T_PGFLT then pgflt_handler p else default_exception_handler p)"

section \<open>Interrupts\<close>

definition spurious_intr_handler :: "('a proc_scheme, unit) kern" where
  "spurious_intr_handler = returnK ()"

definition timer_intr_handler :: "('a proc_scheme, unit) kern" where
  "timer_intr_handler = seqK intr_eoi sched_update"

definition default_intr_handler :: "('a proc_scheme, unit) kern" where
  "default_intr_handler = intr_eoi"

definition interrupt_handler :: "u32 \<Rightarrow> ('a proc_scheme, unit) kern" where
  "interrupt_handler p = bindK (readK (\<lambda>s. unat (tf_trapno (tframe s p)))) (\<lambda>t.
     if t = T_IRQ0 + IRQ_SPURIOUS then spurious_intr_handler
     else if t = T_IRQ0 + IRQ_TIMER then timer_intr_handler
     else if t = T_IRQ0 + IRQ_IDE1 then seqK ide_intr intr_eoi
     else if t = T_IRQ0 + IRQ_IDE2 then returnK ()
     else default_intr_handler)"

section \<open>The trap routine\<close>

definition run_handler :: "handler \<Rightarrow> u32 \<Rightarrow> ('a proc_scheme, unit) kern" where
  "run_handler h = (case h of
     ExceptionHandler \<Rightarrow> exception_handler
   | InterruptHandler \<Rightarrow> interrupt_handler
   | SyscallDispatch \<Rightarrow> syscall_dispatch)"

definition no_handler :: "u32 \<Rightarrow> u32 \<Rightarrow> ('a proc_scheme, unit) kern" where
  "no_handler cur_pid p = bindK (readK (\<lambda>s. tframe s p)) (\<lambda>tf.
     debug_warn (lit ''kern/trap/TTrapHandler/TTrapHandler.c'') 157
       (lit (''No handler for user trap 0x%x, process %d, eip 0x%08x.'' @ [CHR 0x0A]))
       [VInt (tf_trapno tf), VInt cur_pid, VInt (tf_eip tf)])"

text \<open>What a thread does after its handler, back to user mode.\<close>

definition trap_exit :: "u32 \<Rightarrow> u32 \<Rightarrow> u32 \<Rightarrow> u32 \<Rightarrow> ('a proc_scheme, unit) kern" where
  "trap_exit cur_pid cpu last_pid p = seqK
     (whenK (last_pid \<noteq> 0) (blockK [
        kstack_switch cur_pid,
        set_pdir_base cur_pid,
        set_last_active cpu last_pid]))
     (bindK (readK (\<lambda>s. tframe s p)) trap_return)"

text \<open>When the handler has switched to another thread, the rest runs only when this one is resumed.\<close>

definition trap :: "u32 \<Rightarrow> ('a proc_scheme, unit) kern" where
  "trap p = bindK get_curid (\<lambda>cur_pid. bindK get_pcpu_idx (\<lambda>cpu.
     bindK (indexK cpu NUM_CPUS (readK (\<lambda>s. last_active s cpu))) (\<lambda>last_pid.
     seqK (whenK (last_pid \<noteq> 0) (seqK (set_pdir_base 0) (set_last_active cpu 0)))
     (bindK (readK (\<lambda>s. unat (tf_trapno (tframe s p)))) (\<lambda>t.
      seqK (guardK (t < 256) OutOfBounds)
      (bindK (readK (\<lambda>s. TRAP_HANDLER s cpu t)) (\<lambda>h.
       seqK (case h of Some h \<Rightarrow> run_handler h p | None \<Rightarrow> no_handler cur_pid p)
       (bindK get_curid (\<lambda>now.
          if now = cur_pid then trap_exit cur_pid cpu last_pid p else returnK ())))))))))"

section \<open>Registration\<close>

definition trap_init_array :: "('a proc_scheme, unit) kern" where
  "trap_init_array = bindK (readK trap_inited) (\<lambda>i. blockK [
     guardK (\<not> i) (Panic ''Kernel assertion failed''),
     modifyK (\<lambda>s. s\<lparr>TRAP_HANDLER := (\<lambda>_ _. None), trap_inited := True\<rparr>)])"

definition trap_handler_register :: "u32 \<Rightarrow> nat \<Rightarrow> handler \<Rightarrow> ('a proc_scheme, unit) kern" where
  "trap_handler_register cpu t cb = seqK (guardK (0 \<le> sint cpu \<and> sint cpu < 8 \<and> t < 256) (Panic ''Kernel assertion failed''))
     (modifyK (\<lambda>s. s\<lparr>TRAP_HANDLER := (TRAP_HANDLER s)(cpu := (TRAP_HANDLER s cpu)(t := Some cb))\<rparr>))"

definition handler_for :: "nat \<Rightarrow> handler option" where
  "handler_for t =
     (if T_DIVIDE \<le> t \<and> t \<le> T_SIMD \<or> t = T_SECEV then Some ExceptionHandler
      else if T_IRQ0 + IRQ_TIMER \<le> t \<and> t \<le> T_IRQ0 + IRQ_RTC \<or> T_IRQ0 + IRQ_MOUSE \<le> t \<and> t \<le> T_IRQ0 + IRQ_IDE2 \<or>
        t = T_IRQ0 + IRQ_ERROR \<or> t = T_IRQ0 + IRQ_EHCI_2 \<or> T_LTIMER \<le> t \<and> t \<le> T_PERFCTR then Some InterruptHandler
      else if t = T_SYSCALL then Some SyscallDispatch
      else None)"

definition kern_info_cpu :: "string \<Rightarrow> u32 \<Rightarrow> ('a proc_scheme, unit) kern" where
  "kern_info_cpu str i = (if i = 0 then debug_info (lit (''[BSP KERN] '' @ str @ [CHR 0x0A])) []
     else debug_info (lit (''[AP%d KERN] '' @ str @ [CHR 0x0A])) [VInt i])"

definition trap_init :: "u32 \<Rightarrow> ('a proc_scheme, unit) kern" where
  "trap_init cpu = blockK [
     whenK (cpu = 0) trap_init_array,
     kern_info_cpu ''Register trap handlers...'' cpu,
     forK [0..<256] (\<lambda>t. case handler_for t of
       Some h \<Rightarrow> trap_handler_register cpu t h | None \<Rightarrow> returnK ()),
     kern_info_cpu ''Done.'' cpu,
     kern_info_cpu ''Enabling interrupts...'' cpu,
     intr_enable (word_of_nat IRQ_TIMER) cpu,
     intr_enable (word_of_nat IRQ_KBD) cpu,
     intr_enable (word_of_nat IRQ_SERIAL13) cpu,
     intr_enable (word_of_nat IRQ_IDE1) cpu,
     kern_info_cpu ''Done.'' cpu]"

end
