(* ===== verification/Boot.thy ===== *)
theory Boot
  imports Trap
begin

text \<open>
  Start of the kernel: \<open>kern/dev/devinit.c\<close>, \<open>kern/pcpu/PCPUInit\<close> and \<open>kern/init/init.c\<close>, which
  compose the components.  The results of probing screen, serial line and disk are arguments.
\<close>

record boot = proc +
  pcpu_inited :: bool
  all_ready :: bool
  cpu_booted :: u32

text \<open>\<open>pcpu_set_zero\<close> clears the records of the processors with what \<open>kern/dev\<close> keeps in them.\<close>

definition arch_set_zero :: "('a boot_scheme, unit) kern" where
  "arch_set_zero = modifyK (\<lambda>s. s\<lparr>arch_info := (\<lambda>i. if i < NUM_CPUS then pcpuinfo_zero else arch_info s i)\<rparr>)"

definition pcpu_init :: "('a boot_scheme, unit) kern" where
  "pcpu_init = bindK get_kstack_cpu_idx (\<lambda>cpu. bindK (readK pcpu_inited) (\<lambda>ini.
     if cpu = 0 \<and> ini then returnK ()
     else blockK [
       whenK (cpu = 0) (blockK [
         pcpu_set_zero,
         arch_set_zero,
         voidK pcpu_mp_init,
         forK (word_range 0 NUM_CPUS) pcpu_fields_init,
         modifyK (\<lambda>s. s\<lparr>pcpu_inited := True\<rparr>)]),
       set_pcpu_idx cpu cpu,
       bindK (readK (\<lambda>s. bsp_kstack_addr s + 4096 * cpu)) (set_pcpu_kstack_pointer cpu),
       set_pcpu_boot_info cpu True,
       pcpu_init_cpu]))"

text \<open>What the machine reports about itself.\<close>

record machine =
  has_serial :: bool
  cursor_pos :: u16
  has_disk1 :: bool
  mmap :: "mboot_mmap list"
  mbi_addr :: u32

definition devinit ::
  "machine \<Rightarrow> ('a boot_scheme, unit) kern" where
  "devinit mc = blockK [
     seg_init_gdt 0,
     enable_sse,
     cons_init (has_serial mc) (cursor_pos mc),
     debug_init,
     kern_info ''[BSP KERN] cons initialized.'',
     debug_info (lit (''[BSP KERN] devinit mbi_addr: %d'' @ [CHR 0x0A])) [VInt (mbi_addr mc)],
     pcpu_init,
     kern_info ''[BSP KERN] PCPU initialized'',
     voidK tsc_init,
     kern_info ''[BSP KERN] TSC initialized'',
     intr_init,
     kern_info ''[BSP KERN] INTR initialized'',
     trap_init 0,
     pmmap_init (mmap mc),
     bufcache_init,
     file_init,
     inode_init,
     ide_init (has_disk1 mc),
     kern_info ''[BSP KERN] IDE disk driver initialized'']"

definition devinit_ap :: "('a boot_scheme, unit) kern" where
  "devinit_ap = bindK get_kstack_cpu_idx (\<lambda>cpu. blockK [
     guardK (1 \<le> cpu \<and> cpu < 8) (Panic ''Kernel assertion failed''),
     seg_init_gdt cpu,
     pcpu_init,
     debug_info (lit (''[AP%d KERN] PCPU initialized'' @ [CHR 0x0A])) [VInt cpu],
     intr_init,
     debug_info (lit (''[AP%d KERN] INTR initialized.'' @ [CHR 0x0A])) [VInt cpu],
     trap_init cpu,
     paging_init_ap])"

definition idle_image :: u32 where "idle_image = 0"
definition shell_image :: u32 where "shell_image = 5"

text \<open>\<open>kern_main\<close> up to the switch to the shell, from which it does not come back.\<close>

definition kern_main :: "('a boot_scheme, unit) kern" where
  "kern_main = seqK (blockK [
       debug_info (lit (''[BSP KERN] In kernel main.'' @ [CHR 0x0A, CHR 0x0A])) [],
       bindK pcpu_ncpu (\<lambda>n. debug_info (lit (''[BSP KERN] Number of CPUs in this system: %d. '' @ [CHR 0x0A])) [VInt n])])
     (bindK get_pcpu_idx (\<lambda>cpu.
       bindK (readK (\<lambda>s. elf_image s idle_image)) (\<lambda>idle. bindK (proc_create idle 10000) (\<lambda>pid.
       seqK (debug_info (lit (''CPU%d: process idle %d is created.'' @ [CHR 0x0A])) [VInt cpu, VInt pid])
      (bindK (readK (\<lambda>s. elf_image s shell_image)) (\<lambda>shell. bindK (proc_create shell 10000) (\<lambda>pid. blockK [
         debug_info (lit (''CPU%d: process shell %d is created.'' @ [CHR 0x0A])) [VInt cpu, VInt pid],
         tqueue_remove NUM_IDS pid,
         tcb_set_state pid TSTATE_RUN,
         set_curid pid,
         kctx_switch 0 pid])))))))"

definition kern_main_ap :: "('a boot_scheme, unit) kern" where
  "kern_main_ap = bindK get_pcpu_idx (\<lambda>cpu. bindK (readK all_ready) (\<lambda>r. blockK [
     set_pcpu_boot_info cpu True,
     guardK r Diverge,
     debug_info (lit (''[AP%d KERN] kernel_main_ap'' @ [CHR 0x0A])) [VInt cpu],
     modifyK (\<lambda>s. s\<lparr>cpu_booted := cpu_booted s + 1\<rparr>)]))"

definition kern_init :: "machine \<Rightarrow> ('a boot_scheme, unit) kern" where
  "kern_init mc = blockK [
     thread_init (namei (lit ''/'')) (devinit mc),
     kern_info ''[BSP KERN] Kernel initialized.'',
     kern_main]"

text \<open>A further processor, with the routine it is given to run.\<close>

definition kern_init_ap :: "('a boot_scheme, unit) kern \<Rightarrow> ('a boot_scheme, unit) kern" where
  "kern_init_ap f = seqK devinit_ap f"

end
