(* ===== verification/BCache.thy ===== *)
theory BCache
  imports Disk
begin

text \<open>
  Correctness of the buffer cache (\<open>kern/fs/bufcache.c\<close>) over the disk driver.  The cache is seen
  as a store of blocks by drive and sector: its current contents are those of the valid buffers and,
  for every other sector, those of the disk.
\<close>

section \<open>Flags of a buffer\<close>

abbreviation busy :: "buf \<Rightarrow> bool" where "busy b \<equiv> bit (flags b) 0"
abbreviation valid :: "buf \<Rightarrow> bool" where "valid b \<equiv> bit (flags b) 1"
abbreviation dirty :: "buf \<Rightarrow> bool" where "dirty b \<equiv> bit (flags b) 2"

lemma bit_of_flag:
  "bit B_BUSY n \<longleftrightarrow> n = 0" "bit B_VALID n \<longleftrightarrow> n = 1" "bit B_DIRTY n \<longleftrightarrow> n = 2"
  using bit_exp_iff [where 'a = u32, of 1 n] bit_exp_iff [where 'a = u32, of 2 n]
  by (auto simp: B_BUSY_def B_VALID_def B_DIRTY_def bit_1_iff possible_bit_def)

lemma and_exp_0: "(f :: u32) AND 2 ^ k = 0 \<longleftrightarrow> \<not> bit f k"
  by (simp add: and_exp_eq_0_iff_not_bit)

lemma flag_tests:
  "f AND B_BUSY = 0 \<longleftrightarrow> \<not> bit f 0" "f AND B_VALID = 0 \<longleftrightarrow> \<not> bit f 1" "f AND B_DIRTY = 0 \<longleftrightarrow> \<not> bit f 2"
  using and_exp_0 [of f 0] and_exp_0 [of f 1] and_exp_0 [of f 2] by (simp_all add: B_BUSY_def B_VALID_def B_DIRTY_def)

lemma flag_clean: "f AND (B_VALID OR B_DIRTY) = B_VALID \<longleftrightarrow> bit f 1 \<and> \<not> bit f 2"
proof
  assume eq: "f AND (B_VALID OR B_DIRTY) = B_VALID"
  have "bit (f AND (B_VALID OR B_DIRTY)) n = bit B_VALID n" for n by (simp only: eq)
  from this [of 1] this [of 2] show "bit f 1 \<and> \<not> bit f 2" by (simp add: bit_simps bit_of_flag)
next
  assume "bit f 1 \<and> \<not> bit f 2"
  then show "f AND (B_VALID OR B_DIRTY) = B_VALID"
    by (intro bit_word_eqI) (auto simp: bit_simps bit_of_flag)
qed

lemma flag_updates:
  "bit (f OR B_BUSY) n \<longleftrightarrow> n = 0 \<or> bit f n"
  "bit (f OR B_DIRTY) n \<longleftrightarrow> n = 2 \<or> bit f n"
  "bit ((f OR B_VALID) AND NOT B_DIRTY) n \<longleftrightarrow> n \<noteq> 2 \<and> (n = 1 \<or> bit f n)"
  "bit (f AND NOT B_BUSY) n \<longleftrightarrow> n \<noteq> 0 \<and> bit f n"
  by (auto simp: bit_simps bit_of_flag dest: bit_imp_le_length)

lemmas flag_simps = flag_tests flag_clean flag_updates bit_of_flag

section \<open>The driver\<close>

text \<open>The addresses that the ports of the controller can name.\<close>

definition addressable :: "u32 \<Rightarrow> u32 \<Rightarrow> bool" where
  "addressable d sec \<longleftrightarrow> d < 2 \<and> sec < 2 ^ 28"

lemma and_one: "(d :: u32) < 2 \<Longrightarrow> d AND 1 = d"
  by (simp add: and_one_eq word_less_nat_alt word_unat_eq_iff unat_mod)

lemma ide_address: "addressable (dev b) (sector b) \<Longrightarrow> ide_drive b = dev b \<and> ide_sector b = sector b"
proof -
  assume a: "addressable (dev b) (sector b)"
  have "ide_sector b = sector b AND mask 28"
    by (simp add: ide_sector_def bit.conj_disj_distrib [symmetric] mask_eq_exp_minus_1)
  also have "\<dots> = sector b"
    using a by (simp add: addressable_def word_less_nat_alt take_bit_eq_mask [symmetric] take_bit_eq_mod
        word_unat_eq_iff unat_mod)
  finally show ?thesis using a by (simp add: ide_drive_def addressable_def and_one)
qed

text \<open>The locks are free, nobody sleeps, no request is pending and the drives work.\<close>

definition calm :: "'a fs_scheme \<Rightarrow> bool" where
  "calm s \<longleftrightarrow> cpu_ok s \<and> locks s Ide_lk = spin_free \<and> locks s Bcache_lk = spin_free \<and> locks s Sched_lk = spin_free \<and>
     locks s Log_lk = spin_free \<and> idequeue s = [] \<and> havedisk1 s \<and> (\<forall>d sec. \<not> disk_error s d sec) \<and>
     (\<forall>pid ch. pid < NUM_IDS \<longrightarrow> \<not> sleeping s ch pid)"

lemma wake_nobody:
  assumes "pid < NUM_IDS" "\<not> sleeping s ch pid"
  shows "wake_thread ch pid s = Inr ((), s)"
  using assms by (auto simp: wake_thread_def tcb_get_chan_def tcb_get_state_def get_tcb_def monad_defs sleeping_def)

lemma forK_skip: "\<forall>x \<in> set xs. f x s = Inr ((), s) \<Longrightarrow> forK xs f s = Inr ((), s)"
  by (induction xs) (simp_all add: monad_defs)

lemma wakeup_nobody:
  assumes "cpu_ok s" "locks s Sched_lk = spin_free" "\<forall>pid < NUM_IDS. \<not> sleeping s ch pid"
  shows "thread_wakeup ch s = Inr ((), s)"
proof -
  have "forK (word_range 1 NUM_IDS) (wake_thread ch) (take_lock Sched_lk s) = Inr ((), take_lock Sched_lk s)"
    using assms(3) by (intro forK_skip ballI wake_nobody) (auto simp: set_word_range sleeping_def)
  from critical_spec [where lk = Sched_lk and m = "forK (word_range 1 NUM_IDS) (wake_thread ch)",
      OF assms(1) lock_free_spin_free [OF assms(2)] this] assms(2)
  show ?thesis by (simp add: thread_wakeup_def drop_take_lock)
qed

lemma fs_fields [simp]:
  "cpu_ok (s\<lparr>disk := D\<rparr>) = cpu_ok s" "cpu_ok (s\<lparr>bufs := B\<rparr>) = cpu_ok s" "cpu_ok (s\<lparr>bcache_list := L\<rparr>) = cpu_ok s"
  "cpu_ok (s\<lparr>idequeue := q\<rparr>) = cpu_ok s" "cpu_ok (s\<lparr>locks := l\<rparr>) = cpu_ok s"
  "this_cpu (s\<lparr>disk := D\<rparr>) = this_cpu s" "this_cpu (s\<lparr>bufs := B\<rparr>) = this_cpu s" "this_cpu (s\<lparr>bcache_list := L\<rparr>) = this_cpu s"
  "this_cpu (s\<lparr>idequeue := q\<rparr>) = this_cpu s" "this_cpu (s\<lparr>locks := l\<rparr>) = this_cpu s"
  "sleeping (s\<lparr>disk := D\<rparr>) = sleeping s" "sleeping (s\<lparr>bufs := B\<rparr>) = sleeping s"
  "sleeping (s\<lparr>bcache_list := L\<rparr>) = sleeping s" "sleeping (s\<lparr>idequeue := q\<rparr>) = sleeping s"
  "sleeping (s\<lparr>locks := l\<rparr>) = sleeping s"
  by (simp_all add: cpu_ok_def this_cpu_def sleeping_def fun_eq_iff)

lemma calm_simps [simp]:
  "calm (s\<lparr>disk := D\<rparr>) = calm s" "calm (s\<lparr>bufs := B\<rparr>) = calm s" "calm (s\<lparr>bcache_list := L\<rparr>) = calm s"
  by (simp_all add: calm_def)

lemma calmD:
  assumes "calm s"
  shows "cpu_ok s" "locks s Ide_lk = spin_free" "locks s Bcache_lk = spin_free" "locks s Sched_lk = spin_free"
    "idequeue s = []" "havedisk1 s" "\<not> disk_error s d sec" "pid < NUM_IDS \<Longrightarrow> \<not> sleeping s ch pid"
    "locks s Log_lk = spin_free"
  using assms by (simp_all add: calm_def)

lemma lock_spin_free [simp]: "lock spin_free = 0"
  by (simp add: spin_free_def)

lemmas lock_simps = spin.acquire_free spin.release_eq lock_free_def take_lock_def drop_lock_def

text \<open>What a finished request leaves behind.\<close>

definition transferred :: "nat \<Rightarrow> 'a fs_scheme \<Rightarrow> 'a fs_scheme" where
  "transferred b s = (let bp = bufs s ! b; fl = (flags bp OR B_VALID) AND NOT B_DIRTY in
     if dirty bp
     then s\<lparr>disk := (disk s)(dev bp := (disk s (dev bp))(sector bp := data bp)), bufs := (bufs s)[b := bp\<lparr>flags := fl\<rparr>]\<rparr>
     else s\<lparr>bufs := (bufs s)[b := bp\<lparr>data := disk s (dev bp) (sector bp), flags := fl\<rparr>]\<rparr>)"

lemma ide_intr_run:
  assumes "calm s" "b < length (bufs s)" "addressable (dev (bufs s ! b)) (sector (bufs s ! b))"
  shows "ide_intr (s\<lparr>idequeue := [b]\<rparr>) = Inr ((), s\<lparr>bufs := (bufs s)[b := (bufs s ! b)\<lparr>
     data := if dirty (bufs s ! b) then data (bufs s ! b) else disk s (dev (bufs s ! b)) (sector (bufs s ! b)),
     flags := (flags (bufs s ! b) OR B_VALID) AND NOT B_DIRTY\<rparr>]\<rparr>)"
  using assms calmD [OF assms(1)] ide_address [OF assms(3)]
  by (simp add: ide_intr_def monad_defs lock_simps get_buf_def get_at_def upd_buf_def ide_wait_def wakeup_nobody
      flag_simps fun_upd_same_value)

definition completed :: "nat \<Rightarrow> 'a fs_scheme \<Rightarrow> 'a fs_scheme" where
  "completed b s = s\<lparr>bufs := (bufs s)[b := (bufs s ! b)\<lparr>
     data := if dirty (bufs s ! b) then data (bufs s ! b) else disk s (dev (bufs s ! b)) (sector (bufs s ! b)),
     flags := (flags (bufs s ! b) OR B_VALID) AND NOT B_DIRTY\<rparr>]\<rparr>"

lemma completed_fields: "cpu_ok (completed b s) = cpu_ok s" "locks (completed b s) = locks s"
    "calm (completed b s) = calm s" "length (bufs (completed b s)) = length (bufs s)"
  by (simp_all add: completed_def)

lemma ide_complete_run:
  assumes "calm s" "b < length (bufs s)" "addressable (dev (bufs s ! b)) (sector (bufs s ! b))"
    "\<not> (valid (bufs s ! b) \<and> \<not> dirty (bufs s ! b))"
  shows "ide_complete (Suc (Suc 0)) b (take_lock Ide_lk (s\<lparr>idequeue := [b]\<rparr>)) = Inr ((), take_lock Ide_lk (completed b s))"
proof -
  have free: "locks (s\<lparr>idequeue := [b]\<rparr>) Ide_lk = spin_free" "lock_free Ide_lk (completed b s)"
    using calmD(2) [OF assms(1)] by (simp_all add: completed_def lock_free_def)
  have get: "get_buf b (take_lock Ide_lk t) = (if b < length (bufs t) then Inr (bufs t ! b, take_lock Ide_lk t) else Inl OutOfBounds)"
    for t :: "'a fs_scheme"
    by (simp add: get_buf_def get_at_def take_lock_def)
  have fin: "ide_complete (Suc 0) b (take_lock Ide_lk (completed b s)) = Inr ((), take_lock Ide_lk (completed b s))"
    using assms(2) by (simp add: bindK_def get completed_fields returnK_def) (simp add: completed_def flag_simps)
  have "ide_complete (Suc (Suc 0)) b (take_lock Ide_lk (s\<lparr>idequeue := [b]\<rparr>)) =
      blockK [spinlock_release Ide_lk, ide_intr, spinlock_acquire Ide_lk, ide_complete (Suc 0) b] (take_lock Ide_lk (s\<lparr>idequeue := [b]\<rparr>))"
    using assms(2,4) by (subst ide_complete.simps(2)) (auto simp: bindK_def get flag_simps simp del: ide_complete.simps)
  also have "\<dots> = Inr ((), take_lock Ide_lk (completed b s))"
    using free ide_intr_run [OF assms(1-3)] calmD(1) [OF assms(1)] fin
    by (simp add: blockK_def seqK_def spin.release_eq drop_take_lock spin.acquire_free completed_fields returnK_def
        flip: completed_def del: ide_complete.simps)
  finally show ?thesis .
qed

lemma ide_start_run:
  assumes "b < length (bufs s)" "addressable (dev (bufs s ! b)) (sector (bufs s ! b))"
  shows "ide_start b s = Inr ((), if dirty (bufs s ! b)
     then s\<lparr>disk := (disk s)(dev (bufs s ! b) := (disk s (dev (bufs s ! b)))(sector (bufs s ! b) := data (bufs s ! b)))\<rparr> else s)"
  using assms(1) ide_address [OF assms(2)]
  by (simp add: ide_start_def get_buf_def get_at_def monad_defs flag_simps)

lemma transferred_completed:
  "transferred b s = completed b (if dirty (bufs s ! b)
     then s\<lparr>disk := (disk s)(dev (bufs s ! b) := (disk s (dev (bufs s ! b)))(sector (bufs s ! b) := data (bufs s ! b)))\<rparr> else s)"
  by (simp add: transferred_def completed_def Let_def)

lemma ide_rw_run:
  assumes "calm s" "b < length (bufs s)" "addressable (dev (bufs s ! b)) (sector (bufs s ! b))"
    "busy (bufs s ! b)" "\<not> (valid (bufs s ! b) \<and> \<not> dirty (bufs s ! b))"
  shows "ide_rw b s = Inr ((), transferred b s)"
proof -
  define t where "t = (if dirty (bufs s ! b)
     then s\<lparr>disk := (disk s)(dev (bufs s ! b) := (disk s (dev (bufs s ! b)))(sector (bufs s ! b) := data (bufs s ! b)))\<rparr> else s)"
  let ?q = "take_lock Ide_lk (s\<lparr>idequeue := [b]\<rparr>)"
  have t: "calm t" "bufs t = bufs s" using assms(1) by (simp_all add: t_def)
  have "ide_start b ?q = Inr ((), take_lock Ide_lk (t\<lparr>idequeue := [b]\<rparr>))"
    using assms(2,3) by (subst ide_start_run) (simp_all add: take_lock_def t_def)
  moreover have "ide_complete (Suc (Suc 0)) b (take_lock Ide_lk (t\<lparr>idequeue := [b]\<rparr>)) = Inr ((), take_lock Ide_lk (completed b t))"
    using assms t by (intro ide_complete_run) simp_all
  moreover have "take_lock Ide_lk s\<lparr>idequeue := [b]\<rparr> = ?q" "idequeue (take_lock Ide_lk (t\<lparr>idequeue := [b]\<rparr>)) = [b]"
      "idequeue (take_lock Ide_lk s) = []" "idequeue ?q = [b]" "drop_lock Ide_lk (take_lock Ide_lk (completed b t)) = completed b t"
      "lock_free Ide_lk s"
    using calmD(2,5) [OF assms(1)] calmD(2) [OF t(1)] by (simp_all add: take_lock_def drop_lock_def completed_def fun_upd_same_value lock_free_def)
  ultimately show ?thesis
    using assms(2,4,5) calmD [OF assms(1)]
    by (simp add: ide_rw_def get_buf_def get_at_def monad_defs flag_simps spin.acquire_free spin.release_eq
        transferred_completed t_def [symmetric] del: ide_complete.simps)
qed

section \<open>The cache as a store of blocks\<close>

text \<open>The contents of a sector as the users of the cache see them.\<close>

definition contents :: "'a fs_scheme \<Rightarrow> u32 \<Rightarrow> u32 \<Rightarrow> bytes" where
  "contents s d sec = (case find (\<lambda>b. cached (bufs s) d sec b \<and> valid (bufs s ! b)) [0..<length (bufs s)] of
     Some b \<Rightarrow> data (bufs s ! b) | None \<Rightarrow> disk s d sec)"

text \<open>Every buffer is in the recency list once, a sector has at most one buffer, and a buffer nobody
  holds agrees with the disk unless it is dirty.\<close>

definition cache_ok :: "'a fs_scheme \<Rightarrow> bool" where
  "cache_ok s \<longleftrightarrow> length (bufs s) = NBUF \<and> distinct (bcache_list s) \<and> set (bcache_list s) = {..<NBUF} \<and>
     (\<forall>b < NBUF. dev (bufs s ! b) \<noteq> - 1 \<longrightarrow> addressable (dev (bufs s ! b)) (sector (bufs s ! b)) \<and>
        (\<forall>c < NBUF. cached (bufs s) (dev (bufs s ! b)) (sector (bufs s ! b)) c \<longrightarrow> c = b)) \<and>
     (\<forall>b < NBUF. dev (bufs s ! b) = - 1 \<longrightarrow> \<not> valid (bufs s ! b)) \<and>
     (\<forall>b < NBUF. dirty (bufs s ! b) \<longrightarrow> valid (bufs s ! b)) \<and>
     (\<forall>b < NBUF. valid (bufs s ! b) \<and> \<not> busy (bufs s ! b) \<and> \<not> dirty (bufs s ! b) \<longrightarrow>
        data (bufs s ! b) = disk s (dev (bufs s ! b)) (sector (bufs s ! b)))"

lemma cache_okD:
  assumes "cache_ok s"
  shows "length (bufs s) = NBUF" "distinct (bcache_list s)" "set (bcache_list s) = {..<NBUF}"
    "b < NBUF \<Longrightarrow> dev (bufs s ! b) \<noteq> - 1 \<Longrightarrow> addressable (dev (bufs s ! b)) (sector (bufs s ! b))"
    "b < NBUF \<Longrightarrow> c < NBUF \<Longrightarrow> d \<noteq> - 1 \<Longrightarrow> cached (bufs s) d sec b \<Longrightarrow> cached (bufs s) d sec c \<Longrightarrow> c = b"
    "b < NBUF \<Longrightarrow> valid (bufs s ! b) \<Longrightarrow> dev (bufs s ! b) \<noteq> - 1"
    "b < NBUF \<Longrightarrow> dirty (bufs s ! b) \<Longrightarrow> valid (bufs s ! b)"
    "b < NBUF \<Longrightarrow> valid (bufs s ! b) \<Longrightarrow> \<not> busy (bufs s ! b) \<Longrightarrow> \<not> dirty (bufs s ! b) \<Longrightarrow>
       data (bufs s ! b) = disk s (dev (bufs s ! b)) (sector (bufs s ! b))"
  using assms unfolding cache_ok_def cached_def by metis+

lemma addressable_dev: "addressable d sec \<Longrightarrow> d \<noteq> - 1"
  by (auto simp: addressable_def)

lemma contents_cached:
  assumes "cache_ok s" "b < NBUF" "valid (bufs s ! b)" "cached (bufs s) d sec b"
  shows "contents s d sec = data (bufs s ! b)"
proof -
  have d: "d \<noteq> - 1" using assms(2,4) cache_okD(6) [OF assms(1,2,3)] by (simp add: cached_def)
  obtain c where c: "find (\<lambda>b. cached (bufs s) d sec b \<and> valid (bufs s ! b)) [0..<length (bufs s)] = Some c"
    using assms cache_okD(1) [OF assms(1)] by (fastforce simp: find_None_iff)
  then have "c < NBUF" "cached (bufs s) d sec c"
    using cache_okD(1) [OF assms(1)] by (auto simp: find_Some_iff)
  with assms d have "c = b" using cache_okD(5) by blast
  with c show ?thesis by (simp add: contents_def)
qed

lemma contents_uncached:
  assumes "cache_ok s" "\<forall>b < NBUF. cached (bufs s) d sec b \<longrightarrow> \<not> valid (bufs s ! b)"
  shows "contents s d sec = disk s d sec"
proof -
  have "find (\<lambda>b. cached (bufs s) d sec b \<and> valid (bufs s ! b)) [0..<length (bufs s)] = None"
    using assms cache_okD(1) [OF assms(1)] by (auto simp: find_None_iff)
  then show ?thesis by (simp add: contents_def)
qed

text \<open>Replacing one buffer.\<close>

lemma cache_okI:
  assumes "length (bufs s) = NBUF" "distinct (bcache_list s)" "set (bcache_list s) = {..<NBUF}"
    "\<And>b. b < NBUF \<Longrightarrow> dev (bufs s ! b) \<noteq> - 1 \<Longrightarrow> addressable (dev (bufs s ! b)) (sector (bufs s ! b))"
    "\<And>b c. b < NBUF \<Longrightarrow> c < NBUF \<Longrightarrow> dev (bufs s ! b) \<noteq> - 1 \<Longrightarrow>
       cached (bufs s) (dev (bufs s ! b)) (sector (bufs s ! b)) c \<Longrightarrow> c = b"
    "\<And>b. b < NBUF \<Longrightarrow> valid (bufs s ! b) \<Longrightarrow> dev (bufs s ! b) \<noteq> - 1"
    "\<And>b. b < NBUF \<Longrightarrow> dirty (bufs s ! b) \<Longrightarrow> valid (bufs s ! b)"
    "\<And>b. b < NBUF \<Longrightarrow> valid (bufs s ! b) \<Longrightarrow> \<not> busy (bufs s ! b) \<Longrightarrow> \<not> dirty (bufs s ! b) \<Longrightarrow>
       data (bufs s ! b) = disk s (dev (bufs s ! b)) (sector (bufs s ! b))"
  shows "cache_ok s"
  unfolding cache_ok_def by (intro conjI allI impI assms(1-3)) (use assms(4-8) in blast)+

lemma cache_ok_replace:
  assumes "cache_ok s" "b < NBUF" "addressable (dev bp) (sector bp)"
    "\<forall>c < NBUF. cached (bufs s) (dev bp) (sector bp) c \<longrightarrow> c = b" "dirty bp \<longrightarrow> valid bp"
    "valid bp \<and> \<not> busy bp \<and> \<not> dirty bp \<longrightarrow> data bp = disk s (dev bp) (sector bp)"
  shows "cache_ok (s\<lparr>bufs := (bufs s)[b := bp]\<rparr>)" (is "cache_ok ?s")
proof (rule cache_okI)
  note c = cache_okD [OF assms(1)]
  have B: "(bufs s)[b := bp] ! x = (if x = b then bp else bufs s ! x)" for x
    using c(1) assms(2) by (simp add: nth_list_update)
  show "length (bufs ?s) = NBUF" "distinct (bcache_list ?s)" "set (bcache_list ?s) = {..<NBUF}"
    using c(1-3) by simp_all
  fix x assume x: "x < NBUF"
  show "addressable (dev (bufs ?s ! x)) (sector (bufs ?s ! x))" if "dev (bufs ?s ! x) \<noteq> - 1"
    using that x assms(3) c(4) by (cases "x = b") (simp_all add: B)
  show "y = x" if "y < NBUF" "dev (bufs ?s ! x) \<noteq> - 1" "cached (bufs ?s) (dev (bufs ?s ! x)) (sector (bufs ?s ! x)) y" for y
  proof -
    consider "x = b" "y = b" | "x = b" "y \<noteq> b" | "x \<noteq> b" "y = b" | "x \<noteq> b" "y \<noteq> b" by blast
    then show ?thesis
    proof cases
      case 2
      with that(3) have "cached (bufs s) (dev bp) (sector bp) y" by (simp add: B cached_def)
      with assms(4) \<open>y < NBUF\<close> 2 show ?thesis by blast
    next
      case 3
      with that(3) have "cached (bufs s) (dev bp) (sector bp) x" by (simp add: B cached_def)
      with assms(4) x 3 show ?thesis by blast
    next
      case 4
      with that have "cached (bufs s) (dev (bufs s ! x)) (sector (bufs s ! x)) y" "dev (bufs s ! x) \<noteq> - 1" by (simp_all add: B cached_def)
      with x that(1) show ?thesis by (intro c(5) [of x y]) (simp_all add: cached_def)
    qed simp
  qed
  show "dev (bufs ?s ! x) \<noteq> - 1" if "valid (bufs ?s ! x)"
    using that x addressable_dev [OF assms(3)] c(6) by (cases "x = b") (simp_all add: B)
  show "valid (bufs ?s ! x)" if "dirty (bufs ?s ! x)"
    using that x assms(5) c(7) by (cases "x = b") (simp_all add: B)
  show "data (bufs ?s ! x) = disk ?s (dev (bufs ?s ! x)) (sector (bufs ?s ! x))"
    if "valid (bufs ?s ! x)" "\<not> busy (bufs ?s ! x)" "\<not> dirty (bufs ?s ! x)"
    using that x assms(6) c(8) by (cases "x = b") (simp_all add: B)
qed

lemma contents_replace:
  assumes "cache_ok s" "cache_ok (s\<lparr>bufs := (bufs s)[b := bp]\<rparr>)" "b < NBUF" "valid bp"
    "valid (bufs s ! b) \<Longrightarrow> cached (bufs s) (dev bp) (sector bp) b \<or> \<not> busy (bufs s ! b) \<and> \<not> dirty (bufs s ! b)"
  shows "contents (s\<lparr>bufs := (bufs s)[b := bp]\<rparr>) = (contents s)(dev bp := (contents s (dev bp))(sector bp := data bp))"
    (is "contents ?s = _")
proof (intro ext)
  fix d sec
  note c = cache_okD [OF assms(1)] and c' = cache_okD [OF assms(2)]
  have b: "(bufs s)[b := bp] ! b = bp" "(bufs s)[b := bp] ! x = bufs s ! x" if "x \<noteq> b" for x
    using assms(3) c(1) that by (simp_all add: nth_list_update)
  show "contents ?s d sec = ((contents s)(dev bp := (contents s (dev bp))(sector bp := data bp))) d sec"
  proof (cases "dev bp = d \<and> sector bp = sec")
    case True
    then show ?thesis using assms(3,4) b c(1) by (subst contents_cached [OF assms(2), of b]) (auto simp: cached_def)
  next
    case False
    consider x where "x \<noteq> b" "x < NBUF" "cached (bufs s) d sec x" "valid (bufs s ! x)"
      | "valid (bufs s ! b)" "cached (bufs s) d sec b" "\<forall>x < NBUF. x \<noteq> b \<longrightarrow> cached (bufs s) d sec x \<longrightarrow> \<not> valid (bufs s ! x)"
      | "\<forall>x < NBUF. cached (bufs s) d sec x \<longrightarrow> \<not> valid (bufs s ! x)" by metis
    then show ?thesis
    proof cases
      case 1
      then show ?thesis using False b contents_cached [OF assms(1) 1(2,4,3)] contents_cached [OF assms(2), of x d sec]
        by (auto simp: cached_def)
    next
      case 2
      have "contents ?s d sec = disk ?s d sec"
        using 2 False b c(1) assms(3) by (intro contents_uncached [OF assms(2)]) (auto simp: cached_def nth_list_update)
      moreover have "contents s d sec = disk s d sec"
        using 2 False assms(5) c(8) [OF assms(3)] by (subst contents_cached [OF assms(1,3)]) (auto simp: cached_def)
      ultimately show ?thesis using False by auto
    next
      case 3
      have "contents ?s d sec = disk ?s d sec"
        using 3 False b c(1) assms(3) by (intro contents_uncached [OF assms(2)]) (auto simp: cached_def nth_list_update)
      with 3 False show ?thesis by (auto simp: contents_uncached [OF assms(1)])
    qed
  qed
qed

section \<open>The operations\<close>

text \<open>A buffer can be had for the sector: it is not held, and it is in the cache or some buffer can be
  recycled.\<close>

definition gettable :: "'a fs_scheme \<Rightarrow> u32 \<Rightarrow> u32 \<Rightarrow> bool" where
  "gettable s d sec \<longleftrightarrow> (\<forall>b < NBUF. cached (bufs s) d sec b \<longrightarrow> \<not> busy (bufs s ! b)) \<and>
     (\<exists>b < NBUF. cached (bufs s) d sec b \<or> recyclable (bufs s) b)"

lemma bufcache_get_run:
  assumes "calm s" "cache_ok s" "addressable d sec" "gettable s d sec"
  obtains b bp where "bufcache_get d sec s = Inr (b, s\<lparr>bufs := (bufs s)[b := bp]\<rparr>)" "b < NBUF"
    "dev bp = d" "sector bp = sec" "busy bp" "data bp = data (bufs s ! b)" "\<not> busy (bufs s ! b)"
    "\<forall>c < NBUF. cached (bufs s) d sec c \<longrightarrow> c = b"
    "cached (bufs s) d sec b \<and> valid bp = valid (bufs s ! b) \<and> dirty bp = dirty (bufs s ! b) \<or>
     \<not> cached (bufs s) d sec b \<and> \<not> dirty (bufs s ! b) \<and> \<not> valid bp \<and> \<not> dirty bp"
proof -
  note c = cache_okD [OF assms(2)] and l = calmD(1-3) [OF assms(1)]
  have run: "bufcache_get d sec s = (case find (cached (bufs s) d sec) (bcache_list s) of
      Some b \<Rightarrow> if \<not> busy (bufs s ! b) then Inr (b, s\<lparr>bufs := (bufs s)[b := (bufs s ! b)\<lparr>flags := flags (bufs s ! b) OR B_BUSY\<rparr>]\<rparr>)
        else Inl Blocked
    | None \<Rightarrow> (case find (recyclable (bufs s)) (rev (bcache_list s)) of
        Some b \<Rightarrow> Inr (b, s\<lparr>bufs := (bufs s)[b := (bufs s ! b)\<lparr>dev := d, sector := sec, flags := B_BUSY\<rparr>]\<rparr>)
      | None \<Rightarrow> Inl (Panic ''bufcache_get: no buffers'')))"
  proof -
    have "b < length (bufs s)" if "find P (bcache_list s) = Some b \<or> find P (rev (bcache_list s)) = Some b" for P b
    proof -
      have "b \<in> set (bcache_list s)" using that by (auto dest: find_SomeD)
      then show ?thesis using c(1,3) by simp
    qed
    then show ?thesis using l
      by (auto simp: bufcache_get_def monad_defs lock_simps upd_buf_def flag_simps fun_upd_same_value split: option.splits)
  qed
  have d: "d \<noteq> - 1" using assms(3) by (rule addressable_dev)
  show thesis
  proof (cases "find (cached (bufs s) d sec) (bcache_list s)")
    case (Some b)
    then have b: "b \<in> set (bcache_list s)" "cached (bufs s) d sec b" by (auto dest: find_SomeD)
    then have n: "b < NBUF" "\<not> busy (bufs s ! b)" using c(3) assms(4) by (auto simp: gettable_def)
    have u: "\<forall>x < NBUF. cached (bufs s) d sec x \<longrightarrow> x = b" using c(5) [OF n(1) _ d b(2)] by blast
    show thesis
      by (rule that [of b "(bufs s ! b)\<lparr>flags := flags (bufs s ! b) OR B_BUSY\<rparr>", OF _ _ _ _ _ _ _ u])
        (use Some b n in \<open>simp_all add: run flag_simps\<close>, simp_all add: cached_def)
  next
    case None
    then have n: "\<not> cached (bufs s) d sec b" if "b < NBUF" for b using that c(3) by (auto simp: find_None_iff)
    then obtain r where "r < NBUF" "recyclable (bufs s) r" using assms(4) by (auto simp: gettable_def)
    then obtain b where f: "find (recyclable (bufs s)) (rev (bcache_list s)) = Some b"
      using c(3) by (cases "find (recyclable (bufs s)) (rev (bcache_list s))") (auto simp: find_None_iff)
    then have "b \<in> set (rev (bcache_list s))" "recyclable (bufs s) b" using find_SomeD by fastforce+
    then have b: "b < NBUF" "recyclable (bufs s) b" using c(3) by auto
    show thesis
      by (rule that [of b "(bufs s ! b)\<lparr>dev := d, sector := sec, flags := B_BUSY\<rparr>"])
        (use None f n b in \<open>simp_all add: run recyclable_def flag_simps\<close>)
  qed
qed

lemma bufcache_read_run:
  assumes "calm s" "cache_ok s" "addressable d sec" "gettable s d sec"
  obtains b bp where "bufcache_read d sec s = Inr (b, s\<lparr>bufs := (bufs s)[b := bp]\<rparr>)" "b < NBUF"
    "dev bp = d" "sector bp = sec" "busy bp" "valid bp" "data bp = contents s d sec" "\<not> busy (bufs s ! b)"
    "cache_ok (s\<lparr>bufs := (bufs s)[b := bp]\<rparr>)" "contents (s\<lparr>bufs := (bufs s)[b := bp]\<rparr>) = contents s"
    "dirty bp \<longleftrightarrow> cached (bufs s) d sec b \<and> dirty (bufs s ! b)" "dirty (bufs s ! b) \<longrightarrow> cached (bufs s) d sec b"
    "\<not> dirty bp \<longrightarrow> contents s d sec = disk s d sec"
proof -
  note c = cache_okD [OF assms(2)]
  obtain b bp where g: "bufcache_get d sec s = Inr (b, s\<lparr>bufs := (bufs s)[b := bp]\<rparr>)" "b < NBUF"
      "dev bp = d" "sector bp = sec" "busy bp" "data bp = data (bufs s ! b)" "\<not> busy (bufs s ! b)"
      "\<forall>c < NBUF. cached (bufs s) d sec c \<longrightarrow> c = b"
      "cached (bufs s) d sec b \<and> valid bp = valid (bufs s ! b) \<and> dirty bp = dirty (bufs s ! b) \<or>
       \<not> cached (bufs s) d sec b \<and> \<not> dirty (bufs s ! b) \<and> \<not> valid bp \<and> \<not> dirty bp"
    by (rule bufcache_get_run [OF assms])
  define bq where "bq = (if valid bp then bp else bp\<lparr>data := disk s d sec, flags := (flags bp OR B_VALID) AND NOT B_DIRTY\<rparr>)"
  have dv: "dirty bp \<Longrightarrow> valid bp" using g(9) c(7) [OF g(2)] by auto
  have q: "dev bq = d" "sector bq = sec" "busy bq" "valid bq" "dirty bq \<longleftrightarrow> dirty bp"
    using g(3-5) dv by (auto simp: bq_def flag_simps)
  have len: "b < length (bufs s)" using c(1) g(2) by simp
  have "bufcache_read d sec s = Inr (b, s\<lparr>bufs := (bufs s)[b := bq]\<rparr>)"
  proof (cases "valid bp")
    case False
    with dv g(3-5) assms(1,3) len have "ide_rw b (s\<lparr>bufs := (bufs s)[b := bp]\<rparr>) = Inr ((), transferred b (s\<lparr>bufs := (bufs s)[b := bp]\<rparr>))"
      by (intro ide_rw_run) auto
    with False dv g(1,3,4) len show ?thesis
      by (auto simp: bufcache_read_def monad_defs get_buf_def get_at_def flag_simps transferred_def Let_def bq_def)
  qed (use g(1) len in \<open>simp add: bufcache_read_def monad_defs get_buf_def get_at_def flag_simps bq_def\<close>)
  moreover have ok: "cache_ok (s\<lparr>bufs := (bufs s)[b := bq]\<rparr>)"
    using assms(2,3) g(2,8) q by (intro cache_ok_replace) simp_all
  moreover have dat: "data bq = contents s d sec"
  proof (cases "valid bp")
    case True
    with g(9) have "valid (bufs s ! b)" "cached (bufs s) d sec b" by auto
    from contents_cached [OF assms(2) g(2) this] True g(6) show ?thesis by (simp add: bq_def)
  next
    case False
    with g(8,9) have "\<forall>x < NBUF. cached (bufs s) d sec x \<longrightarrow> \<not> valid (bufs s ! x)" by auto
    from contents_uncached [OF assms(2) this] False show ?thesis by (simp add: bq_def)
  qed
  moreover have "contents (s\<lparr>bufs := (bufs s)[b := bq]\<rparr>) = contents s"
  proof -
    have "contents (s\<lparr>bufs := (bufs s)[b := bq]\<rparr>) = (contents s)(dev bq := (contents s (dev bq))(sector bq := data bq))"
      using g(2,7,9) q by (intro contents_replace [OF assms(2) ok]) auto
    then show ?thesis using q dat by (simp add: fun_upd_same_value)
  qed
  moreover have "contents s d sec = disk s d sec" if "\<not> dirty bq"
  proof (cases "valid bp")
    case True
    with that q(5) g(9) have "cached (bufs s) d sec b" "valid (bufs s ! b)" "\<not> dirty (bufs s ! b)" by auto
    with c(8) [OF g(2)] g(7) contents_cached [OF assms(2) g(2), of d sec] show ?thesis by (simp add: cached_def)
  qed (use dat in \<open>simp add: bq_def\<close>)
  ultimately show thesis using g(2,7,9) q by (intro that [of b bq]) auto
qed

text \<open>The buffer a caller holds after \<open>bufcache_read\<close>.\<close>

definition held :: "'a fs_scheme \<Rightarrow> nat \<Rightarrow> bool" where
  "held s b \<longleftrightarrow> b < NBUF \<and> busy (bufs s ! b) \<and> valid (bufs s ! b)"

lemma held_unique:
  assumes "cache_ok s" "held s b"
  shows "\<forall>c < NBUF. cached (bufs s) (dev (bufs s ! b)) (sector (bufs s ! b)) c \<longrightarrow> c = b"
    "addressable (dev (bufs s ! b)) (sector (bufs s ! b))"
proof -
  have b: "b < NBUF" "dev (bufs s ! b) \<noteq> - 1" using assms(2) cache_okD(6) [OF assms(1)] by (auto simp: held_def)
  show "addressable (dev (bufs s ! b)) (sector (bufs s ! b))" by (rule cache_okD(4) [OF assms(1) b])
  show "\<forall>c < NBUF. cached (bufs s) (dev (bufs s ! b)) (sector (bufs s ! b)) c \<longrightarrow> c = b"
    using cache_okD(5) [OF assms(1) b(1) _ b(2), of _ "sector (bufs s ! b)"] by (auto simp: cached_def)
qed

text \<open>The holder may change the data.\<close>

lemma fill_run:
  fixes x :: bytes
  assumes "cache_ok s" "held s b"
  defines "s' \<equiv> s\<lparr>bufs := (bufs s)[b := (bufs s ! b)\<lparr>data := x\<rparr>]\<rparr>"
  shows "cache_ok s'" "contents s' = (contents s)(dev (bufs s ! b) := (contents s (dev (bufs s ! b)))(sector (bufs s ! b) := x))"
    "held s' b"
proof -
  note h = held_unique [OF assms(1,2)]
  have b: "b < NBUF" "busy (bufs s ! b)" "valid (bufs s ! b)" using assms(2) by (auto simp: held_def)
  show ok: "cache_ok s'" unfolding s'_def using assms(1) h b by (intro cache_ok_replace) simp_all
  then show "contents s' = (contents s)(dev (bufs s ! b) := (contents s (dev (bufs s ! b)))(sector (bufs s ! b) := x))"
    unfolding s'_def using b by (subst contents_replace [OF assms(1)]) (simp_all add: cached_def)
  show "held s' b" using b cache_okD(1) [OF assms(1)] by (simp add: s'_def held_def)
qed

lemma contents_of_held: "cache_ok s \<Longrightarrow> held s b \<Longrightarrow> contents s (dev (bufs s ! b)) (sector (bufs s ! b)) = data (bufs s ! b)"
  by (rule contents_cached) (auto simp: held_def cached_def)

text \<open>Writing a sector of the disk that somebody holds.\<close>

lemma disk_write_ok:
  fixes x :: bytes
  assumes "cache_ok s" "held s b"
  defines "s' \<equiv> s\<lparr>disk := (disk s)(dev (bufs s ! b) := (disk s (dev (bufs s ! b)))(sector (bufs s ! b) := x))\<rparr>"
  shows "cache_ok s'" "contents s' = contents s"
proof -
  note c = cache_okD [OF assms(1)] and h = held_unique [OF assms(1,2)]
  have b: "b < NBUF" "busy (bufs s ! b)" "valid (bufs s ! b)" using assms(2) by (auto simp: held_def)
  have same: "disk s' (dev (bufs s ! y)) (sector (bufs s ! y)) = disk s (dev (bufs s ! y)) (sector (bufs s ! y))"
    if "y < NBUF" "\<not> busy (bufs s ! y)" for y
    using that h(1) b(2) by (auto simp: s'_def cached_def)
  show ok: "cache_ok s'"
    by (rule cache_okI) (use c same in \<open>simp_all add: s'_def cached_def\<close>)
  show "contents s' = contents s"
  proof (intro ext)
    fix d sec
    show "contents s' d sec = contents s d sec"
    proof (cases "d = dev (bufs s ! b) \<and> sec = sector (bufs s ! b)")
      case True
      then show ?thesis
        using contents_cached [OF ok b(1), of d sec] contents_cached [OF assms(1) b(1), of d sec] b(3)
        by (simp add: s'_def cached_def)
    qed (auto simp: contents_def s'_def split: option.split)
  qed
qed

definition put_sector :: "u32 \<Rightarrow> u32 \<Rightarrow> bytes \<Rightarrow> (u32 \<Rightarrow> u32 \<Rightarrow> bytes) \<Rightarrow> (u32 \<Rightarrow> u32 \<Rightarrow> bytes)" where
  "put_sector d sec x D = D(d := (D d)(sec := x))"

lemma bufcache_write_run:
  assumes "calm s" "cache_ok s" "held s b"
  obtains bq where "bufcache_write b s = Inr ((), s\<lparr>disk := put_sector (dev (bufs s ! b)) (sector (bufs s ! b)) (data (bufs s ! b)) (disk s),
      bufs := (bufs s)[b := bq]\<rparr>)"
    "dev bq = dev (bufs s ! b)" "sector bq = sector (bufs s ! b)" "data bq = data (bufs s ! b)" "busy bq" "valid bq" "\<not> dirty bq"
    "cache_ok (s\<lparr>disk := put_sector (dev (bufs s ! b)) (sector (bufs s ! b)) (data (bufs s ! b)) (disk s), bufs := (bufs s)[b := bq]\<rparr>)"
    "contents (s\<lparr>disk := put_sector (dev (bufs s ! b)) (sector (bufs s ! b)) (data (bufs s ! b)) (disk s), bufs := (bufs s)[b := bq]\<rparr>) = contents s"
proof -
  let ?D = "put_sector (dev (bufs s ! b)) (sector (bufs s ! b)) (data (bufs s ! b)) (disk s)"
  define bd where "bd = (bufs s ! b)\<lparr>flags := flags (bufs s ! b) OR B_DIRTY\<rparr>"
  define bq where "bq = bd\<lparr>flags := (flags bd OR B_VALID) AND NOT B_DIRTY\<rparr>"
  note h = held_unique [OF assms(2,3)]
  have b: "b < NBUF" "busy (bufs s ! b)" "valid (bufs s ! b)" "b < length (bufs s)"
    using assms(3) cache_okD(1) [OF assms(2)] by (auto simp: held_def)
  have q: "dev bq = dev (bufs s ! b)" "sector bq = sector (bufs s ! b)" "data bq = data (bufs s ! b)" "busy bq" "valid bq" "\<not> dirty bq"
    using b by (simp_all add: bq_def bd_def flag_simps)
  have "ide_rw b (s\<lparr>bufs := (bufs s)[b := bd]\<rparr>) = Inr ((), transferred b (s\<lparr>bufs := (bufs s)[b := bd]\<rparr>))"
    using assms(1) b h(2) by (intro ide_rw_run) (simp_all add: bd_def flag_simps)
  moreover have "transferred b (s\<lparr>bufs := (bufs s)[b := bd]\<rparr>) = s\<lparr>disk := ?D, bufs := (bufs s)[b := bq]\<rparr>"
    using b by (simp add: transferred_def Let_def put_sector_def bq_def) (simp add: bd_def flag_simps)
  ultimately have "bufcache_write b s = Inr ((), s\<lparr>disk := ?D, bufs := (bufs s)[b := bq]\<rparr>)"
    using b by (simp add: bufcache_write_def get_buf_def get_at_def upd_buf_def monad_defs flag_simps bd_def)
  moreover
  have w: "cache_ok (s\<lparr>disk := ?D\<rparr>)" "contents (s\<lparr>disk := ?D\<rparr>) = contents s"
    using disk_write_ok [OF assms(2,3)] by (simp_all add: put_sector_def)
  have ok: "cache_ok (s\<lparr>disk := ?D, bufs := (bufs s)[b := bq]\<rparr>)"
    using cache_ok_replace [OF w(1), of b bq] h b q by simp
  moreover have "contents (s\<lparr>disk := ?D, bufs := (bufs s)[b := bq]\<rparr>) = contents s"
    using contents_replace [OF w(1), of b bq] ok w(2) h b q contents_of_held [OF assms(2,3)]
    by (simp add: cached_def fun_upd_same_value)
  ultimately show thesis using q by (intro that [of bq])
qed

lemma cache_ok_list: "cache_ok s \<Longrightarrow> distinct L \<Longrightarrow> set L = {..<NBUF} \<Longrightarrow> cache_ok (s\<lparr>bcache_list := L\<rparr>)"
  by (simp only: cache_ok_def fs.simps) simp

lemma bufcache_release_run:
  assumes "calm s" "cache_ok s" "held s b"
    "dirty (bufs s ! b) \<or> data (bufs s ! b) = disk s (dev (bufs s ! b)) (sector (bufs s ! b))"
  obtains bq where "bufcache_release b s = Inr ((), s\<lparr>bufs := (bufs s)[b := bq], bcache_list := b # remove1 b (bcache_list s)\<rparr>)"
    "dev bq = dev (bufs s ! b)" "sector bq = sector (bufs s ! b)" "data bq = data (bufs s ! b)" "\<not> busy bq" "valid bq"
    "dirty bq = dirty (bufs s ! b)"
    "cache_ok (s\<lparr>bufs := (bufs s)[b := bq], bcache_list := b # remove1 b (bcache_list s)\<rparr>)"
    "contents (s\<lparr>bufs := (bufs s)[b := bq], bcache_list := b # remove1 b (bcache_list s)\<rparr>) = contents s"
proof -
  define bq where "bq = (bufs s ! b)\<lparr>flags := flags (bufs s ! b) AND NOT B_BUSY\<rparr>"
  let ?L = "b # remove1 b (bcache_list s)"
  note h = held_unique [OF assms(2,3)] and c = cache_okD [OF assms(2)] and l = calmD [OF assms(1)]
  have b: "b < NBUF" "busy (bufs s ! b)" "valid (bufs s ! b)" "b < length (bufs s)"
    using assms(3) c(1) by (auto simp: held_def)
  have q: "dev bq = dev (bufs s ! b)" "sector bq = sector (bufs s ! b)" "data bq = data (bufs s ! b)" "\<not> busy bq" "valid bq"
      "dirty bq = dirty (bufs s ! b)"
    using b by (simp_all add: bq_def flag_simps)
  have "bufcache_release b s = Inr ((), s\<lparr>bufs := (bufs s)[b := bq], bcache_list := ?L\<rparr>)"
    using b l by (simp add: bufcache_release_def get_buf_def get_at_def upd_buf_def monad_defs flag_simps lock_simps
        wakeup_nobody bq_def fun_upd_same_value)
  moreover have ok1: "cache_ok (s\<lparr>bufs := (bufs s)[b := bq]\<rparr>)"
    using assms(2,4) h b q by (intro cache_ok_replace) (simp_all, blast)
  have L: "distinct ?L" "set ?L = {..<NBUF}" using c(2,3) b(1) by auto
  have ok: "cache_ok (s\<lparr>bufs := (bufs s)[b := bq], bcache_list := ?L\<rparr>)"
    using cache_ok_list [OF ok1 L] by simp
  moreover have "contents (s\<lparr>bufs := (bufs s)[b := bq], bcache_list := ?L\<rparr>) = contents (s\<lparr>bufs := (bufs s)[b := bq]\<rparr>)"
    by (simp add: contents_def fun_eq_iff split: option.split)
  moreover have "contents (s\<lparr>bufs := (bufs s)[b := bq]\<rparr>) = contents s"
    using contents_replace [OF assms(2) ok1] b q contents_of_held [OF assms(2,3)]
    by (simp add: cached_def fun_upd_same_value)
  ultimately show thesis using q by (intro that [of bq]) simp_all
qed

lemma bufcache_release_store:
  assumes "calm s" "cache_ok s" "held s b"
    "dirty (bufs s ! b) \<or> data (bufs s ! b) = disk s (dev (bufs s ! b)) (sector (bufs s ! b))"
  shows "\<exists>s'. bufcache_release b s = Inr ((), s') \<and> disk s' = disk s \<and> contents s' = contents s \<and> cache_ok s' \<and> calm s'"
  by (rule bufcache_release_run [OF assms]) (use assms(1) in simp)

section \<open>The cache refines a store of blocks\<close>


lemma demo_fs_fields:
  "cpu_ok demo_fs" "locks demo_fs l = spin_free" "TCBPool demo_fs = demo_tcb(4 := demo_tcb 5)" "idequeue demo_fs = []" "havedisk1 demo_fs"
  "\<not> disk_error demo_fs d sec" "disk demo_fs d sec = replicate 512 0" "bcache_list demo_fs = rev [0..<NBUF]"
  "bufs demo_fs = replicate NBUF \<lparr>flags = 0, dev = - 1, sector = 0, data = replicate 512 0\<rparr>"
  "log demo_fs = \<lparr>log_start = 0, log_size = 0, log_busy = False, log_dev = 0, lh_n = 0, lh_sector = replicate LOGSIZE 0\<rparr>"
  by (simp_all add: demo_fs_def fs.defs demo_thr_def vmm.defs thr.defs vmm_start_def container.defs vmm.defs ctr_start_def mat.defs
      mat_start_def base_start_def mboot.defs mboot_start_def base.defs cpu_ok_def lock_free_def NUM_CPUS_def spin_free_def)

lemma demo_fs_ok: "calm demo_fs" "cache_ok demo_fs" "contents demo_fs d sec = replicate 512 0"
proof -
  show "calm demo_fs" by (auto simp: calm_def demo_fs_fields sleeping_def demo_tcb_def)
  show ok: "cache_ok demo_fs" by (rule cache_okI) (auto simp: demo_fs_fields cached_def NBUF_def)
  show "contents demo_fs d sec = replicate 512 0"
    using contents_uncached [OF ok, of d sec] by (simp add: demo_fs_fields)
qed


end
