(* ===== verification/Recovery.thy ===== *)
theory Recovery
  imports Log BCache
begin

text \<open>
  Crash safety of the write-ahead log (\<open>kern/fs/log.c\<close>): the effect of writing the header, of
  installing the logged blocks and of recovery on the disk, over the store of blocks that the buffer
  cache implements.
\<close>

section \<open>Between two operations\<close>

text \<open>Nobody holds a buffer and two buffers can be recycled.\<close>

definition idle :: "'a fs_scheme \<Rightarrow> bool" where
  "idle s \<longleftrightarrow> calm s \<and> cache_ok s \<and> (\<forall>b < NBUF. \<not> busy (bufs s ! b)) \<and>
     (\<exists>r < NBUF. \<exists>r' < NBUF. r \<noteq> r' \<and> \<not> dirty (bufs s ! r) \<and> \<not> dirty (bufs s ! r'))"

text \<open>A block that is changed in the cache and not yet on the disk.\<close>

definition pinned :: "'a fs_scheme \<Rightarrow> u32 \<Rightarrow> u32 \<Rightarrow> bool" where
  "pinned s d sec \<longleftrightarrow> (\<exists>b < NBUF. cached (bufs s) d sec b \<and> dirty (bufs s ! b))"

lemma unpinned_contents:
  assumes "idle s" "\<not> pinned s d sec"
  shows "contents s d sec = disk s d sec"
proof (cases "\<exists>b < NBUF. cached (bufs s) d sec b \<and> valid (bufs s ! b)")
  case True
  then obtain b where b: "b < NBUF" "cached (bufs s) d sec b" "valid (bufs s ! b)" by blast
  have ok: "cache_ok s" using assms(1) by (simp add: idle_def)
  have "\<not> busy (bufs s ! b)" "\<not> dirty (bufs s ! b)" using assms b by (auto simp: idle_def pinned_def)
  with contents_cached [OF ok b(1,3,2)] cache_okD(8) [OF ok b(1,3)] b(2) show ?thesis by (simp add: cached_def)
qed (use assms in \<open>auto intro!: contents_uncached simp: idle_def\<close>)

lemma idle_gettable: "idle s \<Longrightarrow> gettable s d sec"
  by (auto simp: idle_def gettable_def recyclable_def flag_simps)

section \<open>Overwriting a block\<close>

lemma blockK_two: "blockK (a # b # ms) t = (case seqK a b t of Inl f \<Rightarrow> Inl f | Inr (_, t') \<Rightarrow> blockK ms t')"
  by (simp add: monad_defs split: sum.split prod.split)

lemma set_data_run: "b < length (bufs s) \<Longrightarrow> set_data b x s = Inr ((), s\<lparr>bufs := (bufs s)[b := (bufs s ! b)\<lparr>data := x\<rparr>]\<rparr>)"
  by (simp add: set_data_def upd_buf_def)

lemma overwrite_run:
  fixes s :: "'a fs_scheme"
  assumes "calm s" "cache_ok s" "addressable d sec" "gettable s d sec"
  obtains b bp bq where "bufcache_read d sec s = Inr (b, s\<lparr>bufs := (bufs s)[b := bp]\<rparr>)" "data bp = contents s d sec"
    "seqK (set_data b x) (bufcache_write b) (s\<lparr>bufs := (bufs s)[b := bp]\<rparr>) =
       Inr ((), s\<lparr>disk := put_sector d sec x (disk s), bufs := (bufs s)[b := bq]\<rparr>)"
    "b < NBUF" "\<not> busy (bufs s ! b)" "dev bq = d" "sector bq = sec" "data bq = x" "busy bq" "valid bq" "\<not> dirty bq"
    "cache_ok (s\<lparr>disk := put_sector d sec x (disk s), bufs := (bufs s)[b := bq]\<rparr>)"
    "contents (s\<lparr>disk := put_sector d sec x (disk s), bufs := (bufs s)[b := bq]\<rparr>) = put_sector d sec x (contents s)"
proof -
  obtain b bp where r: "bufcache_read d sec s = Inr (b, s\<lparr>bufs := (bufs s)[b := bp]\<rparr>)" "b < NBUF"
      "dev bp = d" "sector bp = sec" "busy bp" "valid bp" "data bp = contents s d sec" "\<not> busy (bufs s ! b)"
      "cache_ok (s\<lparr>bufs := (bufs s)[b := bp]\<rparr>)" "contents (s\<lparr>bufs := (bufs s)[b := bp]\<rparr>) = contents s"
    by (rule bufcache_read_run [OF assms])
  let ?s1 = "s\<lparr>bufs := (bufs s)[b := bp]\<rparr>"
  define t where "t = s\<lparr>bufs := (bufs s)[b := bp\<lparr>data := x\<rparr>]\<rparr>"
  have len: "b < length (bufs s)" using cache_okD(1) [OF assms(2)] r(2) by simp
  have h: "held ?s1 b" using r(2,5,6) len by (simp add: held_def)
  have t: "set_data b x ?s1 = Inr ((), t)" "cache_ok t" "held t b" "calm t" "disk t = disk s" "bufs t ! b = bp\<lparr>data := x\<rparr>"
      "contents t = put_sector d sec x (contents s)"
    using fill_run [OF r(9) h, of x] r(3,4,10) assms(1) len by (simp_all add: t_def set_data_run put_sector_def)
  obtain bq where w: "bufcache_write b t = Inr ((), t\<lparr>disk := put_sector d sec x (disk s), bufs := (bufs t)[b := bq]\<rparr>)"
      "dev bq = d" "sector bq = sec" "data bq = x" "busy bq" "valid bq" "\<not> dirty bq"
      "cache_ok (t\<lparr>disk := put_sector d sec x (disk s), bufs := (bufs t)[b := bq]\<rparr>)"
      "contents (t\<lparr>disk := put_sector d sec x (disk s), bufs := (bufs t)[b := bq]\<rparr>) = contents t"
    using bufcache_write_run [OF t(4,2,3), unfolded t(5,6)] r(3,4) by auto
  have "t\<lparr>disk := put_sector d sec x (disk s), bufs := (bufs t)[b := bq]\<rparr> = s\<lparr>disk := put_sector d sec x (disk s), bufs := (bufs s)[b := bq]\<rparr>"
    by (simp add: t_def)
  with r w t show thesis by (intro that [of b bp bq]) (simp_all add: seqK_def)
qed

section \<open>Releasing the last buffer\<close>

text \<open>What is dirty after an operation was dirty before.\<close>

definition no_new_dirt :: "'a fs_scheme \<Rightarrow> 'a fs_scheme \<Rightarrow> bool" where
  "no_new_dirt s s' \<longleftrightarrow> (\<forall>c < NBUF. dirty (bufs s' ! c) \<longrightarrow> dirty (bufs s ! c) \<and> dev (bufs s' ! c) = dev (bufs s ! c) \<and>
     sector (bufs s' ! c) = sector (bufs s ! c))"

lemma pinned_mono: "no_new_dirt s s' \<Longrightarrow> pinned s' e y \<Longrightarrow> pinned s e y"
  by (auto simp: no_new_dirt_def pinned_def cached_def)

lemma release_last_run:
  assumes "idle s" "calm t" "cache_ok t" "held t b" "no_new_dirt s t" "\<forall>c < NBUF. c \<noteq> b \<longrightarrow> \<not> busy (bufs t ! c)"
    "dirty (bufs t ! b) \<or> data (bufs t ! b) = disk t (dev (bufs t ! b)) (sector (bufs t ! b))"
  obtains s' where "bufcache_release b t = Inr ((), s')" "idle s'" "disk s' = disk t" "contents s' = contents t" "log s' = log t"
    "no_new_dirt s s'"
proof -
  obtain br where r: "bufcache_release b t = Inr ((), t\<lparr>bufs := (bufs t)[b := br], bcache_list := b # remove1 b (bcache_list t)\<rparr>)"
      "dev br = dev (bufs t ! b)" "sector br = sector (bufs t ! b)" "\<not> busy br" "dirty br = dirty (bufs t ! b)"
      "cache_ok (t\<lparr>bufs := (bufs t)[b := br], bcache_list := b # remove1 b (bcache_list t)\<rparr>)"
      "contents (t\<lparr>bufs := (bufs t)[b := br], bcache_list := b # remove1 b (bcache_list t)\<rparr>) = contents t"
    by (rule bufcache_release_run [OF assms(2-4,7)])
  define u where "u = t\<lparr>bufs := (bufs t)[b := br], bcache_list := b # remove1 b (bcache_list t)\<rparr>"
  have u: "calm u" "cache_ok u" "disk u = disk t" "contents u = contents t" "log u = log t" "bufs u = (bufs t)[b := br]"
    using assms(2) r(6,7) by (simp_all add: u_def)
  have b: "b < length (bufs t)" using assms(4) cache_okD(1) [OF assms(3)] by (simp add: held_def)
  have dirt: "no_new_dirt s u"
    using assms(5) r(2,3,5) b by (auto simp: no_new_dirt_def u(6) nth_list_update)
  moreover have "\<not> busy (bufs u ! c)" if "c < NBUF" for c
    using that assms(6) r(4) b by (simp add: u(6) nth_list_update)
  ultimately have "idle u" using assms(1) u(1,2) unfolding idle_def no_new_dirt_def by blast
  with u r(1) dirt show thesis by (intro that [of u]) (simp_all add: u_def)
qed

section \<open>Installing one block\<close>

lemma install_entry_run:
  assumes "idle s" "i < length (lh_sector (log s))"
    and src: "addressable (log_dev (log s)) (log_start (log s) + word_of_nat i + 1)"
    and dst: "addressable (log_dev (log s)) (lh_sector (log s) ! i)"
    and neq: "lh_sector (log s) ! i \<noteq> log_start (log s) + word_of_nat i + 1"
  defines "x \<equiv> contents s (log_dev (log s)) (log_start (log s) + word_of_nat i + 1)"
  obtains s' where "install_entry i s = Inr ((), s')" "idle s'" "log s' = log s"
    "disk s' = put_sector (log_dev (log s)) (lh_sector (log s) ! i) x (disk s)"
    "contents s' = put_sector (log_dev (log s)) (lh_sector (log s) ! i) x (contents s)"
    "\<And>e y. pinned s' e y \<Longrightarrow> pinned s e y"
proof -
  define d sec ls where "d = log_dev (log s)" and "sec = lh_sector (log s) ! i" and "ls = log_start (log s) + word_of_nat i + 1"
  note a = src dst neq x_def [folded d_def ls_def]
  have s: "calm s" "cache_ok s" "\<And>b. b < NBUF \<Longrightarrow> \<not> busy (bufs s ! b)" "length (bufs s) = NBUF"
    using assms(1) cache_okD(1) by (auto simp: idle_def)
  obtain lb lp where l: "bufcache_read d ls s = Inr (lb, s\<lparr>bufs := (bufs s)[lb := lp]\<rparr>)" "lb < NBUF"
      "dev lp = d" "sector lp = ls" "busy lp" "valid lp" "data lp = x" "\<not> busy (bufs s ! lb)"
      "cache_ok (s\<lparr>bufs := (bufs s)[lb := lp]\<rparr>)" "contents (s\<lparr>bufs := (bufs s)[lb := lp]\<rparr>) = contents s"
      "dirty lp \<longleftrightarrow> cached (bufs s) d ls lb \<and> dirty (bufs s ! lb)" "dirty (bufs s ! lb) \<longrightarrow> cached (bufs s) d ls lb"
      "\<not> dirty lp \<longrightarrow> x = disk s d ls"
    using bufcache_read_run [OF s(1,2) src idle_gettable [OF assms(1)]] unfolding d_def ls_def a(4) by metis
  define s1 where "s1 = s\<lparr>bufs := (bufs s)[lb := lp]\<rparr>"
  have s1: "calm s1" "cache_ok s1" "disk s1 = disk s" "contents s1 = contents s" "log s1 = log s" "bufs s1 = (bufs s)[lb := lp]"
    using s(1) l(9,10) by (simp_all add: s1_def)
  have "gettable s1 d sec"
  proof -
    obtain r where "r < NBUF" "r \<noteq> lb" "\<not> dirty (bufs s ! r)" using assms(1) unfolding idle_def by blast
    then have "recyclable (bufs s1) r" using s(3) by (simp add: s1(6) recyclable_def flag_simps)
    moreover have "\<not> busy (bufs s1 ! b)" if "b < NBUF" "cached (bufs s1) d sec b" for b
      using that s(3,4) l(4) neq by (cases "b = lb") (auto simp: s1(6) cached_def sec_def ls_def)
    ultimately show ?thesis unfolding gettable_def using \<open>r < NBUF\<close> by blast
  qed
  then obtain db dp dq where o: "bufcache_read d sec s1 = Inr (db, s1\<lparr>bufs := (bufs s1)[db := dp]\<rparr>)"
      "seqK (set_data db x) (bufcache_write db) (s1\<lparr>bufs := (bufs s1)[db := dp]\<rparr>) =
         Inr ((), s1\<lparr>disk := put_sector d sec x (disk s1), bufs := (bufs s1)[db := dq]\<rparr>)"
      "db < NBUF" "\<not> busy (bufs s1 ! db)" "dev dq = d" "sector dq = sec" "data dq = x" "busy dq" "valid dq" "\<not> dirty dq"
      "cache_ok (s1\<lparr>disk := put_sector d sec x (disk s1), bufs := (bufs s1)[db := dq]\<rparr>)"
      "contents (s1\<lparr>disk := put_sector d sec x (disk s1), bufs := (bufs s1)[db := dq]\<rparr>) = put_sector d sec x (contents s1)"
    by (rule overwrite_run [OF s1(1,2) dst [folded d_def sec_def]])
  define s2 where "s2 = s1\<lparr>disk := put_sector d sec x (disk s1), bufs := (bufs s1)[db := dq]\<rparr>"
  have ne: "db \<noteq> lb" using o(4) l(2,5) s(4) by (auto simp: s1(6))
  have s2: "calm s2" "cache_ok s2" "disk s2 = put_sector d sec x (disk s)" "contents s2 = put_sector d sec x (contents s)"
      "log s2 = log s" "bufs s2 = (bufs s)[lb := lp, db := dq]" "held s2 lb" "bufs s2 ! lb = lp"
    using s1 o(11,12) ne l(2,5,6) o(3) s(4) by (simp_all add: s2_def held_def)
  have "dirty (bufs s2 ! lb) \<or> data (bufs s2 ! lb) = disk s2 (dev (bufs s2 ! lb)) (sector (bufs s2 ! lb))"
    unfolding s2(3,8) using l(3,4,7,13) neq by (auto simp: put_sector_def sec_def ls_def)
  then obtain lq where lr: "bufcache_release lb s2 = Inr ((), s2\<lparr>bufs := (bufs s2)[lb := lq], bcache_list := lb # remove1 lb (bcache_list s2)\<rparr>)"
      "dev lq = d" "sector lq = ls" "\<not> busy lq" "dirty lq = dirty lp"
      "cache_ok (s2\<lparr>bufs := (bufs s2)[lb := lq], bcache_list := lb # remove1 lb (bcache_list s2)\<rparr>)"
      "contents (s2\<lparr>bufs := (bufs s2)[lb := lq], bcache_list := lb # remove1 lb (bcache_list s2)\<rparr>) = contents s2"
    using bufcache_release_run [OF s2(1,2,7)] unfolding s2(8) l(3,4) by metis
  define s3 where "s3 = s2\<lparr>bufs := (bufs s2)[lb := lq], bcache_list := lb # remove1 lb (bcache_list s2)\<rparr>"
  have s3: "calm s3" "cache_ok s3" "disk s3 = disk s2" "contents s3 = contents s2" "log s3 = log s"
      "bufs s3 = (bufs s)[lb := lq, db := dq]" "held s3 db" "bufs s3 ! db = dq"
    using s2(1,5,6) lr(6,7) ne o(3,8,9) l(2) s(4) by (simp_all add: s3_def held_def list_update_swap)
  have "dirty (bufs s3 ! db) \<or> data (bufs s3 ! db) = disk s3 (dev (bufs s3 ! db)) (sector (bufs s3 ! db))"
    unfolding s3(3,8) s2(3) using o(5-7) by (simp add: put_sector_def)
  moreover have "no_new_dirt s s3"
    using s(4) o(10) lr(2,3,5) l(2,11) o(3) by (auto simp: no_new_dirt_def s3(6) nth_list_update cached_def)
  moreover have "\<forall>c < NBUF. c \<noteq> db \<longrightarrow> \<not> busy (bufs s3 ! c)"
    using s(3,4) lr(4) l(2) by (simp add: s3(6) nth_list_update)
  ultimately obtain s4 where s4: "bufcache_release db s3 = Inr ((), s4)" "idle s4" "disk s4 = disk s3" "contents s4 = contents s3"
      "log s4 = log s3" "no_new_dirt s s4"
    using release_last_run [OF assms(1) s3(1,2,7)] by blast
  have "install_entry i s = blockK [set_data db x, bufcache_write db, bufcache_release lb, bufcache_release db] (s1\<lparr>bufs := (bufs s1)[db := dp]\<rparr>)"
    using l(1,7) o(1) assms(2) ne l(2) s(4)
    by (simp add: install_entry_def bindK_def readK_def get_lh_sector_def get_at_def get_buf_def d_def sec_def ls_def s1_def)
  also have "\<dots> = blockK [bufcache_release lb, bufcache_release db] s2"
    unfolding blockK_two o(2) by (simp add: s2_def)
  also have "\<dots> = Inr ((), s4)" using lr(1) s4(1) by (simp add: monad_defs s3_def)
  finally show thesis using s4 s3(3-5) s2(3,4) pinned_mono [OF s4(6)] that by (simp add: d_def sec_def)
qed

section \<open>Installing the logged blocks\<close>

definition log_block :: "log \<Rightarrow> nat \<Rightarrow> u32" where
  "log_block l i = log_start l + word_of_nat i + 1"

definition log_area :: "log \<Rightarrow> u32 set" where
  "log_area l = insert (log_start l) (log_block l ` {..<LOGSIZE})"

text \<open>A log in memory with \<open>n\<close> entries for sectors outside of the log.\<close>

definition log_ready :: "log \<Rightarrow> nat \<Rightarrow> bool" where
  "log_ready l n \<longleftrightarrow> length (lh_sector l) = LOGSIZE \<and> n \<le> LOGSIZE \<and> sint (lh_n l) = int n \<and>
     log_dev l < 2 \<and> unat (log_start l) + LOGSIZE < 2 ^ 28 \<and>
     (\<forall>i < n. lh_sector l ! i < 2 ^ 28 \<and> lh_sector l ! i \<notin> log_area l)"

primrec installed :: "u32 \<Rightarrow> (nat \<Rightarrow> u32) \<Rightarrow> (nat \<Rightarrow> bytes) \<Rightarrow> nat \<Rightarrow> (u32 \<Rightarrow> u32 \<Rightarrow> bytes) \<Rightarrow> (u32 \<Rightarrow> u32 \<Rightarrow> bytes)" where
  "installed d secs L 0 D = D"
| "installed d secs L (Suc k) D = put_sector d (secs k) (L k) (installed d secs L k D)"

lemma installed_other: "(\<forall>i < k. secs i \<noteq> x) \<Longrightarrow> installed d secs L k D e x = D e x"
  by (induction k) (auto simp: put_sector_def)

text \<open>Installing does not depend on what was in the sectors it writes.\<close>

lemma installed_again:
  "(\<exists>i < k. e = d \<and> x = secs i) \<or> D e x = D' e x \<Longrightarrow> installed d secs L k D e x = installed d secs L k D' e x"
  by (induction k) (auto simp: put_sector_def less_Suc_eq)

lemma log_block_unat:
  assumes "log_ready l n" "i < LOGSIZE"
  shows "unat (log_block l i) = unat (log_start l) + i + 1"
proof -
  have "unat (word_of_nat i :: u32) = i" using assms(2) by (simp add: LOGSIZE_def unat_of_nat)
  with assms show ?thesis by (simp add: log_block_def log_ready_def unat_word_ariths LOGSIZE_def)
qed

lemma log_ready_address:
  assumes "log_ready l n"
  shows "addressable (log_dev l) (log_start l)"
    "i < LOGSIZE \<Longrightarrow> addressable (log_dev l) (log_block l i)" "i < n \<Longrightarrow> addressable (log_dev l) (lh_sector l ! i)"
    "i < LOGSIZE \<Longrightarrow> log_block l i \<noteq> log_start l"
    "i < n \<Longrightarrow> j < LOGSIZE \<Longrightarrow> lh_sector l ! i \<noteq> log_block l j" "i < n \<Longrightarrow> lh_sector l ! i \<noteq> log_start l"
proof -
  show "addressable (log_dev l) (log_start l)" "i < n \<Longrightarrow> addressable (log_dev l) (lh_sector l ! i)"
      "i < n \<Longrightarrow> j < LOGSIZE \<Longrightarrow> lh_sector l ! i \<noteq> log_block l j" "i < n \<Longrightarrow> lh_sector l ! i \<noteq> log_start l"
    using assms by (auto simp: log_ready_def addressable_def log_area_def word_less_nat_alt)
  assume i: "i < LOGSIZE"
  note u = log_block_unat [OF assms i]
  show "addressable (log_dev l) (log_block l i)"
    using assms i u by (simp add: log_ready_def addressable_def word_less_nat_alt)
  show "log_block l i \<noteq> log_start l" using u by auto
qed

lemma entries_ready: "log_ready l n \<Longrightarrow> entries (lh_n l) = [0..<n]"
  by (simp add: entries_def log_ready_def)

lemma install_entries_run:
  assumes "idle s" "log_ready (log s) n" "k \<le> n"
  defines "d \<equiv> log_dev (log s)" and "L \<equiv> \<lambda>i. contents s (log_dev (log s)) (log_block (log s) i)"
  shows "\<exists>s'. forK [0..<k] install_entry s = Inr ((), s') \<and> idle s' \<and> log s' = log s \<and>
    disk s' = installed d (nth (lh_sector (log s))) L k (disk s) \<and>
    contents s' = installed d (nth (lh_sector (log s))) L k (contents s) \<and> (\<forall>e y. pinned s' e y \<longrightarrow> pinned s e y)"
  using assms(3)
proof (induction k)
  case (Suc k)
  then obtain t where t: "forK [0..<k] install_entry s = Inr ((), t)" "idle t" "log t = log s"
      "disk t = installed d (nth (lh_sector (log s))) L k (disk s)"
      "contents t = installed d (nth (lh_sector (log s))) L k (contents s)" "\<forall>e y. pinned t e y \<longrightarrow> pinned s e y"
    by auto
  have k: "k < LOGSIZE" "k < length (lh_sector (log s))" using Suc.prems assms(2) by (auto simp: log_ready_def)
  note a = log_ready_address [OF assms(2)]
  have L: "contents t d (log_block (log s) k) = L k"
    unfolding t(5) using a(5) [OF _ k(1)] Suc.prems by (subst installed_other) (auto simp: L_def d_def)
  obtain s' where "install_entry k t = Inr ((), s')" "idle s'" "log s' = log s"
      "disk s' = put_sector d (lh_sector (log s) ! k) (L k) (disk t)"
      "contents s' = put_sector d (lh_sector (log s) ! k) (L k) (contents t)" "\<And>e y. pinned s' e y \<Longrightarrow> pinned t e y"
    by (rule install_entry_run [OF t(2), of k, unfolded t(3), folded log_block_def, folded d_def, unfolded L])
      (use k a(2) [OF k(1)] a(3,5) [of k] Suc.prems in \<open>auto simp: d_def\<close>)
  with t show ?case by (auto simp: forK_append seqK_def monad_defs)
qed (use assms(1) in \<open>simp add: returnK_def\<close>)

section \<open>The header block\<close>

lemma length_put_bytes [simp]: "i + length x \<le> length d \<Longrightarrow> length (put_bytes i x d) = length d"
  by (simp add: put_bytes_def)

lemma nth_put_bytes:
  "i + length x \<le> length d \<Longrightarrow> put_bytes i x d ! j = (if i \<le> j \<and> j < i + length x then x ! (j - i) else d ! j)"
  by (auto simp: put_bytes_def nth_append)

lemma length_bytes32 [simp]: "length (bytes32 w) = 4"
  by (simp add: bytes32_def)

lemma le32_bytes32:
  "ucast (ucast w :: u8) OR push_bit 8 (ucast (ucast (drop_bit 8 w) :: u8)) OR push_bit 16 (ucast (ucast (drop_bit 16 w) :: u8)) OR
     push_bit 24 (ucast (ucast (drop_bit 24 w) :: u8)) = (w :: u32)"
proof (intro bit_word_eqI iffI, goal_cases)
  case (1 n)
  then show ?case by (auto simp: bit_simps)
next
  case (2 n)
  consider "n < 8" | "8 \<le> n" "n < 16" | "16 \<le> n" "n < 24" | "24 \<le> n" by linarith
  then show ?case using 2 by cases (auto simp: bit_simps)
qed

lemma le32_put_bytes:
  assumes "i + 4 \<le> length d"
  shows "le32 (put_bytes i (bytes32 w) d) i = w"
    "j + 4 \<le> i \<or> i + 4 \<le> j \<Longrightarrow> le32 (put_bytes i (bytes32 w) d) j = le32 d j"
proof -
  show "le32 (put_bytes i (bytes32 w) d) i = w"
    using le32_bytes32 [of w] assms by (simp add: le32_def nth_put_bytes) (simp add: bytes32_def)
  show "le32 (put_bytes i (bytes32 w) d) j = le32 d j" if "j + 4 \<le> i \<or> i + 4 \<le> j"
    using that assms by (auto simp: le32_def nth_put_bytes)
qed

primrec head_sectors :: "log \<Rightarrow> nat \<Rightarrow> bytes \<Rightarrow> bytes" where
  "head_sectors l 0 x = x"
| "head_sectors l (Suc k) x = put_bytes (4 + 4 * k) (bytes32 (lh_sector l ! k)) (head_sectors l k x)"

definition head_block :: "log \<Rightarrow> nat \<Rightarrow> bytes \<Rightarrow> bytes" where
  "head_block l n x = head_sectors l n (put_bytes 0 (bytes32 (lh_n l)) x)"

lemma head_sectors_read:
  assumes "length x = 512" "n \<le> LOGSIZE"
  shows "length (head_sectors l n x) = 512" "le32 (head_sectors l n x) 0 = le32 x 0"
    "i < n \<Longrightarrow> le32 (head_sectors l n x) (4 + 4 * i) = lh_sector l ! i"
proof -
  have len: "length (head_sectors l k x) = 512" if "k \<le> LOGSIZE" for k
    using that assms(1) by (induction k) (auto simp: LOGSIZE_def)
  then show "length (head_sectors l n x) = 512" using assms(2) by simp
  have "le32 (head_sectors l k x) 0 = le32 x 0" if "k \<le> LOGSIZE" for k
    using that len by (induction k) (auto simp: le32_put_bytes LOGSIZE_def)
  then show "le32 (head_sectors l n x) 0 = le32 x 0" using assms(2) by simp
  have "i < k \<longrightarrow> le32 (head_sectors l k x) (4 + 4 * i) = lh_sector l ! i" if "k \<le> LOGSIZE" for k
    using that
  proof (induction k)
    case (Suc k)
    then have "length (head_sectors l k x) = 512" "4 + 4 * k + 4 \<le> 512" using len by (simp_all add: LOGSIZE_def)
    with Suc show ?case by (cases "i = k") (auto simp: le32_put_bytes less_Suc_eq)
  qed simp
  then show "i < n \<Longrightarrow> le32 (head_sectors l n x) (4 + 4 * i) = lh_sector l ! i" using assms(2) by simp
qed

lemma head_block_read:
  assumes "length x = 512" "n \<le> LOGSIZE"
  shows "length (head_block l n x) = 512" "le32 (head_block l n x) 0 = lh_n l"
    "i < n \<Longrightarrow> le32 (head_block l n x) (4 + 4 * i) = lh_sector l ! i"
  using head_sectors_read [of "put_bytes 0 (bytes32 (lh_n l)) x"] assms by (simp_all add: head_block_def le32_put_bytes)

lemma head_sectors_loop:
  assumes "b < length (bufs s)" "k \<le> length (lh_sector (log s))"
  shows "forK [0..<k] (\<lambda>i. bindK (get_lh_sector i) (\<lambda>sec.
       upd_buf b (\<lambda>b. b\<lparr>data := put_bytes (4 + 4 * i) (bytes32 sec) (data b)\<rparr>))) s = set_data b (head_sectors (log s) k (data (bufs s ! b))) s"
  using assms(2)
proof (induction k)
  case (Suc k)
  with assms(1) show ?case
    by (simp add: forK_append monad_defs get_lh_sector_def get_at_def set_data_run upd_buf_def)
qed (use assms(1) in \<open>simp add: returnK_def set_data_run\<close>)

lemma write_head_run:
  assumes "idle s" "log_ready (log s) n"
  defines "x \<equiv> head_block (log s) n (contents s (log_dev (log s)) (log_start (log s)))"
  obtains s' where "write_head s = Inr ((), s')" "idle s'" "log s' = log s"
    "disk s' = put_sector (log_dev (log s)) (log_start (log s)) x (disk s)"
    "contents s' = put_sector (log_dev (log s)) (log_start (log s)) x (contents s)"
    "\<And>e y. pinned s' e y \<Longrightarrow> pinned s e y"
proof -
  define d st where "d = log_dev (log s)" and "st = log_start (log s)"
  have s: "calm s" "cache_ok s" "\<And>b. b < NBUF \<Longrightarrow> \<not> busy (bufs s ! b)" "length (bufs s) = NBUF"
    using assms(1) cache_okD(1) by (auto simp: idle_def)
  obtain b bp bq where o: "bufcache_read d st s = Inr (b, s\<lparr>bufs := (bufs s)[b := bp]\<rparr>)" "data bp = contents s d st"
      "seqK (set_data b x) (bufcache_write b) (s\<lparr>bufs := (bufs s)[b := bp]\<rparr>) =
         Inr ((), s\<lparr>disk := put_sector d st x (disk s), bufs := (bufs s)[b := bq]\<rparr>)"
      "b < NBUF" "\<not> busy (bufs s ! b)" "dev bq = d" "sector bq = st" "data bq = x" "busy bq" "valid bq" "\<not> dirty bq"
      "cache_ok (s\<lparr>disk := put_sector d st x (disk s), bufs := (bufs s)[b := bq]\<rparr>)"
      "contents (s\<lparr>disk := put_sector d st x (disk s), bufs := (bufs s)[b := bq]\<rparr>) = put_sector d st x (contents s)"
    by (rule overwrite_run [OF s(1,2) log_ready_address(1) [OF assms(2), folded d_def st_def] idle_gettable [OF assms(1)]])
  define s1 where "s1 = s\<lparr>disk := put_sector d st x (disk s), bufs := (bufs s)[b := bq]\<rparr>"
  have s1: "calm s1" "cache_ok s1" "held s1 b" "disk s1 = put_sector d st x (disk s)" "bufs s1 ! b = bq" "log s1 = log s"
      "contents s1 = put_sector d st x (contents s)" "bufs s1 = (bufs s)[b := bq]"
    using o s(1,4) by (simp_all add: s1_def held_def)
  have "dirty (bufs s1 ! b) \<or> data (bufs s1 ! b) = disk s1 (dev (bufs s1 ! b)) (sector (bufs s1 ! b))"
    unfolding s1(4,5) using o(6-8) by (simp add: put_sector_def)
  moreover have "no_new_dirt s s1" using s(4) o(4,11) by (auto simp: no_new_dirt_def s1(8) nth_list_update)
  moreover have "\<forall>c < NBUF. c \<noteq> b \<longrightarrow> \<not> busy (bufs s1 ! c)" using s(3,4) by (simp add: s1(8))
  ultimately obtain s2 where s2: "bufcache_release b s1 = Inr ((), s2)" "idle s2" "disk s2 = disk s1" "contents s2 = contents s1"
      "log s2 = log s1" "no_new_dirt s s2"
    using release_last_run [OF assms(1) s1(1-3)] by blast
  have fill: "seqK (upd_buf b (\<lambda>b. b\<lparr>data := put_bytes 0 (bytes32 (lh_n (log s))) (data b)\<rparr>))
      (forK [0..<n] (\<lambda>i. bindK (get_lh_sector i) (\<lambda>sec. upd_buf b (\<lambda>b. b\<lparr>data := put_bytes (4 + 4 * i) (bytes32 sec) (data b)\<rparr>))))
      (s\<lparr>bufs := (bufs s)[b := bp]\<rparr>) = set_data b x (s\<lparr>bufs := (bufs s)[b := bp]\<rparr>)"
    using o(2,4) s(4) assms(2) by (simp add: seqK_def upd_buf_def head_sectors_loop log_ready_def set_data_run x_def head_block_def d_def st_def)
  have "write_head s = blockK [upd_buf b (\<lambda>b. b\<lparr>data := put_bytes 0 (bytes32 (lh_n (log s))) (data b)\<rparr>),
      forK [0..<n] (\<lambda>i. bindK (get_lh_sector i) (\<lambda>sec. upd_buf b (\<lambda>b. b\<lparr>data := put_bytes (4 + 4 * i) (bytes32 sec) (data b)\<rparr>))),
      bufcache_write b, bufcache_release b] (s\<lparr>bufs := (bufs s)[b := bp]\<rparr>)"
    using o(1) entries_ready [OF assms(2)] by (simp add: write_head_def bindK_def readK_def d_def st_def)
  also have "\<dots> = Inr ((), s2)"
    unfolding blockK_two fill using o(3,4) s(4) s2(1) by (simp add: set_data_run seqK_def returnK_def s1_def)
  finally show thesis using s2 s1(4,6,7) pinned_mono [OF s2(6)] that by (simp add: d_def st_def)
qed

lemma log_fields [simp]:
  "calm (s\<lparr>log := l\<rparr>) = calm s" "cache_ok (s\<lparr>log := l\<rparr>) = cache_ok s" "contents (s\<lparr>log := l\<rparr>) = contents s"
  "held (s\<lparr>log := l\<rparr>) b = held s b" "idle (s\<lparr>log := l\<rparr>) = idle s" "no_new_dirt (s\<lparr>log := l\<rparr>) u = no_new_dirt s u"
  "no_new_dirt s (u\<lparr>log := l\<rparr>) = no_new_dirt s u" "pinned (s\<lparr>log := l\<rparr>) d sec = pinned s d sec"
proof -
  show c: "calm (s\<lparr>log := l\<rparr>) = calm s" by (simp add: calm_def cpu_ok_def this_cpu_def sleeping_def)
  show k: "cache_ok (s\<lparr>log := l\<rparr>) = cache_ok s" by (simp only: cache_ok_def fs.simps) simp
  show "contents (s\<lparr>log := l\<rparr>) = contents s" by (simp add: contents_def fun_eq_iff split: option.split)
  show "held (s\<lparr>log := l\<rparr>) b = held s b" by (simp add: held_def)
  show "idle (s\<lparr>log := l\<rparr>) = idle s" by (simp add: idle_def c k)
  show "no_new_dirt (s\<lparr>log := l\<rparr>) u = no_new_dirt s u" "no_new_dirt s (u\<lparr>log := l\<rparr>) = no_new_dirt s u"
    by (simp_all add: no_new_dirt_def)
  show "pinned (s\<lparr>log := l\<rparr>) d sec = pinned s d sec" by (simp add: pinned_def)
qed

primrec head_load :: "bytes \<Rightarrow> nat \<Rightarrow> u32 list \<Rightarrow> u32 list" where
  "head_load x 0 S = S"
| "head_load x (Suc k) S = (head_load x k S)[k := le32 x (4 + 4 * k)]"

lemma head_load_nth:
  "length (head_load x k S) = length S"
  "k \<le> length S \<Longrightarrow> i < k \<Longrightarrow> head_load x k S ! i = le32 x (4 + 4 * i)"
proof -
  show len: "length (head_load x k S) = length S" for k by (induction k) simp_all
  show "k \<le> length S \<Longrightarrow> i < k \<Longrightarrow> head_load x k S ! i = le32 x (4 + 4 * i)"
    by (induction k) (auto simp: nth_list_update len less_Suc_eq)
qed

lemma head_load_loop:
  "k \<le> LOGSIZE \<Longrightarrow> forK [0..<k] (\<lambda>i. set_lh_sector i (le32 x (4 + 4 * i))) s =
     Inr ((), s\<lparr>log := (log s)\<lparr>lh_sector := head_load x k (lh_sector (log s))\<rparr>\<rparr>)"
  by (induction k) (simp_all add: forK_append monad_defs set_lh_sector_def upd_log_def)

lemma read_head_run:
  assumes "idle s" "addressable (log_dev (log s)) (log_start (log s))" "n \<le> LOGSIZE"
    and n: "sint (le32 (contents s (log_dev (log s)) (log_start (log s))) 0) = int n"
  defines "x \<equiv> contents s (log_dev (log s)) (log_start (log s))"
  obtains s' where "read_head s = Inr ((), s')" "idle s'" "disk s' = disk s" "contents s' = contents s"
    "log s' = (log s)\<lparr>lh_n := le32 x 0, lh_sector := head_load x n (lh_sector (log s))\<rparr>" "no_new_dirt s s'"
proof -
  define d st where "d = log_dev (log s)" and "st = log_start (log s)"
  have s: "calm s" "cache_ok s" "\<And>b. b < NBUF \<Longrightarrow> \<not> busy (bufs s ! b)" "length (bufs s) = NBUF"
    using assms(1) cache_okD(1) by (auto simp: idle_def)
  obtain b bp where r: "bufcache_read d st s = Inr (b, s\<lparr>bufs := (bufs s)[b := bp]\<rparr>)" "b < NBUF"
      "dev bp = d" "sector bp = st" "busy bp" "valid bp" "data bp = contents s d st" "\<not> busy (bufs s ! b)"
      "cache_ok (s\<lparr>bufs := (bufs s)[b := bp]\<rparr>)" "contents (s\<lparr>bufs := (bufs s)[b := bp]\<rparr>) = contents s"
      "dirty bp \<longleftrightarrow> cached (bufs s) d st b \<and> dirty (bufs s ! b)" "dirty (bufs s ! b) \<longrightarrow> cached (bufs s) d st b"
      "\<not> dirty bp \<longrightarrow> contents s d st = disk s d st"
    by (rule bufcache_read_run [OF s(1,2) assms(2) [folded d_def st_def] idle_gettable [OF assms(1)]])
  define l where "l = (log s)\<lparr>lh_n := le32 x 0, lh_sector := head_load x n (lh_sector (log s))\<rparr>"
  define t where "t = s\<lparr>bufs := (bufs s)[b := bp], log := l\<rparr>"
  have t: "calm t" "cache_ok t" "held t b" "disk t = disk s" "contents t = contents s" "log t = l" "bufs t = (bufs s)[b := bp]"
    using r s(1,4) by (simp_all add: t_def, simp add: held_def)
  have "no_new_dirt s t" using r(2-4,11) s(4) by (auto simp: no_new_dirt_def t(7) nth_list_update cached_def)
  moreover have "\<forall>c < NBUF. c \<noteq> b \<longrightarrow> \<not> busy (bufs t ! c)" using s(3) by (simp add: t(7))
  moreover have "dirty (bufs t ! b) \<or> data (bufs t ! b) = disk t (dev (bufs t ! b)) (sector (bufs t ! b))"
    using r(2-4,7,13) s(4) by (simp add: t(4,7)) blast
  ultimately obtain s' where s': "bufcache_release b t = Inr ((), s')" "idle s'" "disk s' = disk t" "contents s' = contents t"
      "log s' = log t" "no_new_dirt s s'"
    using release_last_run [OF assms(1) t(1-3)] by blast
  have "read_head s = seqK (bufcache_release b) (returnK ()) t"
    using r(1,2,7) s(4) n assms(3)
    by (simp add: read_head_def monad_defs get_buf_def get_at_def entries_def upd_log_def d_def st_def head_load_loop x_def t_def l_def)
  with s' t show thesis by (intro that [of s']) (simp_all add: l_def seqK_def returnK_def)
qed

section \<open>Commit and recovery\<close>

lemma installed_cong:
  "(\<And>i. i < k \<Longrightarrow> secs i = secs' i \<and> L i = L' i) \<Longrightarrow> installed d secs L k D = installed d secs' L' k D"
  by (induction k) (simp_all add: put_sector_def)

lemma put_bytes_le32: "4 \<le> length x \<Longrightarrow> put_bytes 0 (bytes32 (le32 x 0)) x = x"
proof -
  assume "4 \<le> length x"
  then obtain a b c d y where x: "x = a # b # c # d # y" by (auto simp: numeral_eq_Suc Suc_le_length_iff)
  have "bytes32 (le32 x 0) = [a, b, c, d]"
    by (auto simp: x bytes32_def le32_def bit_eq_iff bit_simps intro!: bit_word_eqI dest: bit_imp_le_length)
  then show ?thesis by (simp add: put_bytes_def x)
qed

text \<open>The second half of a commit, which recovery repeats: install, then clear the header.\<close>

lemma install_clear_run:
  assumes "idle s" "log_ready (log s) n"
  defines "d \<equiv> log_dev (log s)" and "st \<equiv> log_start (log s)"
  obtains s' where "blockK [install_trans, upd_log (\<lambda>l. l\<lparr>lh_n := 0\<rparr>), write_head] s = Inr ((), s')" "idle s'"
    "disk s' = put_sector d st (put_bytes 0 (bytes32 0) (contents s d st))
       (installed d (nth (lh_sector (log s))) (\<lambda>i. contents s d (log_block (log s) i)) n (disk s))"
    "log s' = (log s)\<lparr>lh_n := 0\<rparr>"
proof -
  obtain t where t: "forK [0..<n] install_entry s = Inr ((), t)" "idle t" "log t = log s"
      "disk t = installed d (nth (lh_sector (log s))) (\<lambda>i. contents s d (log_block (log s) i)) n (disk s)"
      "contents t = installed d (nth (lh_sector (log s))) (\<lambda>i. contents s d (log_block (log s) i)) n (contents s)"
    using install_entries_run [OF assms(1,2) order_refl] unfolding d_def by blast
  define u where "u = t\<lparr>log := (log s)\<lparr>lh_n := 0\<rparr>\<rparr>"
  have u: "idle u" "log_ready (log u) 0" using t(2) assms(2) by (simp_all add: u_def log_ready_def)
  obtain s' where s': "write_head u = Inr ((), s')" "idle s'" "log s' = log u"
      "disk s' = put_sector (log_dev (log u)) (log_start (log u)) (head_block (log u) 0 (contents u (log_dev (log u)) (log_start (log u)))) (disk u)"
    by (rule write_head_run [OF u])
  have "contents u d st = contents s d st"
    using log_ready_address(6) [OF assms(2)] by (simp add: u_def t(5) installed_other st_def)
  then have "disk s' = put_sector d st (put_bytes 0 (bytes32 0) (contents s d st)) (disk t)"
    using s'(4) by (simp add: u_def head_block_def d_def st_def)
  moreover have "blockK [install_trans, upd_log (\<lambda>l. l\<lparr>lh_n := 0\<rparr>), write_head] s = Inr ((), s')"
    using t(1,3) s'(1) entries_ready [OF assms(2)] by (simp add: install_trans_def monad_defs upd_log_def u_def)
  ultimately show thesis using s'(2,3) t(4) by (intro that [of s']) (simp_all add: u_def)
qed

text \<open>The machine has started again: the cache is empty, and the log knows only where it is.\<close>

definition rebooted :: "log \<Rightarrow> (u32 \<Rightarrow> u32 \<Rightarrow> bytes) \<Rightarrow> 'a fs_scheme \<Rightarrow> bool" where
  "rebooted l D t \<longleftrightarrow> idle t \<and> (\<forall>b < NBUF. \<not> dirty (bufs t ! b)) \<and> disk t = D \<and>
     log_dev (log t) = log_dev l \<and> log_start (log t) = log_start l \<and> length (lh_sector (log t)) = LOGSIZE"

definition recovers :: "'a fs_scheme \<Rightarrow> (u32 \<Rightarrow> u32 \<Rightarrow> bytes) \<Rightarrow> bool" where
  "recovers t D \<longleftrightarrow> (\<exists>t'. recover_from_log t = Inr ((), t') \<and> disk t' = D)"

lemma recover_run:
  assumes "rebooted l D t" "log_ready l n" "le32 (D (log_dev l) (log_start l)) 0 = lh_n l"
    "\<And>i. i < n \<Longrightarrow> le32 (D (log_dev l) (log_start l)) (4 + 4 * i) = lh_sector l ! i"
  shows "recovers t (put_sector (log_dev l) (log_start l) (put_bytes 0 (bytes32 0) (D (log_dev l) (log_start l)))
    (installed (log_dev l) (nth (lh_sector l)) (\<lambda>i. D (log_dev l) (log_block l i)) n D))"
proof -
  have t: "idle t" "disk t = D" "log_dev (log t) = log_dev l" "log_start (log t) = log_start l" "length (lh_sector (log t)) = LOGSIZE"
      "\<not> pinned t e y" for e y
    using assms(1) by (auto simp: rebooted_def pinned_def)
  have c: "contents t = D" using unpinned_contents [OF t(1) t(6)] t(2) by (simp add: fun_eq_iff)
  have n: "n \<le> LOGSIZE" "sint (lh_n l) = int n" using assms(2) by (simp_all add: log_ready_def)
  obtain u where u: "read_head t = Inr ((), u)" "idle u" "disk u = D" "contents u = D"
      "log u = (log t)\<lparr>lh_n := lh_n l, lh_sector := head_load (D (log_dev l) (log_start l)) n (lh_sector (log t))\<rparr>"
    by (rule read_head_run [OF t(1) _ n(1), unfolded t(2,3,4) c assms(3)]) (use log_ready_address(1) [OF assms(2)] n in auto)
  have sec: "lh_sector (log u) ! i = lh_sector l ! i" if "i < n" for i
    using that n(1) t(5) assms(4) by (simp add: u(5) head_load_nth)
  have lb: "log_block (log u) i = log_block l i" "log_area (log u) = log_area l" for i
    by (simp_all add: u(5) log_block_def log_area_def t(4) image_def)
  have "log_ready (log u) n"
    using assms(2) sec lb(2) t(3-5) by (simp add: log_ready_def u(5) head_load_nth)
  then obtain s' where s': "blockK [install_trans, upd_log (\<lambda>l. l\<lparr>lh_n := 0\<rparr>), write_head] u = Inr ((), s')"
      "disk s' = put_sector (log_dev (log u)) (log_start (log u)) (put_bytes 0 (bytes32 0) (D (log_dev (log u)) (log_start (log u))))
         (installed (log_dev (log u)) (nth (lh_sector (log u))) (\<lambda>i. D (log_dev (log u)) (log_block (log u) i)) n D)"
    using install_clear_run [OF u(2)] unfolding u(3,4) by blast
  have "installed (log_dev l) (nth (lh_sector (log u))) (\<lambda>i. D (log_dev l) (log_block (log u) i)) n D =
      installed (log_dev l) (nth (lh_sector l)) (\<lambda>i. D (log_dev l) (log_block l i)) n D"
    by (rule installed_cong) (simp add: sec lb)
  with s' u(1) show ?thesis by (simp add: recovers_def recover_from_log_def seqK_def u(5) t(3,4))
qed

text \<open>A transaction is complete: the log blocks are on the disk, the header there is still empty.\<close>

definition commit_ready :: "'a fs_scheme \<Rightarrow> nat \<Rightarrow> bool" where
  "commit_ready s n \<longleftrightarrow> idle s \<and> log_ready (log s) n \<and> 0 < n \<and>
     (\<forall>sec \<in> log_area (log s). \<not> pinned s (log_dev (log s)) sec) \<and>
     length (disk s (log_dev (log s)) (log_start (log s))) = 512 \<and>
     le32 (disk s (log_dev (log s)) (log_start (log s))) 0 = 0"

definition committed_head :: "'a fs_scheme \<Rightarrow> nat \<Rightarrow> bytes" where
  "committed_head s n = head_block (log s) n (disk s (log_dev (log s)) (log_start (log s)))"

definition logged :: "'a fs_scheme \<Rightarrow> nat \<Rightarrow> bytes" where
  "logged s i = disk s (log_dev (log s)) (log_block (log s) i)"

lemma commit_prefix_run:
  assumes "commit_ready s n" "k \<le> n"
  defines "d \<equiv> log_dev (log s)" and "st \<equiv> log_start (log s)"
  obtains s' where "seqK write_head (forK [0..<k] install_entry) s = Inr ((), s')" "idle s'" "log s' = log s"
    "disk s' = installed d (nth (lh_sector (log s))) (logged s) k (put_sector d st (committed_head s n) (disk s))"
    "\<And>sec. sec \<in> log_area (log s) \<Longrightarrow> contents s' d sec = disk s' d sec"
proof -
  have s: "idle s" "log_ready (log s) n" "contents s d sec = disk s d sec" if "sec \<in> log_area (log s)" for sec
    using assms(1) that unpinned_contents [of s d sec] by (auto simp: commit_ready_def d_def)
  have lb: "log_block (log s) i \<in> log_area (log s)" if "i < LOGSIZE" for i using that by (simp add: log_area_def)
  have st: "st \<in> log_area (log s)" by (simp add: log_area_def st_def)
  obtain t where t: "write_head s = Inr ((), t)" "idle t" "log t = log s"
      "disk t = put_sector d st (committed_head s n) (disk s)" "contents t = put_sector d st (committed_head s n) (contents s)"
      "\<And>e y. pinned t e y \<Longrightarrow> pinned s e y"
    by (rule write_head_run [OF s(1,2) [OF st]]) (use s(3) [OF st] in \<open>simp add: committed_head_def d_def st_def\<close>)
  have "log_ready (log t) n" using s(2) [OF st] t(3) by simp
  from install_entries_run [OF t(2) this assms(2)] obtain s' where s': "forK [0..<k] install_entry t = Inr ((), s')" "idle s'" "log s' = log s"
      "disk s' = installed d (nth (lh_sector (log s))) (\<lambda>i. contents t d (log_block (log s) i)) k (disk t)"
      "\<And>e y. pinned s' e y \<Longrightarrow> pinned t e y"
    by (auto simp: t(3) d_def)
  have "contents t d (log_block (log s) i) = logged s i" if "i < k" for i
  proof -
    have "i < LOGSIZE" using that assms(1,2) by (auto simp: commit_ready_def log_ready_def)
    then show ?thesis
      using s(3) [OF lb] log_ready_address(4) [OF s(2) [OF st]] by (simp add: t(5) put_sector_def logged_def d_def st_def)
  qed
  then have "disk s' = installed d (nth (lh_sector (log s))) (logged s) k (disk t)"
    unfolding s'(4) by (intro installed_cong) simp
  moreover have "contents s' d sec = disk s' d sec" if "sec \<in> log_area (log s)" for sec
    using that assms(1) s'(5) t(6) by (intro unpinned_contents [OF s'(2)]) (auto simp: commit_ready_def d_def)
  ultimately show thesis using t(1,4) s' by (intro that [of s']) (simp_all add: seqK_def)
qed

definition committed_disk :: "'a fs_scheme \<Rightarrow> nat \<Rightarrow> u32 \<Rightarrow> u32 \<Rightarrow> bytes" where
  "committed_disk s n = (let d = log_dev (log s); st = log_start (log s) in
     put_sector d st (put_bytes 0 (bytes32 0) (committed_head s n))
       (installed d (nth (lh_sector (log s))) (logged s) n (disk s)))"

lemma put_sector_twice: "put_sector d sec x (put_sector d sec y D) = put_sector d sec x D"
  by (simp add: put_sector_def)

lemma put_installed:
  "(\<forall>i < k. secs i \<noteq> sec) \<Longrightarrow> put_sector d sec x (installed d secs L k (put_sector d sec y D)) = put_sector d sec x (installed d secs L k D)"
  by (induction k) (auto simp: put_sector_def fun_eq_iff split: if_splits)

text \<open>Recovery completes a transaction that was interrupted after its header had been written.\<close>

lemma recover_prefix:
  assumes "commit_ready s n" "k \<le> n"
    and t: "rebooted (log s) (installed (log_dev (log s)) (nth (lh_sector (log s))) (logged s) k
      (put_sector (log_dev (log s)) (log_start (log s)) (committed_head s n) (disk s))) t"
  shows "recovers t (committed_disk s n)"
proof -
  define d st l where "d = log_dev (log s)" and "st = log_start (log s)" and "l = log s"
  let ?E = "put_sector d st (committed_head s n) (disk s)"
  let ?D = "installed d (nth (lh_sector l)) (logged s) k ?E"
  have r: "log_ready l n" "length (disk s d st) = 512" using assms(1) by (simp_all add: commit_ready_def l_def d_def st_def)
  note a = log_ready_address [OF r(1)]
  have n: "n \<le> LOGSIZE" using r(1) by (simp add: log_ready_def)
  have hd: "?D d st = committed_head s n"
    using a(6) assms(2) by (subst installed_other) (auto simp: put_sector_def st_def l_def)
  have lg: "?D d (log_block l i) = logged s i" if "i < n" for i
    using that n a(5) a(4) [of i] assms(2)
    by (subst installed_other) (auto simp: put_sector_def logged_def st_def l_def d_def)
  have 1: "recovers t (put_sector d st (put_bytes 0 (bytes32 0) (?D d st)) (installed d (nth (lh_sector l)) (\<lambda>i. ?D d (log_block l i)) n ?D))"
    unfolding d_def st_def l_def
    by (rule recover_run [OF t, of n], fold d_def st_def l_def)
      (use r n hd head_block_read [OF r(2) n, where l = l] in \<open>simp_all add: committed_head_def d_def st_def l_def\<close>)
  have 2: "installed d (nth (lh_sector l)) (\<lambda>i. ?D d (log_block l i)) n ?D = installed d (nth (lh_sector l)) (logged s) n ?E"
  proof -
    have "installed d (nth (lh_sector l)) (logged s) n ?D e x = installed d (nth (lh_sector l)) (logged s) n ?E e x" for e x
    proof (rule installed_again, cases "e = d \<and> (\<exists>i < k. x = lh_sector l ! i)")
      case False
      then have "?D e x = ?E e x" by (induction k) (auto simp: put_sector_def)
      then show "(\<exists>i < n. e = d \<and> x = lh_sector l ! i) \<or> ?D e x = ?E e x" ..
    qed (use assms(2) order.strict_trans2 in blast)
    moreover have "installed d (nth (lh_sector l)) (\<lambda>i. ?D d (log_block l i)) n ?D = installed d (nth (lh_sector l)) (logged s) n ?D"
      by (rule installed_cong) (simp add: lg)
    ultimately show ?thesis by (simp add: fun_eq_iff)
  qed
  have "\<forall>i < n. lh_sector l ! i \<noteq> st" using a(6) by (simp add: st_def l_def)
  then have 3: "committed_disk s n = put_sector d st (put_bytes 0 (bytes32 0) (committed_head s n)) (installed d (nth (lh_sector l)) (logged s) n ?E)"
    by (simp add: committed_disk_def Let_def put_installed d_def st_def l_def)
  show ?thesis using 1 unfolding hd 2 3 .
qed

lemma recover_empty:
  assumes "rebooted l D t" "log_ready l n" "length (D (log_dev l) (log_start l)) = 512" "le32 (D (log_dev l) (log_start l)) 0 = 0"
  shows "recovers t D"
proof -
  have "rebooted (l\<lparr>lh_n := 0\<rparr>) D t" "log_ready (l\<lparr>lh_n := 0\<rparr>) 0" using assms(1,2) by (simp_all add: rebooted_def log_ready_def)
  from recover_run [OF this] assms(3,4) put_bytes_le32 [of "D (log_dev l) (log_start l)"] show ?thesis
    by (simp add: put_sector_def fun_upd_same_value)
qed

lemma end_trans_run:
  assumes "calm s"
  shows "critical Log_lk (seqK (upd_log f) (thread_wakeup LogChan)) s = Inr ((), s\<lparr>log := f (log s)\<rparr>)"
proof -
  let ?t = "take_lock Log_lk (s\<lparr>log := f (log s)\<rparr>)"
  note c = calmD [OF assms]
  have "thread_wakeup LogChan ?t = Inr ((), ?t)"
    using c by (intro wakeup_nobody) (simp_all add: take_lock_def sleeping_def cpu_ok_def this_cpu_def)
  moreover have "(take_lock Log_lk s)\<lparr>log := f (log (take_lock Log_lk s))\<rparr> = ?t" by (simp add: take_lock_def this_cpu_def)
  ultimately have "seqK (upd_log f) (thread_wakeup LogChan) (take_lock Log_lk s) = Inr ((), ?t)"
    by (simp add: seqK_def upd_log_def modifyK_def)
  from critical_spec [where m = "seqK (upd_log f) (thread_wakeup LogChan)", OF c(1) lock_free_spin_free [OF c(9)] this]
  show ?thesis using c(9) by (simp add: drop_take_lock)
qed

lemma commit_trans_run:
  assumes "commit_ready s n"
  shows "\<exists>s'. commit_trans s = Inr ((), s') \<and> disk s' = committed_disk s n"
proof -
  define d st l where "d = log_dev (log s)" and "st = log_start (log s)" and "l = log s"
  have r: "log_ready l n" "0 < n" using assms by (simp_all add: commit_ready_def l_def)
  obtain t where t: "write_head s = Inr ((), t)" "idle t" "log t = l" "disk t = put_sector d st (committed_head s n) (disk s)"
      "\<And>sec. sec \<in> log_area l \<Longrightarrow> contents t d sec = disk t d sec"
    by (rule commit_prefix_run [OF assms, of 0])
      (simp_all add: seqK_def returnK_def d_def st_def l_def split: sum.splits prod.splits)
  note a = log_ready_address [OF r(1)]
  have hd: "contents t d st = committed_head s n" by (subst t(5)) (simp_all add: log_area_def t(4) put_sector_def st_def l_def)
  have lg: "contents t d (log_block l i) = logged s i" if "i < n" for i
    using that r(1) a(4) [of i] by (subst t(5)) (auto simp: log_area_def log_ready_def t(4) put_sector_def logged_def st_def l_def d_def)
  obtain u where u: "blockK [install_trans, upd_log (\<lambda>l. l\<lparr>lh_n := 0\<rparr>), write_head] t = Inr ((), u)" "idle u"
      "disk u = put_sector d st (put_bytes 0 (bytes32 0) (committed_head s n))
         (installed d (nth (lh_sector l)) (\<lambda>i. contents t d (log_block l i)) n (disk t))"
    using install_clear_run [of t n] t(2,3) r(1) hd by (auto simp: d_def st_def l_def)
  have "installed d (nth (lh_sector l)) (\<lambda>i. contents t d (log_block l i)) n (disk t) =
      installed d (nth (lh_sector l)) (logged s) n (put_sector d st (committed_head s n) (disk s))"
    unfolding t(4) [symmetric] by (rule installed_cong) (simp add: lg)
  moreover have "\<forall>i < n. lh_sector l ! i \<noteq> st" using a(6) by (simp add: st_def l_def)
  ultimately have "disk u = committed_disk s n"
    unfolding u(3) by (simp add: committed_disk_def Let_def put_installed d_def st_def l_def)
  moreover have "commit_trans s = Inr ((), u\<lparr>log := (log u)\<lparr>log_busy := False\<rparr>\<rparr>)"
    using t(1) u(1,2) r by (simp add: commit_trans_def monad_defs end_trans_run idle_def log_ready_def l_def)
  ultimately show ?thesis by simp
qed


text \<open>One logged block for sector 5, after a log at sector 100.\<close>

definition demo_log :: fs where
  "demo_log = demo_fs\<lparr>log := \<lparr>log_start = 100, log_size = 11, log_busy = True, log_dev = 1, lh_n = 1, lh_sector = 5 # replicate 9 0\<rparr>,
     disk := put_sector 1 101 (replicate 512 7) (disk demo_fs)\<rparr>"

lemma demo_log_idle: "idle (demo_log\<lparr>disk := D\<rparr>)" "b < NBUF \<Longrightarrow> \<not> dirty (bufs (demo_log\<lparr>disk := D\<rparr>) ! b)"
proof -
  have ok: "cache_ok (demo_log\<lparr>disk := D\<rparr>)"
    by (rule cache_okI) (auto simp: demo_log_def demo_fs_fields cached_def NBUF_def)
  have b: "bufs (demo_log\<lparr>disk := D\<rparr>) = bufs demo_fs" by (simp add: demo_log_def)
  have "calm (demo_log\<lparr>disk := D\<rparr>)" using demo_fs_ok(1) by (simp add: demo_log_def)
  moreover have "\<exists>r < NBUF. \<exists>r' < NBUF. r \<noteq> r' \<and> \<not> dirty (bufs demo_fs ! r) \<and> \<not> dirty (bufs demo_fs ! r')"
    by (rule exI [of _ 0], simp add: demo_fs_fields NBUF_def, rule exI [of _ 1], simp)
  ultimately show "idle (demo_log\<lparr>disk := D\<rparr>)" unfolding idle_def b using ok by (simp add: demo_fs_fields)
  show "b < NBUF \<Longrightarrow> \<not> dirty (bufs (demo_log\<lparr>disk := D\<rparr>) ! b)" unfolding b by (simp add: demo_fs_fields)
qed

lemma demo_log_ready: "commit_ready demo_log 1" "rebooted (log demo_log) D (demo_log\<lparr>disk := D\<rparr>)"
proof -
  have i: "idle demo_log" "b < NBUF \<Longrightarrow> \<not> dirty (bufs demo_log ! b)" for b
    using demo_log_idle [where D = "disk demo_log"] by simp_all
  have "log_ready (log demo_log) 1"
    by (auto simp: log_ready_def log_area_def log_block_def demo_log_def LOGSIZE_def lessThan_nat_numeral lessThan_Suc)
  then show "commit_ready demo_log 1"
    using i by (auto simp: commit_ready_def pinned_def) (simp_all add: demo_log_def put_sector_def demo_fs_fields le32_def)
  show "rebooted (log demo_log) D (demo_log\<lparr>disk := D\<rparr>)"
    using demo_log_idle by (auto simp: rebooted_def) (simp add: demo_log_def LOGSIZE_def)
qed


end
