(* ===== verification/Keeps.thy ===== *)
theory Keeps
  imports PMap
begin

text \<open>
  A calculus for invariants: \<open>keepsK P m R\<close> says that the routine \<open>m\<close>, when it returns, keeps \<open>P\<close> and gives
  a result with \<open>R\<close>.  The rules follow the combinators of the kernel monad.  The locale \<open>vm_frame\<close> is the
  interface of the memory layers to the ones above: whoever does not look at the locks, the allocation
  table, the containers, the page directories and the memory keeps what it says through all routines
  of these layers.
\<close>

section \<open>Rules for invariants\<close>

named_theorems keeps \<open>what a routine keeps, and what it returns\<close>
named_theorems comb \<open>the combinators\<close>

definition keepsK :: "('s \<Rightarrow> bool) \<Rightarrow> ('s, 'a) kern \<Rightarrow> ('a \<Rightarrow> bool) \<Rightarrow> bool" where
  "keepsK P m R \<longleftrightarrow> (\<forall>s x s'. P s \<longrightarrow> m s = Inr (x, s') \<longrightarrow> P s' \<and> R x)"

lemma keepsK_mono: "keepsK P m R \<Longrightarrow> (\<And>x. R x \<Longrightarrow> R' x) \<Longrightarrow> keepsK P m R'"
  by (auto simp: keepsK_def)

lemma keeps_return [comb]: "R x \<Longrightarrow> keepsK P (returnK x) R"
  by (simp add: keepsK_def returnK_def)

text \<open>Used where the predicate on the result is still open.\<close>

lemma keeps_return_eq [keeps]: "keepsK P (returnK x) (\<lambda>y. y = x)"
  by (simp add: keepsK_def returnK_def)

lemma keeps_fault [comb]: "keepsK P (faultK f) R"
  by (simp add: keepsK_def faultK_def)

lemma keeps_bind:
  assumes "keepsK P m S" "\<And>x. S x \<Longrightarrow> keepsK P (f x) R"
  shows "keepsK P (bindK m f) R"
  unfolding keepsK_def
proof (intro allI impI)
  fix s x s' assume "P s" "bindK m f s = Inr (x, s')"
  then obtain y t where "m s = Inr (y, t)" "f y t = Inr (x, s')" by (auto simp: bindK_def split: sum.splits prod.splits)
  moreover from this(1) \<open>P s\<close> have "P t" "S y" using assms(1) by (simp_all add: keepsK_def)
  ultimately show "P s' \<and> R x" using assms(2) [of y] by (simp add: keepsK_def)
qed

lemma keeps_bind_any [comb]: "keepsK P m (\<lambda>_. True) \<Longrightarrow> (\<And>x. keepsK P (f x) R) \<Longrightarrow> keepsK P (bindK m f) R"
  by (rule keeps_bind)

lemma keeps_seq [comb]: "keepsK P m (\<lambda>_. True) \<Longrightarrow> keepsK P n R \<Longrightarrow> keepsK P (seqK m n) R"
  unfolding seqK_bindK by (rule keeps_bind_any)

lemma keeps_void [comb]:
  assumes "keepsK P m (\<lambda>_. True)" "R ()"
  shows "keepsK P (voidK m) R"
proof -
  have "voidK m = bindK m (\<lambda>_. returnK ())" by (rule ext) (simp add: voidK_def bindK_def returnK_def split: sum.split)
  then show ?thesis using keeps_bind [OF assms(1), of "\<lambda>_. returnK ()" R] keeps_return [of R "()" P] assms(2) by simp
qed

lemma keeps_modify [comb]: "(\<And>s. P s \<Longrightarrow> P (f s)) \<Longrightarrow> R () \<Longrightarrow> keepsK P (modifyK f) R"
  by (auto simp: keepsK_def modifyK_def)

lemma keeps_when [comb]: "(b \<Longrightarrow> keepsK P m R) \<Longrightarrow> (\<not> b \<Longrightarrow> R ()) \<Longrightarrow> keepsK P (whenK b m) R"
  by (auto simp: keepsK_def whenK_def returnK_def)

lemma keeps_guard [comb]: "(b \<Longrightarrow> R ()) \<Longrightarrow> keepsK P (guardK b f) R"
  by (auto simp: keepsK_def guardK_def returnK_def faultK_def)

lemma keeps_index [comb]: "(i < n \<Longrightarrow> keepsK P m R) \<Longrightarrow> keepsK P (indexK i n m) R"
  by (auto simp: keepsK_def indexK_def faultK_def)

lemma keeps_block [comb]:
  "R () \<Longrightarrow> keepsK P (blockK []) R"
  "keepsK P m (\<lambda>_. True) \<Longrightarrow> keepsK P (blockK ms) R \<Longrightarrow> keepsK P (blockK (m # ms)) R"
  by (auto intro: comb)

lemma keeps_for [comb]: "(\<And>x. x \<in> set xs \<Longrightarrow> keepsK P (f x) (\<lambda>_. True)) \<Longrightarrow> R () \<Longrightarrow> keepsK P (forK xs f) R"
  by (induction xs) (auto intro: comb)

lemma keeps_if [comb]: "(b \<Longrightarrow> keepsK P m R) \<Longrightarrow> (\<not> b \<Longrightarrow> keepsK P n R) \<Longrightarrow> keepsK P (if b then m else n) R"
  by simp

lemma keeps_let [comb]: "keepsK P (f v) R \<Longrightarrow> keepsK P (let x = v in f x) R"
  by simp

lemma keeps_option [comb]:
  "(z = None \<Longrightarrow> keepsK P m R) \<Longrightarrow> (\<And>y. z = Some y \<Longrightarrow> keepsK P (f y) R) \<Longrightarrow> keepsK P (case z of None \<Rightarrow> m | Some y \<Rightarrow> f y) R"
  by (cases z) simp_all

lemma keeps_find [comb]:
  "(find p L = None \<Longrightarrow> keepsK P m R) \<Longrightarrow> (\<And>b. b \<in> set L \<Longrightarrow> keepsK P (f b) R) \<Longrightarrow>
    keepsK P (case find p L of None \<Rightarrow> m | Some b \<Rightarrow> f b) R"
  by (cases "find p L") (auto dest: find_SomeD)

lemma keeps_prod [comb]: "(\<And>a b. z = (a, b) \<Longrightarrow> keepsK P (f a b) R) \<Longrightarrow> keepsK P (case z of (a, b) \<Rightarrow> f a b) R"
  by (cases z) simp

lemma keeps_list [comb]:
  "(z = [] \<Longrightarrow> keepsK P m R) \<Longrightarrow> (\<And>y ys. z = y # ys \<Longrightarrow> keepsK P (f y ys) R) \<Longrightarrow> keepsK P (case z of [] \<Rightarrow> m | y # ys \<Rightarrow> f y ys) R"
  by (cases z) simp_all

text \<open>A value read from the state has what the invariant says about it; without such a rule nothing is
  known of it.\<close>

lemma keeps_read: "(\<And>s. P s \<Longrightarrow> R (f s)) \<Longrightarrow> keepsK P (readK f) R"
  by (auto simp: keepsK_def readK_def)

lemma keeps_read_any [comb]: "keepsK P (readK f) (\<lambda>_. True)"
  by (simp add: keepsK_def readK_def)

section \<open>The memory layers\<close>

locale vm_frame =
  fixes P :: "'a vmm_scheme \<Rightarrow> bool"
  assumes P_locks [simp]: "P (s\<lparr>locks := x1\<rparr>) = P s"
    and P_AT [simp]: "P (s\<lparr>AT := x2\<rparr>) = P s"
    and P_last_palloc_index [simp]: "P (s\<lparr>last_palloc_index := x3\<rparr>) = P s"
    and P_CONTAINER [simp]: "P (s\<lparr>CONTAINER := x4\<rparr>) = P s"
    and P_mem [simp]: "P (s\<lparr>mem := x5\<rparr>) = P s"
    and P_PDirPool [simp]: "P (s\<lparr>PDirPool := x6\<rparr>) = P s"
begin

lemma lock_keeps [keeps]:
  "keepsK P (spinlock_acquire lk) (\<lambda>_. True)" "keepsK P (spinlock_release lk) (\<lambda>_. True)"
  by (auto simp: keepsK_def spinlock_acquire_def spinlock_release_def xchg_lock_def set_lock_holder_def
      kstack_magic_assert_def monad_defs split: if_splits)

lemma critical_keeps [comb]: "keepsK P m R \<Longrightarrow> keepsK P (critical lk m) R"
  unfolding critical_def by (rule keeps_bind keeps comb | assumption | simp)+

lemma cpu_keeps [keeps]: "keepsK P get_pcpu_idx (\<lambda>_. True)"
  unfolding get_pcpu_idx_def get_kstack_cpu_idx_def
  by ((rule keeps_bind, rule keeps) | rule comb | (rule keepsK_mono, rule keeps) | (simp; fail))+

lemma palloc_keeps [keeps]: "keepsK P palloc (\<lambda>_. True)"
  unfolding palloc_def get_nps_def at_set_allocated_def
  by ((rule keeps_bind, rule keeps) | rule comb | (rule keepsK_mono, rule keeps) | (simp; fail))+

lemma P_set_container [simp]: "P (set_container c f s) = P s"
  by (simp add: set_container_def)

lemma container_keeps [keeps]:
  "keepsK P (container_alloc c) (\<lambda>_. True)" "keepsK P (container_split c q) (\<lambda>_. True)"
  "keepsK P (container_can_consume c q) (\<lambda>_. True)" "keepsK P (container_get_nchildren c) (\<lambda>_. True)"
  unfolding container_alloc_def container_split_def container_can_consume_def container_get_nchildren_def
  by ((rule keeps_bind, rule keeps) | rule comb | (rule keepsK_mono, rule keeps) | (simp; fail))+

lemma P_write_pdir [simp]: "P (write_pdir p i v s) = P s"
  by (simp add: write_pdir_def)

lemma ptbl_keeps [keeps]:
  "keepsK P (get_ptbl_entry_by_va p va) (\<lambda>_. True)" "keepsK P (get_pdir_entry_by_va p va) (\<lambda>_. True)"
  "keepsK P (set_ptbl_entry_by_va p va pg prm) (\<lambda>_. True)" "keepsK P (set_pdir_entry_by_va p va pg) (\<lambda>_. True)"
  "keepsK P (rmv_ptbl_entry p pde pte) (\<lambda>_. True)"
  unfolding get_ptbl_entry_by_va_def get_ptbl_entry_def get_pdir_entry_by_va_def get_pdir_entry_def set_ptbl_entry_by_va_def
    set_ptbl_entry_def set_pdir_entry_by_va_def set_pdir_entry_def rmv_ptbl_entry_def pdir_index_def
  by ((rule keeps_bind, rule keeps) | rule comb | (rule keepsK_mono, rule keeps) | (simp; fail))+

lemma page_keeps [keeps]:
  "keepsK P (alloc_page p va prm) (\<lambda>_. True)" "keepsK P (alloc_mem_quota i q) (\<lambda>_. True)"
  unfolding alloc_page_def map_page_def alloc_ptbl_def alloc_mem_quota_def
  by ((rule keeps_bind, rule keeps) | rule comb | (rule keepsK_mono, rule keeps) | (simp; fail))+

lemma user_pa_keeps [keeps]: "keepsK P (user_pa p va) (\<lambda>_. True)"
  unfolding user_pa_def by ((rule keeps_bind, rule keeps) | rule comb | (rule keepsK_mono, rule keeps) | (simp; fail))+

lemma copy_loop_keeps [keeps]:
  "keepsK P (copyin_loop n p uva kva len k) (\<lambda>_. True)" "keepsK P (copyout_loop n kva p uva len k) (\<lambda>_. True)"
  "keepsK P (memset_loop n p uva c len k) (\<lambda>_. True)"
  by (induction n arbitrary: uva kva len k; simp only: copyin_loop.simps copyout_loop.simps memset_loop.simps,
      ((rule keeps_bind, rule keeps) | rule comb | (rule keepsK_mono, rule keeps) | (simp; fail))+)+

lemma copy_keeps [keeps]:
  "keepsK P (pt_copyin p uva kva len) (\<lambda>_. True)" "keepsK P (pt_copyout kva p uva len) (\<lambda>_. True)"
  "keepsK P (pt_memset p uva c len) (\<lambda>_. True)"
  unfolding pt_copyin_def pt_copyout_def pt_memset_def by ((rule keeps_bind, rule keeps) | rule comb | (rule keepsK_mono, rule keeps) | (simp; fail))+

lemma elf_keeps [keeps]:
  "keepsK P (load_pages n p fsz zva eva prm fa va) (\<lambda>_. True)"
  by (induction n arbitrary: fa va; simp only: load_pages.simps, ((rule keeps_bind, rule keeps) | rule comb | (rule keepsK_mono, rule keeps) | (simp; fail))+)

lemma load_segment_keeps [keeps]: "keepsK P (load_segment eh p ph) (\<lambda>_. True)"
  unfolding load_segment_def
  by ((rule keeps_bind, rule keeps) | rule comb | (rule keepsK_mono, rule keeps) | (simp; fail))+

lemma load_segments_keeps [keeps]: "keepsK P (load_segments n eh p eph ph) (\<lambda>_. True)"
  by (induction n arbitrary: ph; simp only: load_segments.simps, ((rule keeps_bind, rule keeps) | rule comb | (rule keepsK_mono, rule keeps) | (simp; fail))+)

lemma elf_load_keeps [keeps]:
  "keepsK P (elf_load e p) (\<lambda>_. True)" "keepsK P (elf_entry e) (\<lambda>_. True)"
  unfolding elf_load_def elf_entry_def
  by ((rule keeps_bind, rule keeps) | rule comb | (rule keepsK_mono, rule keeps) | (simp; fail))+

end

end
