(* ===== verification/FsTypes.thy ===== *)
theory FsTypes
  imports Trap Recovery Keeps
begin

text \<open>
  The types of the file system's data, and that the kernel keeps them: lengths of the static arrays
  and of the blocks in them, and indices that stand for pointers.  Every routine of the file system, the
  scheduler, the console and the system calls gets a rule of the calculus; the memory layers come from the
  interpretation of their locale.
\<close>

section \<open>Types of the file system\<close>

definition below :: "nat \<Rightarrow> nat option \<Rightarrow> bool" where
  "below n p \<longleftrightarrow> (\<forall>i. p = Some i \<longrightarrow> i < n)"

lemma below_simps [simp]: "below n None" "below n (Some i) \<longleftrightarrow> i < n"
  by (simp_all add: below_def)

definition tcb_typed :: "TCB \<Rightarrow> bool" where
  "tcb_typed t \<longleftrightarrow> length (openfiles t) = NOFILE \<and> (\<forall>f \<in> set (openfiles t). below NFILE f) \<and> below NINODE (cwd t)"

definition fs_typed :: "'a fs_scheme \<Rightarrow> bool" where
  "fs_typed s \<longleftrightarrow>
     (\<forall>d sec. length (disk s d sec) = 512) \<and>
     length (bufs s) = NBUF \<and> (\<forall>b \<in> set (bufs s). length (data b) = 512) \<and>
     distinct (bcache_list s) \<and> set (bcache_list s) = {..<NBUF} \<and> set (idequeue s) \<subseteq> {..<NBUF} \<and>
     length (lh_sector (log s)) = LOGSIZE \<and>
     length (inode_cache s) = NINODE \<and> (\<forall>n \<in> set (inode_cache s). length (i_addrs n) = 13) \<and>
     length (ftable s) = NFILE \<and> (\<forall>f \<in> set (ftable s). below NINODE (f_ip f)) \<and>
     (\<forall>pid. tcb_typed (TCBPool s pid))"

text \<open>The layers below do not touch any of this.\<close>

lemma fs_typed_frame [simp]:
  "fs_typed (s\<lparr>cur_kstack := a1\<rparr>) = fs_typed s" "fs_typed (s\<lparr>cr3 := a2\<rparr>) = fs_typed s"
  "fs_typed (s\<lparr>regs := a3\<rparr>) = fs_typed s" "fs_typed (s\<lparr>kctx_pool := a4\<rparr>) = fs_typed s"
  "fs_typed (s\<lparr>thread_kstack := a5\<rparr>) = fs_typed s" "fs_typed (s\<lparr>TQueuePool := a6\<rparr>) = fs_typed s"
  "fs_typed (s\<lparr>CURID := a7\<rparr>) = fs_typed s" "fs_typed (s\<lparr>sched_ticks := a8\<rparr>) = fs_typed s"
  by (simp_all add: fs_typed_def)

interpretation typed: vm_frame fs_typed
  by unfold_locales (simp_all add: fs_typed_def)

lemma keeps_get_at: "(\<And>s. P s \<Longrightarrow> i < length (f s) \<Longrightarrow> R (f s ! i)) \<Longrightarrow> keepsK P (get_at f i) R"
  by (auto simp: keepsK_def get_at_def)

section \<open>Threads\<close>

lemma curid_keeps [keeps]: "keepsK fs_typed get_curid (\<lambda>_. True)" "keepsK fs_typed (set_curid c) (\<lambda>_. True)"
  unfolding get_curid_def set_curid_def
  by ((rule keeps_bind, rule keeps) | rule comb | (rule keepsK_mono, rule keeps) | (simp; fail))+


lemma tcb_typed_frame [simp]:
  "tcb_typed (t\<lparr>state := x1\<rparr>) = tcb_typed t" "tcb_typed (t\<lparr>cpuid := x2\<rparr>) = tcb_typed t"
  "tcb_typed (t\<lparr>prev := x3\<rparr>) = tcb_typed t" "tcb_typed (t\<lparr>next := x4\<rparr>) = tcb_typed t"
  "tcb_typed (t\<lparr>channel := x5\<rparr>) = tcb_typed t"
  by (simp_all add: tcb_typed_def)

lemma upd_tcb_keeps [keeps]:
  "(\<And>t. tcb_typed t \<Longrightarrow> tcb_typed (f t)) \<Longrightarrow> keepsK fs_typed (upd_tcb pid f) (\<lambda>_. True)"
  unfolding upd_tcb_def by (rule comb)+ (simp_all add: fs_typed_def)

lemma get_tcb_keeps:
  "(\<And>t. tcb_typed t \<Longrightarrow> R (f t)) \<Longrightarrow> keepsK fs_typed (get_tcb pid f) R"
  unfolding get_tcb_def by (rule comb keeps_read)+ (simp add: fs_typed_def)

lemma tcb_keeps [keeps]:
  "keepsK fs_typed (tcb_get_state pid) (\<lambda>_. True)" "keepsK fs_typed (tcb_get_prev pid) (\<lambda>_. True)"
  "keepsK fs_typed (tcb_get_next pid) (\<lambda>_. True)" "keepsK fs_typed (tcb_get_chan pid) (\<lambda>_. True)"
  "keepsK fs_typed (tcb_get_openfiles pid) (\<lambda>fds. length fds = NOFILE \<and> (\<forall>f \<in> set fds. below NFILE f))"
  "keepsK fs_typed (tcb_get_cwd pid) (below NINODE)"
  unfolding tcb_get_state_def tcb_get_prev_def tcb_get_next_def tcb_get_chan_def tcb_get_openfiles_def tcb_get_cwd_def
  by (rule get_tcb_keeps, simp add: tcb_typed_def)+

lemma tcb_set_keeps [keeps]:
  "keepsK fs_typed (tcb_set_state pid st) (\<lambda>_. True)" "keepsK fs_typed (tcb_set_prev pid q) (\<lambda>_. True)"
  "keepsK fs_typed (tcb_set_next pid q) (\<lambda>_. True)" "keepsK fs_typed (tcb_set_chan pid ch) (\<lambda>_. True)"
  unfolding tcb_set_state_def tcb_set_prev_def tcb_set_next_def tcb_set_chan_def
  by ((rule keeps_bind, rule keeps) | rule comb | (rule keepsK_mono, rule keeps) | (simp; fail))+

lemma tcb_set_openfiles_keeps [keeps]: "below NFILE f \<Longrightarrow> keepsK fs_typed (tcb_set_openfiles pid fd f) (\<lambda>_. True)"
  unfolding tcb_set_openfiles_def
  by (rule comb keeps)+ (auto simp: tcb_typed_def dest!: subsetD [OF set_update_subset_insert])

lemma tcb_set_cwd_keeps [keeps]: "below NINODE d \<Longrightarrow> keepsK fs_typed (tcb_set_cwd pid d) (\<lambda>_. True)"
  unfolding tcb_set_cwd_def by (rule comb keeps)+ (simp add: tcb_typed_def)

lemma tqueue_keeps [keeps]:
  "keepsK fs_typed (tqueue_get_head ch) (\<lambda>_. True)" "keepsK fs_typed (tqueue_get_tail ch) (\<lambda>_. True)"
  "keepsK fs_typed (tqueue_set_head ch q) (\<lambda>_. True)" "keepsK fs_typed (tqueue_set_tail ch q) (\<lambda>_. True)"
  unfolding tqueue_get_head_def tqueue_get_tail_def tqueue_set_head_def tqueue_set_tail_def get_tqueue_def upd_tqueue_def
  by ((rule keeps_bind, rule keeps) | rule comb | (rule keepsK_mono, rule keeps) | (simp; fail))+

lemma queue_keeps [keeps]:
  "keepsK fs_typed (tqueue_enqueue ch pid) (\<lambda>_. True)" "keepsK fs_typed (tqueue_dequeue ch) (\<lambda>_. True)"
  unfolding tqueue_enqueue_def tqueue_dequeue_def
  by ((rule keeps_bind, rule keeps) | rule comb | (rule keepsK_mono, rule keeps) | (simp; fail))+

lemma cswitch_typed [simp]: "fs_typed (cswitch a b s) = fs_typed s"
  by (simp add: cswitch_def Let_def)

lemma kctx_keeps [keeps]:
  "keepsK fs_typed (kctx_switch a b) (\<lambda>_. True)" "keepsK fs_typed (kctx_new e i q) (\<lambda>_. True)"
  unfolding kctx_switch_def kctx_new_def kctx_set_esp_def kctx_set_eip_def upd_kctx_def
  by ((rule keeps_bind, rule keeps) | rule comb | (rule keepsK_mono, rule keeps) | (simp; fail))+

lemma wake_thread_keeps [keeps]: "keepsK fs_typed (wake_thread ch pid) (\<lambda>_. True)"
  unfolding wake_thread_def
  by ((rule keeps_bind, rule keeps) | rule comb | (rule keepsK_mono, rule keeps) | (simp; fail))+

lemma thread_keeps [keeps]:
  "keepsK fs_typed thread_yield (\<lambda>_. True)" "keepsK fs_typed (thread_spawn e i q) (\<lambda>_. True)"
  "keepsK fs_typed (thread_wakeup ch) (\<lambda>_. True)"
  unfolding thread_yield_def thread_spawn_def thread_wakeup_def
  by ((rule keeps_bind, rule keeps) | rule comb | (rule keepsK_mono, rule keeps) | (simp; fail))+

section \<open>Buffers and the log\<close>

lemma table_sizes [simp]: "0 < NINODE" "0 < NFILE"
  by (simp_all add: NINODE_def NFILE_def)

lemma get_buf_keeps [keeps]: "keepsK fs_typed (get_buf b) (\<lambda>x. b < NBUF \<and> length (data x) = 512)"
  unfolding get_buf_def by (rule keeps_get_at) (auto simp: fs_typed_def)

lemma upd_buf_keeps [keeps]:
  "(\<And>x. length (data x) = 512 \<Longrightarrow> length (data (f x)) = 512) \<Longrightarrow> keepsK fs_typed (upd_buf b f) (\<lambda>_. True)"
  by (auto simp: keepsK_def upd_buf_def fs_typed_def dest!: subsetD [OF set_update_subset_insert] split: if_splits)

lemma set_data_keeps [keeps]: "length d = 512 \<Longrightarrow> keepsK fs_typed (set_data b d) (\<lambda>_. True)"
  unfolding set_data_def
  by ((rule keeps_bind, rule keeps) | rule comb | (rule keepsK_mono, rule keeps) | (simp; fail))+

lemma read_keeps [keeps]:
  "keepsK fs_typed (readK idequeue) (\<lambda>q. set q \<subseteq> {..<NBUF})"
  "keepsK fs_typed (readK bcache_list) (\<lambda>q. set q = {..<NBUF})"
  "keepsK fs_typed (readK (\<lambda>s. disk s d sec)) (\<lambda>x. length x = 512)"
  by (rule keeps_read, simp add: fs_typed_def)+

lemma fs_typed_upd [simp]:
  "fs_typed s \<Longrightarrow> length x = 512 \<Longrightarrow> fs_typed (s\<lparr>disk := (disk s)(d := (disk s d)(sec := x))\<rparr>)"
  "fs_typed s \<Longrightarrow> set q \<subseteq> {..<NBUF} \<Longrightarrow> fs_typed (s\<lparr>idequeue := q\<rparr>)"
  "fs_typed s \<Longrightarrow> b < NBUF \<Longrightarrow> fs_typed (s\<lparr>idequeue := idequeue s @ [b]\<rparr>)"
  "fs_typed s \<Longrightarrow> b < NBUF \<Longrightarrow> fs_typed (s\<lparr>bcache_list := b # remove1 b (bcache_list s)\<rparr>)"
  by (auto simp: fs_typed_def set_remove1_eq)

lemma ide_start_keeps [keeps]: "keepsK fs_typed (ide_start b) (\<lambda>_. True)"
  unfolding ide_start_def
  by ((rule keeps_bind, rule keeps) | rule comb | (rule keepsK_mono, rule keeps) | (simp; fail))+

lemma ide_intr_keeps [keeps]: "keepsK fs_typed ide_intr (\<lambda>_. True)"
  unfolding ide_intr_def ide_wait_def
  by ((rule keeps_bind, rule keeps) | rule comb | (rule keepsK_mono, rule keeps) | (simp; fail))+

lemma ide_complete_keeps [keeps]: "keepsK fs_typed (ide_complete n b) (\<lambda>_. True)"
  by (induction n; simp only: ide_complete.simps, ((rule keeps_bind, rule keeps) | rule comb | (rule keepsK_mono, rule keeps) | (simp; fail))+)

lemma ide_rw_keeps [keeps]: "keepsK fs_typed (ide_rw b) (\<lambda>_. True)"
  unfolding ide_rw_def
  by ((rule keeps_bind, rule keeps) | rule comb | (rule keepsK_mono, rule keeps) | (simp; fail))+

lemma bufcache_get_keeps [keeps]: "keepsK fs_typed (bufcache_get d sec) (\<lambda>b. b < NBUF)"
  unfolding bufcache_get_def
  by ((rule keeps_bind, rule keeps) | rule comb | (rule keepsK_mono, rule keeps) | (simp; fail))+

lemma bufcache_keeps [keeps]:
  "keepsK fs_typed (bufcache_read d sec) (\<lambda>b. b < NBUF)" "keepsK fs_typed (bufcache_write b) (\<lambda>_. True)"
  "keepsK fs_typed (bufcache_release b) (\<lambda>_. True)"
  unfolding bufcache_read_def bufcache_write_def bufcache_release_def
  by ((rule keeps_bind, rule keeps) | rule comb | (rule keepsK_mono, rule keeps) | (simp; fail))+

lemma read_superblock_keeps [keeps]: "keepsK fs_typed (read_superblock d) (\<lambda>_. True)"
  unfolding read_superblock_def
  by ((rule keeps_bind, rule keeps) | rule comb | (rule keepsK_mono, rule keeps) | (simp; fail))+

lemma upd_log_keeps [keeps]:
  "(\<And>l. length (lh_sector l) = LOGSIZE \<Longrightarrow> length (lh_sector (f l)) = LOGSIZE) \<Longrightarrow> keepsK fs_typed (upd_log f) (\<lambda>_. True)"
  unfolding upd_log_def by (rule comb)+ (simp_all add: fs_typed_def)

lemma lh_sector_keeps [keeps]:
  "keepsK fs_typed (get_lh_sector i) (\<lambda>_. i < LOGSIZE)" "keepsK fs_typed (set_lh_sector i v) (\<lambda>_. True)"
proof -
  show "keepsK fs_typed (get_lh_sector i) (\<lambda>_. i < LOGSIZE)"
    unfolding get_lh_sector_def by (rule keeps_get_at) (simp add: fs_typed_def)
  show "keepsK fs_typed (set_lh_sector i v) (\<lambda>_. True)"
    unfolding set_lh_sector_def by ((rule keeps_bind, rule keeps) | rule comb | (rule keepsK_mono, rule keeps) | (simp; fail))+
qed

lemma install_entry_keeps [keeps]: "keepsK fs_typed (install_entry i) (\<lambda>_. True)"
  unfolding install_entry_def
  by ((rule keeps_bind, rule keeps) | rule comb | (rule keepsK_mono, rule keeps) | (simp; fail))+

lemma length_bytes [simp]: "length (bytes32 a) = 4" "length (bytes16 b) = 2"
  by (simp_all add: bytes32_def bytes16_def)

lemma head_fits [simp]: "i < LOGSIZE \<Longrightarrow> length (put_bytes (4 + 4 * i) (bytes32 v) x) = length x" if "length x = 512"
  using that by (simp add: LOGSIZE_def)

lemma head_keeps [keeps]:
  "keepsK fs_typed install_trans (\<lambda>_. True)" "keepsK fs_typed write_head (\<lambda>_. True)" "keepsK fs_typed read_head (\<lambda>_. True)"
  unfolding install_trans_def write_head_def read_head_def
  by ((rule keeps_bind, rule keeps) | rule comb | (rule keepsK_mono, rule keeps) | (simp; fail))+

lemma log_keeps [keeps]:
  "keepsK fs_typed begin_trans (\<lambda>_. True)" "keepsK fs_typed commit_trans (\<lambda>_. True)"
  "keepsK fs_typed (log_write b) (\<lambda>_. True)" "keepsK fs_typed recover_from_log (\<lambda>_. True)"
  unfolding begin_trans_def commit_trans_def log_write_def recover_from_log_def
  by ((rule keeps_bind, rule keeps) | rule comb | (rule keepsK_mono, rule keeps) | (simp; fail))+

lemma block_zero_keeps [keeps]: "keepsK fs_typed (block_zero d b) (\<lambda>_. True)"
  unfolding block_zero_def
  by ((rule keeps_bind, rule keeps) | rule comb | (rule keepsK_mono, rule keeps) | (simp; fail))+

lemma length_set_bitmap_bit [simp]: "length (set_bitmap_bit v bi x) = length x"
  by (simp add: set_bitmap_bit_def Let_def)

lemma block_alloc_loop_keeps [keeps]: "keepsK fs_typed (block_alloc_loop n d sb b) (\<lambda>_. True)"
  by (induction n arbitrary: b; simp only: block_alloc_loop.simps, ((rule keeps_bind, rule keeps) | rule comb | (rule keepsK_mono, rule keeps) | (simp; fail))+)

lemma block_keeps [keeps]:
  "keepsK fs_typed (block_alloc d) (\<lambda>_. True)" "keepsK fs_typed (block_free d b) (\<lambda>_. True)"
  unfolding block_alloc_def block_free_def
  by ((rule keeps_bind, rule keeps) | rule comb | (rule keepsK_mono, rule keeps) | (simp; fail))+

section \<open>Inodes\<close>

lemma get_inode_keeps [keeps]: "keepsK fs_typed (get_inode ip) (\<lambda>x. ip < NINODE \<and> length (i_addrs x) = 13)"
  unfolding get_inode_def by (rule keeps_get_at) (auto simp: fs_typed_def)

lemma upd_inode_keeps [keeps]:
  "(\<And>x. length (i_addrs x) = 13 \<Longrightarrow> length (i_addrs (f x)) = 13) \<Longrightarrow> keepsK fs_typed (upd_inode b f) (\<lambda>_. True)"
  by (auto simp: keepsK_def upd_inode_def fs_typed_def dest!: subsetD [OF set_update_subset_insert] split: if_splits)

lemma dinode_off_le: "dinode_off i \<le> 448"
proof -
  have "unat (i mod IPB) < 8" by (simp add: IPB_def BSIZE_def unat_mod)
  then show ?thesis by (simp add: dinode_off_def)
qed

lemma length_concat_bytes32: "length (concat (map bytes32 xs)) = 4 * length xs"
  by (induction xs) simp_all

lemma dinode_fits [simp]:
  "length x = 512 \<Longrightarrow> length (di_addrs di) = 13 \<Longrightarrow> length (put_bytes (dinode_off i) (dinode_bytes di) x) = 512"
  "length x = 512 \<Longrightarrow> length (put_bytes (dinode_off i) (bytes16 ty @ replicate 62 0) x) = 512"
  using dinode_off_le [of i] by (simp_all add: dinode_bytes_def length_concat_bytes32)

lemma inode_update_keeps [keeps]: "keepsK fs_typed (inode_update ip) (\<lambda>_. True)"
  unfolding inode_update_def
  by ((rule keeps_bind, rule keeps) | rule comb | (rule keepsK_mono, rule keeps) | (simp; fail))+

lemma inode_get_keeps [keeps]: "keepsK fs_typed (inode_get d inum) (\<lambda>ip. ip < NINODE)"
  unfolding inode_get_def
  by ((rule keeps_bind, rule keeps) | rule comb | (rule keepsK_mono, rule keeps) | (simp; fail))+

lemma inode_alloc_loop_keeps [keeps]: "keepsK fs_typed (inode_alloc_loop n d ty sb inum) (\<lambda>ip. ip < NINODE)"
  by (induction n arbitrary: inum; simp only: inode_alloc_loop.simps, ((rule keeps_bind, rule keeps) | rule comb | (rule keepsK_mono, rule keeps) | (simp; fail))+)

lemma read_dinode_addrs [simp]: "length (di_addrs (read_dinode d i)) = 13"
  by (simp add: read_dinode_def)

lemma inode_load_keeps [keeps]:
  "keepsK fs_typed (inode_alloc d ty) (\<lambda>ip. ip < NINODE)" "keepsK fs_typed (inode_load ip) (\<lambda>_. True)"
  unfolding inode_alloc_def inode_load_def
  by ((rule keeps_bind, rule keeps) | rule comb | (rule keepsK_mono, rule keeps) | (simp; fail))+

lemma inode_lock_keeps [keeps]:
  "keepsK fs_typed (inode_lock ip) (\<lambda>_. ip < NINODE)" "keepsK fs_typed (inode_unlock ip) (\<lambda>_. True)"
  unfolding inode_lock_def inode_unlock_def
  by ((rule keeps_bind, rule keeps) | rule comb | (rule keepsK_mono, rule keeps) | (simp; fail))+

lemma inode_dup_keeps [keeps]: "ip < NINODE \<Longrightarrow> keepsK fs_typed (inode_dup ip) (\<lambda>ip. ip < NINODE)"
  unfolding inode_dup_def
  by ((rule keeps_bind, rule keeps) | rule comb | (rule keepsK_mono, rule keeps) | (simp; fail))+

lemma set_addr_keeps [keeps]: "keepsK fs_typed (set_addr ip i a) (\<lambda>_. True)"
  unfolding set_addr_def
  by ((rule keeps_bind, rule keeps) | rule comb | (rule keepsK_mono, rule keeps) | (simp; fail))+

lemma inode_block_keeps [keeps]: "keepsK fs_typed (inode_block ip i) (\<lambda>_. True)"
  unfolding inode_block_def
  by ((rule keeps_bind, rule keeps) | rule comb | (rule keepsK_mono, rule keeps) | (simp; fail))+

lemma indirect_fits [simp]:
  "length x = 512 \<Longrightarrow> bn < NINDIRECT \<Longrightarrow> length (put_bytes (4 * unat bn) (bytes32 a) x) = 512"
proof -
  assume "length x = 512" "bn < NINDIRECT"
  then have "unat bn < 128" by (simp add: NINDIRECT_def BSIZE_def word_less_nat_alt)
  then show ?thesis using \<open>length x = 512\<close> by simp
qed

lemma bmap_keeps [keeps]: "keepsK fs_typed (bmap ip bn) (\<lambda>_. True)"
  unfolding bmap_def
  by ((rule keeps_bind, rule keeps) | rule comb | (rule keepsK_mono, rule keeps) | (simp; fail))+

lemma trunc_keeps [keeps]:
  "keepsK fs_typed (trunc_direct ip i) (\<lambda>_. True)" "keepsK fs_typed (trunc_indirect ip) (\<lambda>_. True)"
  unfolding trunc_direct_def trunc_indirect_def
  by ((rule keeps_bind, rule keeps) | rule comb | (rule keepsK_mono, rule keeps) | (simp; fail))+

lemma inode_trunc_keeps [keeps]: "keepsK fs_typed (inode_trunc ip) (\<lambda>_. True)"
  unfolding inode_trunc_def
  by ((rule keeps_bind, rule keeps) | rule comb | (rule keepsK_mono, rule keeps) | (simp; fail))+

lemma inode_put_keeps [keeps]: "keepsK fs_typed (inode_put ip) (\<lambda>_. True)"
  unfolding inode_put_def
  by ((rule keeps_bind, rule keeps) | rule comb | (rule keepsK_mono, rule keeps) | (simp; fail))+

lemma inode_unlockput_keeps [keeps]:
  "keepsK fs_typed (inode_unlockput ip) (\<lambda>_. True)" "keepsK fs_typed (inode_stat ip) (\<lambda>_. True)"
  unfolding inode_unlockput_def inode_stat_def
  by ((rule keeps_bind, rule keeps) | rule comb | (rule keepsK_mono, rule keeps) | (simp; fail))+

lemma inode_read_loop_keeps [keeps]: "keepsK fs_typed (inode_read_loop k ip off n tot) (\<lambda>_. True)"
  by (induction k arbitrary: off tot; simp only: inode_read_loop.simps, ((rule keeps_bind, rule keeps) | rule comb | (rule keepsK_mono, rule keeps) | (simp; fail))+)

lemma part_fits [simp]:
  "length x = 512 \<Longrightarrow> length (put_bytes (unat (off mod BSIZE)) (take (unat (block_part n tot off)) xs) x) = 512"
proof -
  assume x: "length x = 512"
  have "unat (block_part n tot off) \<le> unat (BSIZE - off mod BSIZE)"
    by (simp add: block_part_def min_u32_def word_less_nat_alt)
  moreover have "unat (BSIZE - off mod BSIZE) = 512 - unat (off mod BSIZE)"
    by (subst unat_sub) (simp_all add: BSIZE_def word_le_nat_alt unat_mod less_imp_le)
  moreover have "unat (off mod BSIZE) < 512" by (simp add: BSIZE_def unat_mod)
  ultimately show ?thesis using x by simp
qed

lemma inode_write_loop_keeps [keeps]: "keepsK fs_typed (inode_write_loop k ip src off n tot) (\<lambda>_. True)"
  by (induction k arbitrary: off tot; simp only: inode_write_loop.simps Let_def, ((rule keeps_bind, rule keeps) | rule comb | (rule keepsK_mono, rule keeps) | (simp; fail))+)

lemma inode_rw_keeps [keeps]:
  "keepsK fs_typed (inode_read ip off n) (\<lambda>_. True)" "keepsK fs_typed (inode_write ip src off n) (\<lambda>_. True)"
  unfolding inode_read_def inode_write_def
  by ((rule keeps_bind, rule keeps) | rule comb | (rule keepsK_mono, rule keeps) | (simp; fail))+

section \<open>Directories and files\<close>

lemma bytesK_keeps [keeps]: "keepsK P (bytesK r) (\<lambda>x. r = Some x)"
  by (simp add: keepsK_def bytesK_def monad_defs split: option.splits)

lemma dir_lookup_loop_keeps [keeps]:
  "keepsK fs_typed (dir_lookup_loop k dp name off) (\<lambda>r. \<forall>ip j. r = Some (ip, j) \<longrightarrow> ip < NINODE)"
  by (induction k arbitrary: off; simp only: dir_lookup_loop.simps, ((rule keeps_bind, rule keeps) | rule comb | (rule keepsK_mono, rule keeps) | (simp; fail))+)

lemma dir_lookup_keeps [keeps]:
  "keepsK fs_typed (dir_lookup dp name) (\<lambda>r. \<forall>ip j. r = Some (ip, j) \<longrightarrow> ip < NINODE)"
  unfolding dir_lookup_def
  by ((rule keeps_bind, rule keeps) | rule comb | (rule keepsK_mono, rule keeps) | (simp; fail))+

lemma dir_free_slot_keeps [keeps]: "keepsK fs_typed (dir_free_slot k dp off) (\<lambda>_. True)"
  by (induction k arbitrary: off; simp only: dir_free_slot.simps, ((rule keeps_bind, rule keeps) | rule comb | (rule keepsK_mono, rule keeps) | (simp; fail))+)

lemma dir_link_keeps [keeps]: "keepsK fs_typed (dir_link dp name inum) (\<lambda>_. True)"
  unfolding dir_link_def
  by ((rule keeps_bind, rule keeps) | rule comb | (rule keepsK_mono, rule keeps) | (simp; fail))+

lemma namex_loop_keeps [keeps]:
  "ip < NINODE \<Longrightarrow> keepsK fs_typed (namex_loop k ip path w name) (\<lambda>r. below NINODE (fst r))"
  by (induction k arbitrary: ip path name; simp only: namex_loop.simps, ((rule keeps_bind, rule keeps) | rule comb | (rule keepsK_mono, rule keeps) | (simp; fail))+)

lemma cwd_inode_keeps [keeps]: "keepsK fs_typed cwd_inode (\<lambda>ip. ip < NINODE)"
  unfolding cwd_inode_def
  by ((rule keeps_bind, rule keeps) | rule comb | (rule keepsK_mono, rule keeps) | (simp; fail))+

lemma namex_keeps [keeps]: "keepsK fs_typed (namex path w name) (\<lambda>r. below NINODE (fst r))"
proof -
  have "keepsK fs_typed (if c = SLASH then inode_get ROOTDEV ROOTINO else cwd_inode) (\<lambda>ip. ip < NINODE)" for c
    by ((rule keeps_bind, rule keeps) | rule comb | (rule keepsK_mono, rule keeps) | (simp; fail))+
  note start = keeps_bind [OF this]
  show ?thesis unfolding namex_def
    by (rule keeps_list keeps_fault start namex_loop_keeps | assumption)+
qed

lemma namei_keeps [keeps]:
  "keepsK fs_typed (namei path) (below NINODE)" "keepsK fs_typed (nameiparent path name) (\<lambda>r. below NINODE (fst r))"
  unfolding namei_def nameiparent_def
  by ((rule keeps_bind, rule keeps) | rule comb | (rule keepsK_mono, rule keeps) | (simp; fail))+

lemma get_file_keeps [keeps]: "keepsK fs_typed (get_file f) (\<lambda>x. f < NFILE \<and> below NINODE (f_ip x))"
  unfolding get_file_def by (rule keeps_get_at) (auto simp: fs_typed_def)

lemma upd_file_keeps [keeps]:
  "(\<And>x. below NINODE (f_ip x) \<Longrightarrow> below NINODE (f_ip (g x))) \<Longrightarrow> keepsK fs_typed (upd_file f g) (\<lambda>_. True)"
  by (auto simp: keepsK_def upd_file_def fs_typed_def dest!: subsetD [OF set_update_subset_insert] split: if_splits)

lemma file_alloc_keeps [keeps]:
  "keepsK fs_typed file_alloc (below NFILE)" "keepsK fs_typed (advance f r) (\<lambda>_. True)"
  "below NINODE (f_ip x) \<Longrightarrow> keepsK fs_typed (file_ip x e) (\<lambda>ip. ip < NINODE)"
  unfolding file_alloc_def advance_def file_ip_def
  by ((rule keeps_bind, rule keeps) | rule comb | (rule keepsK_mono, rule keeps) | (simp; fail))+

lemma file_close_keeps [keeps]:
  "keepsK fs_typed (file_close f) (\<lambda>_. True)" "keepsK fs_typed (file_stat f) (\<lambda>_. True)"
  "keepsK fs_typed (file_read f n) (\<lambda>_. True)"
  unfolding file_close_def file_stat_def file_read_def
  by ((rule keeps_bind, rule keeps) | rule comb | (rule keepsK_mono, rule keeps) | (simp; fail))+

lemma file_write_loop_keeps [keeps]: "keepsK fs_typed (file_write_loop k f ip src n i) (\<lambda>_. True)"
  by (induction k arbitrary: i; simp only: file_write_loop.simps, ((rule keeps_bind, rule keeps) | rule comb | (rule keepsK_mono, rule keeps) | (simp; fail))+)

lemma file_write_keeps [keeps]: "keepsK fs_typed (file_write f src n) (\<lambda>_. True)"
  unfolding file_write_def
  by ((rule keeps_bind, rule keeps) | rule comb | (rule keepsK_mono, rule keeps) | (simp; fail))+

section \<open>Console and processes\<close>

lemma fs_typed_frame_con [simp]:
  "fs_typed (s\<lparr>kbd_in := c1\<rparr>) = fs_typed s" "fs_typed (s\<lparr>serial_in := c2\<rparr>) = fs_typed s"
  "fs_typed (s\<lparr>serial_out := c3\<rparr>) = fs_typed s" "fs_typed (s\<lparr>kbd_shift := c4\<rparr>) = fs_typed s"
  "fs_typed (s\<lparr>reset := c5\<rparr>) = fs_typed s" "fs_typed (s\<lparr>crt_buf := c6\<rparr>) = fs_typed s"
  "fs_typed (s\<lparr>crt_pos := c7\<rparr>) = fs_typed s" "fs_typed (s\<lparr>crt_cursor := c8\<rparr>) = fs_typed s"
  "fs_typed (s\<lparr>cons_buf := c9\<rparr>) = fs_typed s" "fs_typed (s\<lparr>cons_rpos := d1\<rparr>) = fs_typed s"
  "fs_typed (s\<lparr>cons_wpos := d2\<rparr>) = fs_typed s" "fs_typed (s\<lparr>debug_lk := d3\<rparr>) = fs_typed s"
  by (simp_all add: fs_typed_def)

lemma fs_typed_frame_hw [simp]:
  "fs_typed (s\<lparr>lapic_out := h1\<rparr>) = fs_typed s" "fs_typed (s\<lparr>outs := h2\<rparr>) = fs_typed s"
  by (simp_all add: fs_typed_def)

lemma fs_typed_frame_proc [simp]:
  "fs_typed (s\<lparr>tframe := e1\<rparr>) = fs_typed s" "fs_typed (s\<lparr>uctx_pool := e2\<rparr>) = fs_typed s"
  "fs_typed (s\<lparr>user_regs := e3\<rparr>) = fs_typed s" "fs_typed (s\<lparr>last_active := e4\<rparr>) = fs_typed s"
  "fs_typed (s\<lparr>ks_gdt := e6\<rparr>) = fs_typed s"
  "fs_typed (s\<lparr>ks_tss := e7\<rparr>) = fs_typed s"
  by (simp_all add: fs_typed_def)

lemma crt_write_keeps [keeps]:
  "keepsK fs_typed (crt_write i c) (\<lambda>_. True)" "keepsK fs_typed (serial_putc b) (\<lambda>_. True)"
  "keepsK fs_typed video_scroll (\<lambda>_. True)" "keepsK fs_typed (cons_store b) (\<lambda>_. True)"
  "keepsK fs_typed serial_proc_data (\<lambda>_. True)" "keepsK fs_typed cons_fetch (\<lambda>_. True)"
  by (auto simp: keepsK_def crt_write_def serial_putc_def video_scroll_def cons_store_def serial_proc_data_def cons_fetch_def
      monad_defs split: if_splits list.splits)

lemma cons_putc_keeps [keeps]: "keepsK fs_typed (cons_putc c) (\<lambda>_. True)"
  unfolding cons_putc_def video_putc_def video_switch_def set_crt_pos_def
  by ((rule keeps_bind, rule keeps) | rule comb | (rule keepsK_mono, rule keeps) | (simp; fail))+

lemma cputs_keeps [keeps]: "keepsK fs_typed (cputs str) (\<lambda>_. True)"
  by (induction str; simp only: cputs.simps, ((rule keeps_bind, rule keeps) | rule comb | (rule keepsK_mono, rule keeps) | (simp; fail))+)

lemma putch_keeps [keeps]: "keepsK fs_typed (putch c b) (\<lambda>_. True)"
  unfolding putch_def
  by ((rule keeps_bind, rule keeps) | rule comb | (rule keepsK_mono, rule keeps) | (simp; fail))+

lemma putch_all_keeps [keeps]: "keepsK fs_typed (putch_all xs b) (\<lambda>_. True)"
  by (induction xs arbitrary: b; simp only: putch_all.simps, ((rule keeps_bind, rule keeps) | rule comb | (rule keepsK_mono, rule keeps) | (simp; fail))+)

lemma debug_lock_keeps [keeps]: "keepsK fs_typed debug_lock (\<lambda>_. True)" "keepsK fs_typed debug_unlock (\<lambda>_. True)"
proof -
  show "keepsK fs_typed debug_lock (\<lambda>_. True)" unfolding debug_lock_def
    by (rule keeps_bind, rule keeps) (auto simp: keepsK_def split: sum.splits)
  show "keepsK fs_typed debug_unlock (\<lambda>_. True)" unfolding debug_unlock_def
    by ((rule keeps_bind, rule keeps) | rule comb | (rule keepsK_mono, rule keeps) | (simp; fail))+
qed

lemma vdprintf_keeps [keeps]: "keepsK fs_typed (vdprintf fmt ap) (\<lambda>_. True)"
  unfolding vdprintf_def
  by ((rule keeps_bind, rule keeps) | rule comb | (rule keepsK_mono, rule keeps) | (simp; fail))+

lemma debug_keeps [keeps]:
  "keepsK fs_typed (dprintf fmt ap) (\<lambda>_. True)" "keepsK fs_typed (debug_info fmt ap) (\<lambda>_. True)"
  "keepsK fs_typed (debug_warn fname line fmt ap) (\<lambda>_. True)" "keepsK fs_typed (kern_info msg) (\<lambda>_. True)"
  unfolding dprintf_def debug_info_def debug_warn_def debug_message_def kern_info_def
  by ((rule keeps_bind, rule keeps) | rule comb | (rule keepsK_mono, rule keeps) | (simp; fail))+

lemma kbd_proc_data_keeps [keeps]: "keepsK fs_typed kbd_proc_data (\<lambda>_. True)"
  unfolding kbd_proc_data_def
  by ((rule keeps_bind, rule keeps) | rule comb | (rule keepsK_mono, rule keeps) | (simp; fail))+

lemma cons_intr_loop_keeps [comb]: "keepsK fs_typed m (\<lambda>_. True) \<Longrightarrow> keepsK fs_typed (cons_intr_loop n m) (\<lambda>_. True)"
  by (induction n; simp only: cons_intr_loop.simps, (assumption | ((rule keeps_bind, rule keeps) | rule comb | (rule keepsK_mono, rule keeps) | (simp; fail))+)+)

lemma getchar_keeps [keeps]:
  "keepsK fs_typed getchar (\<lambda>_. True)" "keepsK fs_typed (putchar c) (\<lambda>_. True)" "keepsK fs_typed (set_line i c) (\<lambda>_. True)"
  unfolding getchar_def putchar_def set_line_def cons_getc_def serial_intr_def keyboard_intr_def cons_intr_def
  by ((rule keeps_bind, rule keeps) | rule comb | (rule keepsK_mono, rule keeps) | (simp; fail))+

lemma readline_loop_keeps [keeps]: "keepsK fs_typed (readline_loop n i) (\<lambda>_. True)"
  by (induction n arbitrary: i; simp only: readline_loop.simps, ((rule keeps_bind, rule keeps) | rule comb | (rule keepsK_mono, rule keeps) | (simp; fail))+)

lemma readline_keeps [keeps]: "keepsK fs_typed (readline p) (\<lambda>_. True)"
  unfolding readline_def
  by ((rule keeps_bind, rule keeps) | rule comb | (rule keepsK_mono, rule keeps) | (simp; fail))+

lemma frame_keeps [keeps]:
  "keepsK fs_typed (syscall_get_arg1 p) (\<lambda>_. True)" "keepsK fs_typed (syscall_get_arg2 p) (\<lambda>_. True)"
  "keepsK fs_typed (syscall_get_arg3 p) (\<lambda>_. True)" "keepsK fs_typed (syscall_get_arg4 p) (\<lambda>_. True)"
  "keepsK fs_typed (syscall_set_errno p v) (\<lambda>_. True)" "keepsK fs_typed (syscall_set_retval1 p v) (\<lambda>_. True)"
  "keepsK fs_typed (sys_return p e v) (\<lambda>_. True)"
  unfolding syscall_get_arg1_def syscall_get_arg2_def syscall_get_arg3_def syscall_get_arg4_def syscall_set_errno_def
    syscall_set_retval1_def sys_return_def upd_frame_def
  by ((rule keeps_bind, rule keeps) | rule comb | (rule keepsK_mono, rule keeps) | (simp; fail))+

lemma proc_keeps [keeps]: "keepsK fs_typed (proc_create e q) (\<lambda>_. True)"
  unfolding proc_create_def seg_init_proc_def Let_def
  by ((rule keeps_bind, rule keeps) | rule comb | (rule keepsK_mono, rule keeps) | (simp; fail))+

section \<open>System calls\<close>

lemma path_keeps [keeps]:
  "keepsK fs_typed (copyin_path k u) (\<lambda>_. True)"
  "keepsK fs_typed (write_buf a xs) (\<lambda>_. True)"
  "keepsK fs_typed (upd_nlink ip g) (\<lambda>_. True)"
  unfolding copyin_path_def write_buf_def upd_nlink_def
  by ((rule keeps_bind, rule keeps) | rule comb | (rule keepsK_mono, rule keeps) | (simp; fail))+

lemma open_file_keeps [keeps]: "keepsK fs_typed (open_file pid fd) (below NFILE)"
  unfolding open_file_def
  by ((rule keeps_bind, rule keeps) | rule comb | (rule keepsK_mono, rule keeps) | (simp; fail))+

lemma live_file_keeps [keeps]:
  "keepsK fs_typed (live_file pid fd) (below NFILE)"
  "f < NFILE \<Longrightarrow> keepsK fs_typed (fdalloc f) (\<lambda>_. True)"
  unfolding live_file_def fdalloc_def
  by ((rule keeps_bind, rule keeps) | rule comb | (rule keepsK_mono, rule keeps) | (simp; fail))+

lemma sys_read_keeps [keeps]:
  "keepsK fs_typed (sys_read p) (\<lambda>_. True)"
  unfolding sys_read_def
  by ((rule keeps_bind, rule keeps) | rule comb | (rule keepsK_mono, rule keeps) | (simp; fail))+

lemma sys_write_keeps [keeps]:
  "keepsK fs_typed (sys_write p) (\<lambda>_. True)"
  unfolding sys_write_def
  by ((rule keeps_bind, rule keeps) | rule comb | (rule keepsK_mono, rule keeps) | (simp; fail))+

lemma sys_close_keeps [keeps]:
  "keepsK fs_typed (sys_close p) (\<lambda>_. True)"
  unfolding sys_close_def
  by ((rule keeps_bind, rule keeps) | rule comb | (rule keepsK_mono, rule keeps) | (simp; fail))+

lemma sys_fstat_keeps [keeps]:
  "keepsK fs_typed (sys_fstat p) (\<lambda>_. True)"
  unfolding sys_fstat_def
  by ((rule keeps_bind, rule keeps) | rule comb | (rule keepsK_mono, rule keeps) | (simp; fail))+

lemma link_bad_keeps [keeps]:
  "keepsK fs_typed (link_bad p ip) (\<lambda>_. True)"
  "keepsK fs_typed (unlink_bad p ip) (\<lambda>_. True)"
  "keepsK fs_typed (unlink_entry p dp ip off) (\<lambda>_. True)"
  unfolding link_bad_def unlink_bad_def unlink_entry_def
  by ((rule keeps_bind, rule keeps) | rule comb | (rule keepsK_mono, rule keeps) | (simp; fail))+

lemma sys_link_keeps [keeps]:
  "keepsK fs_typed (sys_link p) (\<lambda>_. True)"
  unfolding sys_link_def
  by ((rule keeps_bind, rule keeps) | rule comb | (rule keepsK_mono, rule keeps) | (simp; fail))+

lemma isdirempty_loop_keeps [keeps]: "keepsK fs_typed (isdirempty_loop k dp off) (\<lambda>_. True)"
  by (induction k arbitrary: off; simp only: isdirempty_loop.simps, ((rule keeps_bind, rule keeps) | rule comb | (rule keepsK_mono, rule keeps) | (simp; fail))+)

lemma isdirempty_keeps [keeps]:
  "keepsK fs_typed (isdirempty dp) (\<lambda>_. True)"
  unfolding isdirempty_def
  by ((rule keeps_bind, rule keeps) | rule comb | (rule keepsK_mono, rule keeps) | (simp; fail))+

lemma sys_unlink_keeps [keeps]:
  "keepsK fs_typed (sys_unlink p) (\<lambda>_. True)"
  unfolding sys_unlink_def
  by ((rule keeps_bind, rule keeps) | rule comb | (rule keepsK_mono, rule keeps) | (simp; fail))+

lemma create_dots_keeps [keeps]:
  "keepsK fs_typed (create_dots dp ip) (\<lambda>_. True)"
  unfolding create_dots_def
  by ((rule keeps_bind, rule keeps) | rule comb | (rule keepsK_mono, rule keeps) | (simp; fail))+

lemma create_new_keeps [keeps]:
  "keepsK fs_typed (create_new dp name ty maj mnr) (\<lambda>ip. ip < NINODE)"
  unfolding create_new_def
  by ((rule keeps_bind, rule keeps) | rule comb | (rule keepsK_mono, rule keeps) | (simp; fail))+

lemma create_keeps [keeps]:
  "keepsK fs_typed (create path ty maj mnr) (below NINODE)"
  unfolding create_def
  by ((rule keeps_bind, rule keeps) | rule comb | (rule keepsK_mono, rule keeps) | (simp; fail))+

lemma open_inode_keeps [keeps]:
  "keepsK fs_typed (open_inode p path omode) (below NINODE)"
  unfolding open_inode_def
  by ((rule keeps_bind, rule keeps) | rule comb | (rule keepsK_mono, rule keeps) | (simp; fail))+

lemma sys_open_keeps [keeps]:
  "keepsK fs_typed (sys_open p) (\<lambda>_. True)"
  unfolding sys_open_def
  by ((rule keeps_bind, rule keeps) | rule comb | (rule keepsK_mono, rule keeps) | (simp; fail))+

lemma sys_mkdir_keeps [keeps]:
  "keepsK fs_typed (sys_mkdir p) (\<lambda>_. True)"
  "keepsK fs_typed (sys_chdir p) (\<lambda>_. True)"
  unfolding sys_mkdir_def sys_chdir_def
  by ((rule keeps_bind, rule keeps) | rule comb | (rule keepsK_mono, rule keeps) | (simp; fail))+

lemma sys_puts_loop_keeps [keeps]: "keepsK fs_typed (sys_puts_loop k p c q r) (\<lambda>_. True)"
  by (induction k arbitrary: q r; simp only: sys_puts_loop.simps sys_buf_of_def, ((rule keeps_bind, rule keeps) | rule comb | (rule keepsK_mono, rule keeps) | (simp; fail))+)

lemma sys_puts_keeps [keeps]:
  "keepsK fs_typed (sys_puts p) (\<lambda>_. True)"
  "keepsK fs_typed (sys_spawn p) (\<lambda>_. True)"
  "keepsK fs_typed (sys_yield p) (\<lambda>_. True)"
  "keepsK fs_typed (sys_dir p) (\<lambda>_. True)"
  "keepsK fs_typed (sys_readline p) (\<lambda>_. True)"
  unfolding sys_puts_def sys_spawn_def sys_yield_def sys_dir_def sys_readline_def
  by ((rule keeps_bind, rule keeps) | rule comb | (rule keepsK_mono, rule keeps) | (simp; fail))+

lemma sys_ls_loop_keeps [keeps]: "keepsK fs_typed (sys_ls_loop k dp off b) (\<lambda>_. True)"
  by (induction k arbitrary: off b; simp only: sys_ls_loop.simps, ((rule keeps_bind, rule keeps) | rule comb | (rule keepsK_mono, rule keeps) | (simp; fail))+)

lemma pwd_name_keeps [keeps]: "keepsK fs_typed (pwd_name k up inum lvl arr off) (\<lambda>_. True)"
  by (induction k arbitrary: off; simp only: pwd_name.simps, ((rule keeps_bind, rule keeps) | rule comb | (rule keepsK_mono, rule keeps) | (simp; fail))+)

lemma lookup_parent_keeps [keeps]: "keepsK fs_typed (lookup_parent dp) (\<lambda>_. True)"
  unfolding lookup_parent_def
  by ((rule keeps_bind, rule keeps) | rule comb | (rule keepsK_mono, rule keeps) | (simp; fail))+

lemma pwd_up_keeps [keeps]: "keepsK fs_typed (pwd_up k cur up lvl arr) (\<lambda>_. True)"
  by (induction k arbitrary: cur up lvl arr; simp only: pwd_up.simps, ((rule keeps_bind, rule keeps) | rule comb | (rule keepsK_mono, rule keeps) | (simp; fail))+)

lemma pwd_write_keeps [keeps]: "keepsK fs_typed (pwd_write rows q) (\<lambda>_. True)"
  by (induction rows arbitrary: q; simp only: pwd_write.simps, ((rule keeps_bind, rule keeps) | rule comb | (rule keepsK_mono, rule keeps) | (simp; fail))+)

lemma sys_ls_keeps [keeps]:
  "keepsK fs_typed (sys_ls p) (\<lambda>_. True)"
  "keepsK fs_typed (sys_pwd p) (\<lambda>_. True)"
  unfolding sys_ls_def sys_pwd_def sys_buf_of_def Let_def
  by ((rule keeps_bind, rule keeps) | rule comb | (rule keepsK_mono, rule keeps) | (simp; fail))+

lemma syscall_dispatch_keeps [keeps]:
  "keepsK fs_typed (syscall_dispatch p) (\<lambda>_. True)"
  unfolding syscall_dispatch_def
  by ((rule keeps_bind, rule keeps) | rule comb | (rule keepsK_mono, rule keeps) | (simp; fail))+

lemma exception_keeps [keeps]:
  "keepsK fs_typed (exception_handler p) (\<lambda>_. True)"
  unfolding exception_handler_def pgflt_handler_def default_exception_handler_def
  by ((rule keeps_bind, rule keeps) | rule comb | (rule keepsK_mono, rule keeps) | (simp; fail))+

lemma eoi_keeps [keeps]: "keepsK fs_typed lapic_eoi (\<lambda>_. True)" "keepsK fs_typed pic_eoi (\<lambda>_. True)"
  by (auto simp: keepsK_def lapic_eoi_def lapic_write_def pic_eoi_def outb_def monad_defs split: if_splits)

lemma sched_update_keeps [keeps]:
  "keepsK fs_typed (sched_update) (\<lambda>_. True)"
  "keepsK fs_typed (intr_eoi) (\<lambda>_. True)"
  unfolding sched_update_def intr_eoi_def
  by ((rule keeps_bind, rule keeps) | rule comb | (rule keepsK_mono, rule keeps) | (simp; fail))+

lemma interrupt_keeps [keeps]:
  "keepsK fs_typed (interrupt_handler p) (\<lambda>_. True)"
  unfolding interrupt_handler_def spurious_intr_handler_def timer_intr_handler_def default_intr_handler_def
  by ((rule keeps_bind, rule keeps) | rule comb | (rule keepsK_mono, rule keeps) | (simp; fail))+

lemma run_handler_keeps [keeps]: "keepsK fs_typed (run_handler h p) (\<lambda>_. True)"
  by (cases h; simp only: run_handler_def handler.simps; rule keeps)

lemma trap_exit_keeps [keeps]:
  "keepsK fs_typed (trap_exit cur cpu lst p) (\<lambda>_. True)"
  "keepsK fs_typed (no_handler cur p) (\<lambda>_. True)"
  "keepsK fs_typed (set_last_active c q) (\<lambda>_. True)"
  "keepsK fs_typed (set_pdir_base q) (\<lambda>_. True)"
  unfolding trap_exit_def no_handler_def set_last_active_def set_pdir_base_def set_cr3_def kstack_switch_def trap_return_def get_pcpu_kstack_pointer_def
  by ((rule keeps_bind, rule keeps) | rule comb | (rule keepsK_mono, rule keeps) | (simp; fail))+

lemma trap_keeps [keeps]:
  "keepsK fs_typed (trap p) (\<lambda>_. True)"
  unfolding trap_def
  by ((rule keeps_bind, rule keeps) | rule comb | (rule keepsK_mono, rule keeps) | (simp; fail))+

section \<open>Property\<close>

text \<open>Process 1 calls \<open>sys_close\<close> on descriptor 3, which is not open.\<close>

definition demo_frame :: tf_t where
  "demo_frame = \<lparr>tf_edi = 0, tf_esi = 0, tf_ebp = 0, tf_oesp = 0, tf_ebx = 3, tf_edx = 0, tf_ecx = 0, tf_eax = 4, tf_es = 0,
     tf_ds = 0, tf_trapno = 48, tf_err = 0, tf_eip = 0, tf_cs = 0, tf_eflags = 0, tf_esp = 0, tf_ss = 0\<rparr>"

definition demo_proc :: proc where
  "demo_proc = hw.extend demo_hw (proc.fields (\<lambda>_. demo_frame) (\<lambda>_. demo_frame) demo_frame (\<lambda>_. 1) (\<lambda>_. handler_for) True 0
     (\<lambda>_. gdt_of 0) (\<lambda>_. \<lparr>ts_esp0 = 0, ts_ss0 = 0, ts_iomb = 0, ts_iopm = []\<rparr>) 0 True 0 (\<lambda>_. 0) 0 0 (\<lambda>_. 0))"

lemma demo_proc_fields:
  "cpu_ok demo_proc" "cur_kstack demo_proc = \<lparr>ks_cpu_idx = 0, ks_magic = KSTACK_MAGIC\<rparr>" "CURID demo_proc c = 1"
  "TCBPool demo_proc 1 = demo_tcb 1" "last_active demo_proc c = 1" "TRAP_HANDLER demo_proc c = handler_for"
  "tframe demo_proc p = demo_frame" "cpu_idx (pcpu_tab demo_proc 0) = 0"
  by (simp_all add: demo_proc_def hw.defs proc.defs demo_hw_def con.defs demo_con_def demo_fs_def fs.defs demo_thr_def vmm.defs thr.defs vmm_start_def
      container.defs vmm.defs ctr_start_def mat.defs mat_start_def base_start_def mboot.defs mboot_start_def base.defs cpu_ok_def NUM_CPUS_def)

lemma demo_proc_typed: "fs_typed demo_proc"
  by (auto simp: fs_typed_def demo_proc_def hw.defs proc.defs demo_hw_def con.defs demo_con_def demo_fs_def fs.defs demo_thr_def vmm.defs thr.defs
      tcb_typed_def demo_tcb_def)



end
