(* ===== verification/PageFault.thy ===== *)
theory PageFault
  imports FsTypes
begin

text \<open>
  Page faults of user processes, from the trap through \<open>pgflt_handler\<close> and the memory layers back to user
  mode: the properties of the page tables and of the kernel's entry composed.
\<close>

section \<open>What the memory layers look at\<close>

text \<open>States of different layers with the same values of these fields have the same address spaces.\<close>

definition vm_view :: "'a vmm_scheme \<Rightarrow> kstack \<times> (u32 \<Rightarrow> pcpu) \<times> (lock_id \<Rightarrow> spinlock_t) \<times> u32 \<times> (u32 \<Rightarrow> ATStruct) \<times> u32 \<times>
    ctr_table \<times> memory \<times> u32 \<times> (u32 \<Rightarrow> u32 \<Rightarrow> u32)" where
  "vm_view s = (cur_kstack s, pcpu_tab s, locks s, NUM_PAGES s, AT s, last_palloc_index s, CONTAINER s, mem s, IDPTbl_addr s, PDirPool s)"

lemma vm_view_slots: "vm_view s = vm_view t \<Longrightarrow> slot_page s a = slot_page t a"
  by (cases a) (simp_all add: vm_view_def tbl_page_def mapping_def entry_def entry_addr_def)

lemma vm_view_free: "vm_view s = vm_view t \<Longrightarrow> free_pages s = free_pages t"
  by (simp add: vm_view_def free_pages_def norm_free_def)

lemma vm_view_inv:
  assumes "vm_view s = vm_view t"
  shows "vm_inv s = vm_inv t"
proof -
  have "slots_ok s = slots_ok t"
    using vm_view_slots [OF assms] vm_view_free [OF assms] assms by (simp add: slots_ok_def norm_pages_def vm_view_def)
  moreover have "ctr_inv s = ctr_inv t"
    using vm_view_free [OF assms] assms by (simp add: ctr_inv_def mat_inv_def cpu_ok_def vm_view_def)
  moreover have "pdes_ok s = pdes_ok t" "identity_ok s = identity_ok t"
    using assms by (simp_all add: vm_view_def pdes_ok_def identity_ok_def idptbl_row_def idptbl_placed_def)
  ultimately show ?thesis by (simp add: vm_inv_def)
qed

lemma vm_view_translate:
  "vm_view s = vm_view t \<Longrightarrow> user_translate s q va = user_translate t q va"
  "vm_view s = vm_view t \<Longrightarrow> pages_needed s p va = pages_needed t p va"
  "vm_view s = vm_view t \<Longrightarrow> page_quota_left s p = page_quota_left t p"
  by (simp_all add: vm_view_def user_translate_def pde_at_def pte_at_def pte_addr_def pages_needed_def has_table_def
      page_quota_left_def)

section \<open>What they leave alone\<close>

definition upper :: "'a proc_scheme \<Rightarrow> kstack \<times> (u32 \<Rightarrow> pcpu) \<times> u32 \<times> (u32 \<Rightarrow> u32) \<times> (u32 \<Rightarrow> tf_t) \<times> tf_t" where
  "upper s = (cur_kstack s, pcpu_tab s, PDirPool_addr s, CURID s, tframe s, user_regs s)"

interpretation upper: vm_frame "\<lambda>s. upper s = c" for c
  by unfold_locales (simp_all add: upper_def)

lemma alloc_page_upper: "alloc_page p va prm s = Inr (r, s') \<Longrightarrow> upper s' = upper s"
  by (rule upper.page_keeps(1) [unfolded keepsK_def, rule_format, OF refl, THEN conjunct1])

section \<open>The way into the handler and back\<close>

definition on_entry :: "'a proc_scheme \<Rightarrow> 'a proc_scheme" where
  "on_entry s = s\<lparr>cr3 := PDirPool_addr s, last_active := (last_active s)(this_cpu s := 0)\<rparr>"

lemma on_entry_view: "vm_view (on_entry s) = vm_view s" "upper (on_entry s) = upper s"
  by (simp_all add: on_entry_def vm_view_def upper_def)

lemma trap_exception_run:
  assumes "cpu_ok s" "CURID s (this_cpu s) = p" "last_active s (this_cpu s) = p" "user_proc p"
    and "unat (tf_trapno (tframe s p)) = T_PGFLT" "TRAP_HANDLER s (this_cpu s) T_PGFLT = Some ExceptionHandler"
  shows "trap p s = seqK (exception_handler p) (bindK get_curid (\<lambda>now.
      if now = p then trap_exit p (this_cpu s) p p else returnK ())) (on_entry s)"
  using assms
  by (simp add: trap_def get_curid_def get_pcpu_idx_ok monad_defs set_pdir_base_def set_cr3_def set_last_active_def
    run_handler_def trapno_defs NUM_IDS_def user_proc_def on_entry_def)

lemma pgflt_run:
  assumes "cpu_ok s" "CURID s (this_cpu s) = p" "unat (tf_trapno (tframe s p)) = T_PGFLT" "tf_err (tframe s p) AND PFE_PR = 0"
    and "alloc_page p (cr2 s) PT_PERM_PTU s = Inr (r, s')" "r \<noteq> MagicNumber"
  shows "exception_handler p s = Inr ((), s')"
proof -
  have "PTE_W OR PTE_U OR PTE_P = PT_PERM_PTU" by (simp add: PTE_P_def PTE_W_def PTE_U_def PT_PERM_PTU_def)
  with assms show ?thesis
    by (simp add: exception_handler_def pgflt_handler_def get_curid_def get_pcpu_idx_ok monad_defs T_PGFLT_def)
qed

lemma trap_exit_run:
  assumes "cpu_ok s" "p < NUM_IDS" "p \<noteq> 0"
  obtains s' where "trap_exit p (this_cpu s) p p s = Inr ((), s')" "vm_view s' = vm_view s" "CURID s' = CURID s"
    "user_regs s' = load_frame (tframe s p) (user_regs s)" "cr3 s' = PDirPool_addr s + p * 4096"
proof -
  let ?ks = "kstack_ptr (pcpu_tab s (this_cpu s))"
  let ?s = "s\<lparr>ks_tss := (ks_tss s)(?ks := (ks_tss s ?ks)\<lparr>ts_esp0 := kstack_hi s p, ts_ss0 := CPU_GDT_KDATA\<rparr>),
    ks_gdt := (ks_gdt s)(?ks := (ks_gdt s ?ks)[5 := tss_desc (kstack_addr s p)]),
    cr3 := PDirPool_addr s + p * 4096, last_active := (last_active s)(this_cpu s := p),
    user_regs := load_frame (tframe s p) (user_regs s)\<rparr>"
  have "trap_exit p (this_cpu s) p p s = Inr ((), ?s)"
    using assms by (simp add: trap_exit_def get_pcpu_idx_ok monad_defs kstack_switch_def get_pcpu_kstack_pointer_def
      set_pdir_base_def set_cr3_def set_last_active_def trap_return_def)
  then show thesis by (rule that) (simp_all add: vm_view_def)
qed

section \<open>Property\<close>

text \<open>C39: a process that touches an address of its own that is not mapped yet gets a page and goes on.  With quota
  for the page and, if needed, its page table, the trap returns to user mode with the registers of the process
  unchanged and its page directory loaded; the page of the faulting address translates into one
  fresh physical page, every other translation of every process is as before, and the ownership invariant
  holds again.\<close>

theorem page_fault_handled:
  assumes "vm_inv s" "CURID s (this_cpu s) = p" "last_active s (this_cpu s) = p" "user_proc p" "is_used (CONTAINER s) p"
    and "unat (tf_trapno (tframe s p)) = T_PGFLT" "TRAP_HANDLER s (this_cpu s) T_PGFLT = Some ExceptionHandler"
    and "tf_err (tframe s p) AND PFE_PR = 0" "user_va (cr2 s)" "pages_needed s p (cr2 s) \<le> page_quota_left s p"
  shows "\<exists>pg s'. trap p s = Inr ((), s') \<and> user_regs s' = load_frame (tframe s p) (user_regs s) \<and>
    cr3 s' = PDirPool_addr s + p * 4096 \<and> CURID s' = CURID s \<and> pg \<in> free_pages s \<and> vm_inv s' \<and>
    (\<forall>q va. user_proc q \<longrightarrow> user_translate s' q va =
      (if q = p \<and> page_of va = page_of (cr2 s) then Some (page_start pg + (va AND 0xfff)) else user_translate s q va))"
proof -
  let ?s1 = "on_entry s"
  have cpu: "cpu_ok s" using assms(1) by (simp add: vm_inv_def ctr_inv_def mat_inv_def)
  have p: "p < NUM_IDS" "p \<noteq> 0" using assms(4) by (simp_all add: user_proc_def)
  have "vm_inv ?s1" using assms(1) vm_view_inv [OF on_entry_view(1) [of s]] by simp
  then obtain r pg s2 where s2: "alloc_page p (cr2 s) PT_PERM_PTU ?s1 = Inr (r, s2)" "r \<noteq> MagicNumber" "pg \<in> free_pages ?s1" "vm_inv s2"
      "\<forall>q va. user_proc q \<longrightarrow> user_translate s2 q va =
        (if q = p \<and> page_of va = page_of (cr2 s) then Some (page_start pg + (va AND 0xfff)) else user_translate ?s1 q va)"
    using alloc_page_translates [of ?s1 p "cr2 s"] assms(4,5,9,10) vm_view_translate(2,3) [OF on_entry_view(1) [of s]]
    by (auto simp: on_entry_def)
  have now: "cpu_ok s2" "this_cpu s2 = this_cpu s" "CURID s2 = CURID s" "tframe s2 = tframe s" "user_regs s2 = user_regs s"
      "PDirPool_addr s2 = PDirPool_addr s"
    using alloc_page_upper [OF s2(1)] on_entry_view(2) [of s] cpu by (simp_all add: upper_def cpu_ok_def this_cpu_def)
  have handler: "exception_handler p ?s1 = Inr ((), s2)"
    using cpu assms(2,6,8) s2(1) by (intro pgflt_run [OF _ _ _ _ _ s2(2)]) (simp_all add: on_entry_def cpu_ok_def this_cpu_def)
  obtain s' where s': "trap_exit p (this_cpu s) p p s2 = Inr ((), s')" "vm_view s' = vm_view s2" "CURID s' = CURID s"
      "user_regs s' = load_frame (tframe s p) (user_regs s)" "cr3 s' = PDirPool_addr s + p * 4096"
    using trap_exit_run [OF now(1) p] now by metis
  have "trap p s = Inr ((), s')"
    unfolding trap_exception_run [OF cpu assms(2,3,4,6,7)] using handler s'(1) now assms(2) this_cpu_less [OF cpu]
    by (simp add: get_curid_def get_pcpu_idx_ok monad_defs)
  moreover have "vm_inv s'" using vm_view_inv [OF s'(2)] s2(4) by simp
  moreover have "pg \<in> free_pages s" using s2(3) vm_view_free [OF on_entry_view(1) [of s]] by auto
  ultimately show ?thesis
    using s2(5) s'(3-5) vm_view_translate(1) [OF s'(2)] vm_view_translate(1) [OF on_entry_view(1) [of s]] by auto
qed

text \<open>The demonstration machine of the page tables, with the rest of the kernel around it.\<close>

definition demo_fault :: proc where
  "demo_fault = (vmm.extend demo_vm (vmm.more demo_proc))\<lparr>cr2 := 0x40001234, tframe := \<lambda>_. demo_frame\<lparr>tf_trapno := 14\<rparr>\<rparr>"

theorem page_fault_handled_witness:
  "\<exists>pg s'. trap 1 demo_fault = Inr ((), s') \<and> pg \<in> {0x40000, 0x40002} \<and> user_translate s' 1 0x40001678 = Some (page_start pg + 0x678)"
proof -
  have view: "vm_view demo_fault = vm_view demo_vm" by (simp add: demo_fault_def vm_view_def vmm.defs)
  have fields: "CURID demo_fault c = 1" "last_active demo_fault c = 1" "TRAP_HANDLER demo_fault c = handler_for" "cr2 demo_fault = 0x40001234"
      "tframe demo_fault 1 = demo_frame\<lparr>tf_trapno := 14\<rparr>" for c
    by (simp_all add: demo_fault_def vmm.defs demo_proc_def hw.defs proc.defs demo_hw_def con.defs demo_con_def demo_fs_def fs.defs demo_thr_def thr.defs)
  have inv: "vm_inv demo_fault" "free_pages demo_fault = {0x40000, 0x40002}" "is_used (CONTAINER demo_fault) 1"
      "pages_needed demo_fault 1 (cr2 demo_fault) \<le> page_quota_left demo_fault 1" "user_va (cr2 demo_fault)"
    using demo_vm_facts(1,3,4) demo_vm_alloc(1,2) vm_view_inv [OF view] vm_view_free [OF view] vm_view_translate(2,3) [OF view] view
    by (simp_all add: fields vm_view_def)
  have frame: "unat (tf_trapno (tframe demo_fault 1)) = T_PGFLT" "tf_err (tframe demo_fault 1) AND PFE_PR = 0"
      "TRAP_HANDLER demo_fault (this_cpu demo_fault) T_PGFLT = Some ExceptionHandler"
    by (simp_all add: fields demo_frame_def handler_for_def trapno_defs)
  obtain pg s' where s': "trap 1 demo_fault = Inr ((), s')" "pg \<in> {0x40000, 0x40002}"
      "\<forall>q va. user_proc q \<longrightarrow> user_translate s' q va = (if q = 1 \<and> page_of va = page_of (cr2 demo_fault)
        then Some (page_start pg + (va AND 0xfff)) else user_translate demo_fault q va)"
    using page_fault_handled [OF inv(1) fields(1,2) demo_vm_facts(2) inv(3) frame(1,3,2) inv(5,4)] inv(2) by auto
  have "page_of (0x40001678::u32) = page_of 0x40001234" "(0x40001678::u32) AND 0xfff = 0x678"
    by (simp_all add: page_of_def)
  with s' demo_vm_facts(2) show ?thesis by (auto simp: fields)
qed

end
