(* ===== verification/SmpScan.thy ===== *)
theory SmpScan
  imports Smp
begin

text \<open>
  What the scan of the ACPI table of interrupt controllers does: the table is seen as the list of its
  entries, and the scan registers exactly the processors and the I/O controllers in it.
\<close>

section \<open>Entries and their bytes\<close>

datatype madt_ent = Lapic u8 u8 u32 | Ioapic u8 u8 u32 u32 | Other u8 bytes

fun ent_bytes :: "madt_ent \<Rightarrow> bytes" where
  "ent_bytes (Lapic pid i fl) = [ACPI_MADT_APIC_LAPIC, 8, pid, i] @ bytes32 fl"
| "ent_bytes (Ioapic i r a g) = [ACPI_MADT_APIC_IOAPIC, 12, i, r] @ bytes32 a @ bytes32 g"
| "ent_bytes (Other t b) = [t, word_of_nat (length b + 2)] @ b"

fun ent_ok :: "madt_ent \<Rightarrow> bool" where
  "ent_ok (Other t b) \<longleftrightarrow> t \<noteq> ACPI_MADT_APIC_LAPIC \<and> t \<noteq> ACPI_MADT_APIC_IOAPIC \<and> length b + 2 < 256"
| "ent_ok e \<longleftrightarrow> True"

definition madt_bytes :: "madt_ent list \<Rightarrow> bytes" where
  "madt_bytes es = concat (map ent_bytes es)"

fun enabled_ids :: "madt_ent list \<Rightarrow> u8 list" where
  "enabled_ids (Lapic pid i fl # es) = (if fl AND ACPI_APIC_ENABLED \<noteq> 0 then i # enabled_ids es else enabled_ids es)"
| "enabled_ids (e # es) = enabled_ids es"
| "enabled_ids [] = []"

fun ioapic_ents :: "madt_ent list \<Rightarrow> ioapic_ent list" where
  "ioapic_ents (Ioapic i r a g # es) = \<lparr>io_base = a, io_id = i, io_gsi = g\<rparr> # ioapic_ents es"
| "ioapic_ents (e # es) = ioapic_ents es"
| "ioapic_ents [] = []"

text \<open>The table of processors with the ids \<open>is\<close> registered from index \<open>k\<close> on.\<close>

definition cpu_table :: "nat \<Rightarrow> u8 list \<Rightarrow> (u32 \<Rightarrow> pcpuinfo) \<Rightarrow> u32 \<Rightarrow> pcpuinfo" where
  "cpu_table k is info c = (if c < NUM_CPUS \<and> k \<le> unat c \<and> unat c < k + length is
     then (info c)\<lparr>pi_lapicid := ucast (is ! (unat c - k)), pi_bsp := (c = 0)\<rparr> else info c)"

section \<open>Reading an entry\<close>

lemma length_load_bytes [simp]: "length (load_bytes m a n) = n"
  by (simp add: load_bytes_def)

lemma load_bytes_append: "load_bytes m p (a + b) = load_bytes m p a @ load_bytes m (p + word_of_nat a) b"
proof (rule nth_equalityI)
  fix i assume "i < length (load_bytes m p (a + b))"
  then have i: "i < a + b" by simp
  show "load_bytes m p (a + b) ! i = (load_bytes m p a @ load_bytes m (p + word_of_nat a) b) ! i"
  proof (cases "i < a")
    case False
    then have "p + word_of_nat a + word_of_nat (i - a) = p + word_of_nat i" by (simp add: of_nat_diff)
    with i False show ?thesis by (simp add: load_bytes_def nth_append)
  qed (simp add: load_bytes_def nth_append i)
qed simp

lemma load_bytes_prefix:
  assumes "load_bytes m p (length (xs @ ys)) = xs @ ys"
  shows "load_bytes m p (length xs) = xs" "load_bytes m (p + word_of_nat (length xs)) (length ys) = ys"
  using assms by (simp_all add: load_bytes_append)

lemma load_bytes_nth: "load_bytes m p (length xs) = xs \<Longrightarrow> i < length xs \<Longrightarrow> m (p + word_of_nat i) = xs ! i"
proof -
  assume "load_bytes m p (length xs) = xs" and i: "i < length xs"
  then have "xs ! i = load_bytes m p (length xs) ! i" by simp
  with i show ?thesis by (simp add: load_bytes_def)
qed

lemma load32_bytes32:
  assumes "m a = x ! 0" "m (a + 1) = x ! 1" "m (a + 2) = x ! 2" "m (a + 3) = x ! 3" "x = bytes32 v"
  shows "load32 m a = v"
  using assms bytes_of_word [of v] by (simp add: load32_def bytes32_def)

lemma ent_bytes_at:
  assumes "load_bytes m p (length (ent_bytes e)) = ent_bytes e"
  shows "m p = ent_bytes e ! 0" "i < length (ent_bytes e) \<Longrightarrow> m (p + word_of_nat i) = ent_bytes e ! i"
proof -
  show at: "i < length (ent_bytes e) \<Longrightarrow> m (p + word_of_nat i) = ent_bytes e ! i" for i
    by (rule load_bytes_nth [OF assms])
  have "0 < length (ent_bytes e)" by (cases e) simp_all
  from at [OF this] show "m p = ent_bytes e ! 0" by simp
qed

lemma ent_length_field:
  assumes "load_bytes m p (length (ent_bytes e)) = ent_bytes e" "ent_ok e"
  shows "ucast (m (p + 1)) = (word_of_nat (length (ent_bytes e)) :: u32)" "0 < length (ent_bytes e)"
proof -
  have "1 < length (ent_bytes e)" by (cases e) simp_all
  from ent_bytes_at(2) [OF assms(1) this] have "m (p + 1) = ent_bytes e ! 1" by simp
  moreover have "unat (ent_bytes e ! 1) = length (ent_bytes e)"
    using assms(2) by (cases e) (simp_all add: unat_of_nat unat_word_ariths bytes32_def)
  ultimately show "ucast (m (p + 1)) = (word_of_nat (length (ent_bytes e)) :: u32)"
    by (metis of_nat_unat)
  show "0 < length (ent_bytes e)" using \<open>1 < length (ent_bytes e)\<close> by linarith
qed

text \<open>The state after one entry, when \<open>k\<close> processors are registered, and the variables of the loop.\<close>

definition after :: "nat \<Rightarrow> madt_ent \<Rightarrow> 'a hw_scheme \<Rightarrow> 'a hw_scheme" where
  "after k e s = s\<lparr>ncpu := ncpu s + word_of_nat (length (enabled_ids [e])), arch_info := cpu_table k (enabled_ids [e]) (arch_info s),
     ioapics := take MAX_IOAPIC (ioapics s @ ioapic_ents [e])\<rparr>"

definition next_ap :: "nat \<Rightarrow> u32" where
  "next_ap k = (if k = 0 then 1 else word_of_nat k)"

lemma cpu_table_Nil: "cpu_table k [] info = info"
  by (rule ext) (auto simp: cpu_table_def)

lemma cpu_table_single:
  assumes "k < 2 ^ 32"
  shows "cpu_table k [i] info = (if word_of_nat k < NUM_CPUS
    then info(word_of_nat k := (info (word_of_nat k))\<lparr>pi_lapicid := ucast i, pi_bsp := (k = 0)\<rparr>) else info)"
proof (rule ext)
  fix c :: u32
  have "k \<le> unat c \<and> unat c < k + 1 \<longleftrightarrow> c = word_of_nat k"
    using assms by (auto simp: word_unat_eq_iff unat_of_nat)
  moreover have "word_of_nat k = (0::u32) \<longleftrightarrow> k = 0" using assms by (simp add: word_unat_eq_iff unat_of_nat)
  ultimately show "cpu_table k [i] info c = (if word_of_nat k < NUM_CPUS
      then info(word_of_nat k := (info (word_of_nat k))\<lparr>pi_lapicid := ucast i, pi_bsp := (k = 0)\<rparr>) else info) c"
    by (auto simp: cpu_table_def)
qed

lemma madt_lapic_run:
  assumes "Suc k < 2 ^ 32"
  shows "madt_lapic i (0 < k) (next_ap k) s = Inr ((True, next_ap (Suc k)),
    s\<lparr>ncpu := ncpu s + 1, arch_info := cpu_table k [i] (arch_info s)\<rparr>)"
proof -
  have "k < 2 ^ 32" using assms by simp
  then show ?thesis
    by (cases k) (auto simp: madt_lapic_def next_ap_def pcpu_mp_init_cpu_def upd_info_def inc_ncpu_def monad_defs cpu_table_single NUM_CPUS_def)
qed

lemma madt_entry_run:
  assumes "load_bytes (mem s) p (length (ent_bytes e)) = ent_bytes e" "ent_ok e" "length (ioapics s) \<le> MAX_IOAPIC" "Suc k < 2 ^ 32"
  shows "madt_entry p (0 < k) (next_ap k) s =
    Inr ((0 < k + length (enabled_ids [e]), next_ap (k + length (enabled_ids [e]))), after k e s)"
proof (cases e)
  case (Lapic pid i fl)
  note at = ent_bytes_at(2) [OF assms(1)]
  have "load32 (mem s) (p + 4) = fl"
    by (rule load32_bytes32 [of _ _ "bytes32 fl"])
      (use at [of 4] at [of 5] at [of 6] at [of 7] Lapic in \<open>simp_all add: bytes32_def add.assoc\<close>)
  moreover have "mem s (p + 3) = i" using at [of 3] Lapic by simp
  ultimately show ?thesis
    using ent_bytes_at(1) [OF assms(1)] Lapic assms(3)
    by (simp add: madt_entry_def monad_defs after_def cpu_table_Nil madt_lapic_run [OF assms(4)])
next
  case (Ioapic i r a g)
  note at = ent_bytes_at(2) [OF assms(1)]
  have "load32 (mem s) (p + 4) = a" "load32 (mem s) (p + 8) = g"
    by (rule load32_bytes32 [of _ _ "bytes32 a"],
      use at [of 4] at [of 5] at [of 6] at [of 7] Ioapic in \<open>simp_all add: bytes32_def add.assoc\<close>)
      (rule load32_bytes32 [of _ _ "bytes32 g"],
      use at [of 8] at [of 9] at [of 10] at [of 11] Ioapic in \<open>simp_all add: bytes32_def add.assoc\<close>)
  moreover have "mem s (p + 2) = i" using at [of 2] Ioapic by simp
  ultimately show ?thesis
    using ent_bytes_at(1) [OF assms(1)] Ioapic assms(3)
    by (simp add: madt_entry_def monad_defs after_def cpu_table_Nil ioapic_register_def ACPI_MADT_APIC_LAPIC_def ACPI_MADT_APIC_IOAPIC_def)
next
  case (Other ty b)
  then show ?thesis
    using ent_bytes_at(1) [OF assms(1)] assms(2,3) by (simp add: madt_entry_def monad_defs after_def cpu_table_Nil)
qed

lemma enabled_ids_append: "enabled_ids (e # es) = enabled_ids [e] @ enabled_ids es" "ioapic_ents (e # es) = ioapic_ents [e] @ ioapic_ents es"
  by (cases e; simp)+

lemma cpu_table_append:
  "cpu_table (k + length is) js (cpu_table k is info) = cpu_table k (is @ js) info"
  by (rule ext) (auto simp: cpu_table_def nth_append)

lemma take_take_append: "take n (take n xs @ ys) = take n (xs @ ys)"
  by (cases "length xs \<le> n") (simp_all add: min_def)

definition scanned :: "nat \<Rightarrow> madt_ent list \<Rightarrow> 'a hw_scheme \<Rightarrow> 'a hw_scheme" where
  "scanned k es s = s\<lparr>ncpu := ncpu s + word_of_nat (length (enabled_ids es)), arch_info := cpu_table k (enabled_ids es) (arch_info s),
     ioapics := take MAX_IOAPIC (ioapics s @ ioapic_ents es)\<rparr>"

lemma scanned_Cons: "scanned (k + length (enabled_ids [e])) es (after k e s) = scanned k (e # es) s"
  by (simp add: scanned_def after_def enabled_ids_append [of e es] cpu_table_append add.assoc take_take_append del: take_append)

lemma after_mem [simp]: "mem (after k e s) = mem s"
  by (simp add: after_def)

lemma madt_entries_run:
  assumes "load_bytes (mem s) p (length (madt_bytes es)) = madt_bytes es" "\<forall>e \<in> set es. ent_ok e" "length (ioapics s) \<le> MAX_IOAPIC"
    and "unat p + length (madt_bytes es) < 2 ^ 32" "length es < n" "k + length es < 2 ^ 32"
  shows "madt_entries n p (p + word_of_nat (length (madt_bytes es))) (0 < k) (next_ap k) s = Inr ((), scanned k es s)"
  using assms
proof (induction es arbitrary: n p k s)
  case Nil
  then show ?case by (cases n) (simp_all add: madt_bytes_def monad_defs scanned_def cpu_table_Nil)
next
  case (Cons e es)
  then obtain n' where n: "n = Suc n'" by (cases n) auto
  let ?l = "length (ent_bytes e)"
  have bytes: "madt_bytes (e # es) = ent_bytes e @ madt_bytes es" by (simp add: madt_bytes_def)
  note pre = load_bytes_prefix [OF Cons.prems(1) [unfolded bytes]]
  have len: "ucast (mem s (p + 1)) = (word_of_nat ?l :: u32)" "0 < ?l"
    using ent_length_field [OF pre(1)] Cons.prems(2) by simp_all
  have fit: "unat p + ?l + length (madt_bytes es) < 2 ^ 32" using Cons.prems(4) by (simp add: bytes)
  then have un: "unat (p + word_of_nat ?l) = unat p + ?l" "unat (p + word_of_nat (?l + length (madt_bytes es))) = unat p + ?l + length (madt_bytes es)"
    by (simp_all add: unat_word_ariths unat_of_nat)
  have lt: "p < p + word_of_nat (length (madt_bytes (e # es)))"
    using un(2) len(2) by (simp add: bytes word_less_nat_alt)
  have one: "madt_entry p (0 < k) (next_ap k) s = Inr ((0 < k + length (enabled_ids [e]), next_ap (k + length (enabled_ids [e]))), after k e s)"
    using Cons.prems by (intro madt_entry_run pre) auto
  have "length (enabled_ids [e]) \<le> 1" by (cases e) simp_all
  then have "madt_entries n' (p + word_of_nat ?l) (p + word_of_nat ?l + word_of_nat (length (madt_bytes es)))
      (0 < k + length (enabled_ids [e])) (next_ap (k + length (enabled_ids [e]))) (after k e s) = Inr ((), scanned (k + length (enabled_ids [e])) es (after k e s))"
    using Cons.prems fit un n pre(2) by (intro Cons.IH) (auto simp: after_def)
  then show ?case
    using lt one len by (simp add: n monad_defs bytes scanned_Cons add.assoc)
qed

text \<open>Switching the interrupt lines changes only the ports.\<close>

definition same_scan :: "'a hw_scheme \<Rightarrow> 'a hw_scheme \<Rightarrow> bool" where
  "same_scan t s \<longleftrightarrow> (\<exists>o' i'. t = s\<lparr>outs := o', ins := i'\<rparr>)"

lemma imcr_run:
  assumes "b \<longrightarrow> ins s 0x23 \<noteq> []"
  shows "\<exists>t. whenK b imcr_to_apic s = Inr ((), t) \<and> same_scan t s"
proof (cases b)
  case True
  then obtain v r where "ins s 0x23 = v # r" using assms by (cases "ins s 0x23") auto
  then have "imcr_to_apic s = Inr ((), s\<lparr>outs := (0x23, v OR 1) # (0x22, 0x70) # outs s, ins := (ins s)(0x23 := r)\<rparr>)"
    by (simp add: imcr_to_apic_def outb_def inb_def monad_defs)
  with True show ?thesis unfolding same_scan_def whenK_def by auto
next
  case False
  have "s = s\<lparr>outs := outs s, ins := ins s\<rparr>" by simp
  then have "same_scan s s" unfolding same_scan_def by blast
  with False show ?thesis by (simp add: whenK_def returnK_def)
qed

lemma ent_bytes_pos: "0 < length (ent_bytes e)"
  by (cases e) simp_all

lemma entries_le_bytes: "length es \<le> length (madt_bytes es)"
proof (induction es)
  case (Cons e es)
  then show ?case using ent_bytes_pos [of e] by (simp add: madt_bytes_def del: length_greater_0_conv)
qed (simp add: madt_bytes_def)

section \<open>Property\<close>

text \<open>C37: on a machine with an ACPI table of interrupt controllers, \<open>pcpu_mp_init\<close> ends and registers exactly what the
  table lists: the address of the local controllers, the number of enabled processors, for each of the first \<open>NUM_CPUS\<close>
  of them its controller id, with the first one and no other as boot processor, and the I/O controllers, up to
  \<open>MAX_IOAPIC\<close>; entries of other types, of any length, are skipped; and the start code for the other
  processors is in its place.\<close>

theorem pcpu_mp_init_correct:
  assumes "\<not> mp_inited s" "madt_addr s = Inr (madt, s)" "madt \<noteq> 0" "length (ioapics s) \<le> MAX_IOAPIC"
    and "sdt_length (mem s) madt = word_of_nat (44 + length (madt_bytes es))" "unat madt + 44 + length (madt_bytes es) < 2 ^ 32"
    and "load_bytes (mem s) (madt + 44) (length (madt_bytes es)) = madt_bytes es" "\<forall>e \<in> set es. ent_ok e"
    and "load32 (mem s) (madt + 40) AND APIC_MADT_PCAT_COMPAT = 0 \<longrightarrow> ins s 0x23 \<noteq> []"
  shows "\<exists>s'. pcpu_mp_init s = Inr (True, s') \<and> mp_inited s' \<and> ismp s' \<and> lapic s' = load32 (mem s) (madt + 36) \<and>
    ncpu s' = word_of_nat (length (enabled_ids es)) \<and>
    (\<forall>c < NUM_CPUS. unat c < length (enabled_ids es) \<longrightarrow>
      pi_lapicid (arch_info s' c) = ucast (enabled_ids es ! unat c) \<and> pi_bsp (arch_info s' c) = (c = 0)) \<and>
    ioapics s' = take MAX_IOAPIC (ioapics s @ ioapic_ents es) \<and>
    mem s' = memmove 0x8000 (boot_ap_start s) (boot_ap_size s) (mem s)"
proof -
  let ?s1 = "s\<lparr>ismp := True, lapic := load32 (mem s) (madt + 36), ncpu := 0\<rparr>"
  have un: "unat (madt + 44) = unat madt + 44" "unat (sdt_length (mem s) madt) = 44 + length (madt_bytes es)"
    using assms(5,6) by (simp_all add: unat_word_ariths unat_of_nat)
  note short = entries_le_bytes [of es]
  have "madt_entries (unat (sdt_length (mem s) madt) + 1) (madt + 44) (madt + 44 + word_of_nat (length (madt_bytes es))) (0 < (0::nat)) (next_ap 0) ?s1
      = Inr ((), scanned 0 es ?s1)"
    using assms(4,6,7,8) un short by (intro madt_entries_run) simp_all
  then have scan: "madt_entries (unat (sdt_length (mem s) madt) + 1) (madt + 44) (madt + sdt_length (mem s) madt) False 1 ?s1
      = Inr ((), scanned 0 es ?s1)"
    using assms(5) by (simp add: next_ap_def add.assoc)
  have imcr: "\<exists>t'. whenK (load32 (mem s) (madt + 40) AND APIC_MADT_PCAT_COMPAT = 0) imcr_to_apic (scanned 0 es ?s1) = Inr ((), t') \<and>
      same_scan t' (scanned 0 es ?s1)"
    using assms(9) by (intro imcr_run) (simp add: scanned_def)
  then obtain t' where t': "whenK (load32 (mem s) (madt + 40) AND APIC_MADT_PCAT_COMPAT = 0) imcr_to_apic (scanned 0 es ?s1) = Inr ((), t')"
    and same: "same_scan t' (scanned 0 es ?s1)" by blast
  have "pcpu_mp_init s = Inr (True, t'\<lparr>mem := memmove 0x8000 (boot_ap_start t') (boot_ap_size t') (mem t'), mp_inited := True\<rparr>)"
    using assms(1-3) scan t' by (simp add: pcpu_mp_init_def lapic_register_def monad_defs)
  with same show ?thesis
    by (auto simp: same_scan_def scanned_def cpu_table_def)
qed

text \<open>A machine with two enabled processors and one I/O controller.\<close>

definition demo_es :: "madt_ent list" where
  "demo_es = [Lapic 0 0 1, Other 2 [0, 0, 0, 0, 0, 0, 0, 0], Lapic 1 3 1, Lapic 2 5 0, Ioapic 4 0 0xFEC00000 0]"

definition demo_rsdp :: bytes where
  "demo_rsdp = [82, 83, 68, 32, 80, 84, 82, 32, 185, 0, 0, 0, 0, 0, 0, 2, 0, 0, 0, 0, 36, 0, 0, 0, 0, 1, 1, 0, 0, 0, 0, 0, 0, 0, 0, 0]"

definition demo_xsdt :: bytes where
  "demo_xsdt = [88, 83, 68, 84, 44, 0, 0, 0, 1, 141, 0, 0, 0, 0, 0, 0, 0, 0, 0, 0, 0, 0, 0, 0, 0, 0, 0, 0, 0, 0, 0, 0, 0, 0, 0, 0, 0, 2, 1, 0, 0, 0, 0, 0]"

definition demo_header :: bytes where
  "demo_header = [65, 80, 73, 67, 90, 0, 0, 0, 1, 169, 0, 0, 0, 0, 0, 0, 0, 0, 0, 0, 0, 0, 0, 0, 0, 0, 0, 0, 0, 0, 0, 0, 0, 0, 0, 0, 0, 0, 224, 254, 1, 0, 0, 0]"

definition demo_madt :: bytes where
  "demo_madt = demo_header @ madt_bytes demo_es"

definition demo_acpi_mem :: memory where
  "demo_acpi_mem = store_bytes 0x40F [0x10] (store_bytes 0x10000 demo_rsdp (store_bytes 0x10100 demo_xsdt (store_bytes 0x10200 demo_madt (\<lambda>_. 0))))"

definition demo_acpi :: hw where
  "demo_acpi = demo_hw\<lparr>mem := demo_acpi_mem, mp_inited := False, boot_ap_start := 0x20000, boot_ap_size := 64\<rparr>"

lemma demo_es_bytes: "madt_bytes demo_es = [0, 8, 0, 0, 1, 0, 0, 0, 2, 10, 0, 0, 0, 0, 0, 0, 0, 0, 0, 8, 1, 3, 1, 0, 0, 0, 0, 8, 2, 5, 0, 0, 0, 0, 1, 12, 4, 0, 0, 0, 192, 254, 0, 0, 0, 0]"
  by (simp add: demo_es_def madt_bytes_def bytes32_def ACPI_MADT_APIC_LAPIC_def ACPI_MADT_APIC_IOAPIC_def)

lemmas demo_tables = demo_acpi_mem_def demo_rsdp_def demo_xsdt_def demo_madt_def demo_header_def demo_es_bytes

lemma load_store_bytes: "length xs < 2 ^ 32 \<Longrightarrow> n = length xs \<Longrightarrow> load_bytes (store_bytes a xs m) a n = xs"
  by (rule nth_equalityI) (simp_all add: load_bytes_def store_bytes_def unat_of_nat)

lemma store_bytes_other:
  assumes "unat x < unat b \<and> unat b + length xs \<le> 2 ^ 32 \<or> unat b + length xs \<le> unat x"
  shows "store_bytes b xs m x = m x"
proof -
  have "unat x < 2 ^ 32" "unat b < 2 ^ 32" using unsigned_less [of x] unsigned_less [of b] by simp_all
  with assms show ?thesis by (auto simp: store_bytes_def unat_sub_if_size word_size)
qed

lemma load_store_other:
  assumes "unat a + n \<le> unat b \<and> unat b + length xs \<le> 2 ^ 32 \<or> unat b + length xs \<le> unat a \<and> unat a + n \<le> 2 ^ 32"
  shows "load_bytes (store_bytes b xs m) a n = load_bytes m a n"
  unfolding load_bytes_def
proof (rule map_cong [OF refl])
  fix i assume "i \<in> set [0..<n]"
  then have "unat (a + word_of_nat i) = unat a + i" "i < n" using assms by (auto simp: unat_word_ariths unat_of_nat)
  with assms show "store_bytes b xs m (a + word_of_nat i) = m (a + word_of_nat i)" by (intro store_bytes_other) auto
qed

lemma demo_lengths: "length demo_rsdp = 36" "length demo_xsdt = 44" "length demo_madt = 90"
  by (simp_all add: demo_rsdp_def demo_xsdt_def demo_madt_def demo_header_def demo_es_bytes)

lemma demo_loads:
  "load_bytes demo_acpi_mem 0x10000 36 = demo_rsdp" "load_bytes demo_acpi_mem 0x10100 44 = demo_xsdt"
  "load_bytes demo_acpi_mem 0x10200 90 = demo_madt"
  by (simp_all add: demo_acpi_mem_def demo_lengths load_store_bytes load_store_other)

lemma demo_sums: "sum_bytes demo_acpi_mem 0x10000 36 = 0" "sum_bytes demo_acpi_mem 0x10100 44 = 0" "sum_bytes demo_acpi_mem 0x10200 90 = 0"
  by (simp_all add: sum_bytes_def demo_loads) (simp_all add: demo_tables)

lemma demo_words:
  "push_bit 4 (bda_word demo_acpi_mem 14) = 0x10000" "load32 demo_acpi_mem 0x10000 = ACPI_RSDP_SIG1" "load32 demo_acpi_mem 0x10004 = ACPI_RSDP_SIG2"
  "load32 demo_acpi_mem 0x10018 = 0x10100" "load32 demo_acpi_mem 0x10100 = ACPI_XSDT_SIG" "load32 demo_acpi_mem 0x10104 = 44"
  "load32 demo_acpi_mem 0x10124 = 0x10200" "load32 demo_acpi_mem 0x10200 = ACPI_MADT_SIG" "load32 demo_acpi_mem 0x10204 = 90"
  "load32 demo_acpi_mem 0x10224 = 0xFEE00000" "load32 demo_acpi_mem 0x10228 = 1"
  by (simp_all add: demo_tables store_bytes_def load32_def bda_word_def unsigned_minus_1_eq_mask ACPI_RSDP_SIG1_def ACPI_RSDP_SIG2_def ACPI_XSDT_SIG_def ACPI_MADT_SIG_def)

lemma demo_rsdp_hit: "rsdp_loop (Suc k) 0x10000 0x10400 demo_acpi = Inr (0x10000, demo_acpi)"
  by (simp add: bindK_def readK_def returnK_def demo_acpi_def demo_words demo_sums rsdp_size_def)

lemma demo_rsdp_found: "acpi_probe_rsdp demo_acpi = Inr (0x10000, demo_acpi)"
proof -
  have "push_bit 4 (bda_word (mem demo_acpi) 14) = 0x10000" by (simp add: demo_acpi_def demo_words)
  moreover have "acpi_probe_rsdp_aux 0x10000 1024 demo_acpi = Inr (0x10000, demo_acpi)"
    using demo_rsdp_hit [of 65] by (simp add: acpi_probe_rsdp_aux_def del: rsdp_loop.simps)
  ultimately show ?thesis by (simp add: acpi_probe_rsdp_def bindK_def readK_def returnK_def)
qed

lemma demo_xsdt_found: "acpi_probe_xsdt 0x10000 demo_acpi = Inr (0x10100, demo_acpi)"
  by (simp add: acpi_probe_xsdt_def monad_defs demo_acpi_def demo_words demo_sums xsdt_addr_def sdt_sig_def sdt_length_def)

lemma demo_ent_hit: "sdt_ent_loop (Suc k) 8 0x10124 0x1012C ACPI_MADT_SIG demo_acpi = Inr (0x10200, demo_acpi)"
  by (simp add: bindK_def readK_def returnK_def demo_acpi_def demo_words demo_sums sdt_sig_def sdt_length_def)

lemma demo_ent_found: "acpi_probe_xsdt_ent 0x10100 ACPI_MADT_SIG demo_acpi = Inr (0x10200, demo_acpi)"
proof -
  have "sdt_length (mem demo_acpi) 0x10100 = 44" by (simp add: demo_acpi_def demo_words sdt_length_def)
  then show ?thesis
    using demo_ent_hit [of 6] by (simp add: acpi_probe_xsdt_ent_def monad_defs del: sdt_ent_loop.simps)
qed

lemma demo_madt_addr: "madt_addr demo_acpi = Inr (0x10200, demo_acpi)"
  by (simp add: madt_addr_def bindK_def demo_rsdp_found demo_xsdt_found demo_ent_found)

lemma demo_enabled: "enabled_ids demo_es = [0, 3]" "ioapic_ents demo_es = [\<lparr>io_base = 0xFEC00000, io_id = 4, io_gsi = 0\<rparr>]"
  by (simp_all add: demo_es_def ACPI_APIC_ENABLED_def)

lemma demo_hyps:
  "\<not> mp_inited demo_acpi" "ioapics demo_acpi = []" "mem demo_acpi = demo_acpi_mem" "length (madt_bytes demo_es) = 46"
  "load_bytes demo_acpi_mem 0x1022C 46 = madt_bytes demo_es" "\<forall>e \<in> set demo_es. ent_ok e"
proof -
  have "length demo_header = 44" "length (madt_bytes demo_es) = 46" by (simp_all add: demo_header_def demo_es_bytes)
  then show "load_bytes demo_acpi_mem 0x1022C 46 = madt_bytes demo_es"
    using load_bytes_prefix(2) [of demo_acpi_mem "0x10200" demo_header "madt_bytes demo_es"] demo_loads(3) by (simp add: demo_madt_def)
  show "length (madt_bytes demo_es) = 46" by (simp add: demo_es_bytes)
  show "\<forall>e \<in> set demo_es. ent_ok e" by (simp add: demo_es_def ACPI_MADT_APIC_LAPIC_def ACPI_MADT_APIC_IOAPIC_def)
qed (simp_all add: demo_acpi_def demo_hw_def hw.defs con.defs)

theorem pcpu_mp_init_witness:
  "\<exists>s'. pcpu_mp_init demo_acpi = Inr (True, s') \<and> ncpu s' = 2 \<and> lapic s' = 0xFEE00000 \<and>
    pi_lapicid (arch_info s' 1) = 3 \<and> \<not> pi_bsp (arch_info s' 1) \<and> ioapics s' = [\<lparr>io_base = 0xFEC00000, io_id = 4, io_gsi = 0\<rparr>]"
proof -
  obtain s' where s': "pcpu_mp_init demo_acpi = Inr (True, s')" "lapic s' = load32 (mem demo_acpi) (0x10200 + 36)"
    "ncpu s' = word_of_nat (length (enabled_ids demo_es))"
    "\<forall>c < NUM_CPUS. unat c < length (enabled_ids demo_es) \<longrightarrow>
      pi_lapicid (arch_info s' c) = ucast (enabled_ids demo_es ! unat c) \<and> pi_bsp (arch_info s' c) = (c = 0)"
    "ioapics s' = take MAX_IOAPIC (ioapics demo_acpi @ ioapic_ents demo_es)"
    using pcpu_mp_init_correct [where s = demo_acpi and madt = "0x10200" and es = demo_es]
    by (auto simp: demo_madt_addr demo_hyps demo_words sdt_length_def APIC_MADT_PCAT_COMPAT_def MAX_IOAPIC_def)
  then show ?thesis
    using s'(4) [THEN spec, of 1] by (simp add: demo_enabled demo_hyps demo_words MAX_IOAPIC_def NUM_CPUS_def)
qed

end
