(* ===== verification/Paths.thy ===== *)
theory Paths
  imports Dir
begin

text \<open>
  Resolution of path names: \<open>namex\<close> scans the bytes of the path as it goes; here the path is first cut into
  its elements, and the loop is shown to be a walk over them.
\<close>

section \<open>Elements of a path\<close>

text \<open>The pieces between slashes, and those that are not empty.\<close>

fun pieces :: "bytes \<Rightarrow> bytes list" where
  "pieces [] = [[]]"
| "pieces (c # p) = (if c = SLASH then [] # pieces p else (c # hd (pieces p)) # tl (pieces p))"

definition elements :: "bytes \<Rightarrow> bytes list" where
  "elements p = filter (\<lambda>e. e \<noteq> []) (pieces p)"

text \<open>The buffer \<open>name\<close> with an element in it, cut to the room in a directory entry.\<close>

definition put_elem :: "bytes \<Rightarrow> bytes \<Rightarrow> bytes" where
  "put_elem name e = (let d = take (DIRSIZ - 1) e in d @ 0 # drop (Suc (length d)) name)"

text \<open>The walk, one directory per element.\<close>

primrec walk :: "bytes list \<Rightarrow> nat \<Rightarrow> bool \<Rightarrow> bytes \<Rightarrow> ('a fs_scheme, nat option \<times> bytes) kern" where
  "walk [] ip want_parent name = (if want_parent then seqK (inode_put ip) (returnK (None, name)) else returnK (Some ip, name))"
| "walk (e # es) ip want_parent name = (let nm = put_elem name e in
     seqK (inode_lock ip) (bindK (get_inode ip) (\<lambda>n.
       if i_type n \<noteq> T_DIR then seqK (inode_unlockput ip) (returnK (None, nm))
       else if want_parent \<and> es = [] then seqK (inode_unlock ip) (returnK (Some ip, nm))
       else bindK (dir_lookup ip nm) (\<lambda>d. case d of
         None \<Rightarrow> seqK (inode_unlockput ip) (returnK (None, nm))
       | Some (dp, _) \<Rightarrow> seqK (inode_unlockput ip) (walk es dp want_parent nm)))))"

section \<open>One round\<close>

lemma pieces_not_Nil: "pieces p \<noteq> []"
  by (cases p) auto

lemma pieces_dropWhile: "pieces p = takeWhile (\<lambda>c. c \<noteq> SLASH) p #
    (case dropWhile (\<lambda>c. c \<noteq> SLASH) p of [] \<Rightarrow> [] | _ # q \<Rightarrow> pieces q)"
  by (induction p) auto

lemma elements_slashes: "elements (dropWhile (\<lambda>c. c = SLASH) p) = elements p"
  by (induction p) (auto simp: elements_def)

lemma elements_Cons:
  assumes "p \<noteq> []" "hd p \<noteq> SLASH"
  shows "elements p = takeWhile (\<lambda>c. c \<noteq> SLASH) p # elements (dropWhile (\<lambda>c. c \<noteq> SLASH) p)"
proof -
  let ?q = "dropWhile (\<lambda>c. c \<noteq> SLASH) p"
  have "takeWhile (\<lambda>c. c \<noteq> SLASH) p \<noteq> []" using assms by (cases p) auto
  moreover have "filter (\<lambda>e. e \<noteq> []) (case ?q of [] \<Rightarrow> [] | _ # q \<Rightarrow> pieces q) = elements ?q"
  proof (cases ?q)
    case (Cons c q)
    then have "c = SLASH" using hd_dropWhile [of "\<lambda>c. c \<noteq> SLASH" p] by simp
    with Cons show ?thesis by (simp add: elements_def)
  qed (simp add: elements_def del: dropWhile_eq_Nil_conv)
  ultimately show ?thesis by (simp add: elements_def pieces_dropWhile [of p])
qed

lemma skip_slashes_eq: "skip_slashes (p @ 0 # r) = Some (dropWhile (\<lambda>c. c = SLASH) p @ 0 # r)"
  by (induction p) (auto simp: SLASH_def)

lemma elem_length_eq: "0 \<notin> set p \<Longrightarrow> elem_length (p @ 0 # r) = Some (length (takeWhile (\<lambda>c. c \<noteq> SLASH) p))"
  by (induction p) auto

lemma strncpy_nonzero:
  assumes "n \<le> length s" "n \<le> length t" "0 \<notin> set (take n t)"
  shows "strncpy s t (int n) = Some (take n t @ drop n s)"
proof -
  have "strncpy_loop s t n = Some (take n t @ drop n s)"
    using assms by (induction s t n rule: strncpy_loop.induct) auto
  then show ?thesis by (simp add: strncpy_def)
qed

lemma copy_elem_eq:
  assumes "0 \<notin> set e" "length name = DIRSIZ"
  shows "copy_elem name (e @ q) (if length e \<ge> DIRSIZ then DIRSIZ - 1 else length e) = Some (put_elem name e)"
proof -
  let ?n = "if length e \<ge> DIRSIZ then DIRSIZ - 1 else length e"
  have n: "?n \<le> length e" "?n < length name" using assms(2) by (auto simp: DIRSIZ_def)
  then have "strncpy name (e @ q) (int ?n) = Some (take ?n e @ drop ?n name)"
    using strncpy_nonzero [of ?n name "e @ q"] assms(1) in_set_takeD [of 0 ?n e] by (simp split del: if_split) blast
  moreover have "(take ?n e @ drop ?n name)[?n := 0] = take ?n e @ 0 # drop (Suc ?n) name"
    using n by (simp add: list_update_append min_def Cons_nth_drop_Suc [symmetric])
  moreover have "take ?n e = take (DIRSIZ - 1) e" "length (take (DIRSIZ - 1) e) = ?n" by (auto simp: DIRSIZ_def)
  ultimately show ?thesis using n assms(2) by (simp add: copy_elem_def put_elem_def Let_def)
qed

text \<open>The rest of the path after the first element and the slashes behind it.\<close>

definition after_elem :: "bytes \<Rightarrow> bytes" where
  "after_elem p = dropWhile (\<lambda>c. c = SLASH) (dropWhile (\<lambda>c. c \<noteq> SLASH) (dropWhile (\<lambda>c. c = SLASH) p))"

lemma after_elem_set: "set (after_elem p) \<subseteq> set p"
  by (auto simp: after_elem_def dest: set_dropWhileD)

lemma after_elem_end: "after_elem p = [] \<longleftrightarrow> elements (after_elem p) = []"
proof (cases "after_elem p")
  case (Cons c q)
  then have "c \<noteq> SLASH" using hd_dropWhile [of "\<lambda>c. c = SLASH"] by (metis after_elem_def list.distinct(1) list.sel(1))
  with Cons show ?thesis using elements_Cons [of "c # q"] by simp
qed (simp add: elements_def)

lemma elements_after:
  assumes "dropWhile (\<lambda>c. c = SLASH) p = c # p'"
  shows "elements p = takeWhile (\<lambda>c. c \<noteq> SLASH) (c # p') # elements (after_elem p)" "length (after_elem p) < length p"
proof -
  have c: "c \<noteq> SLASH" using hd_dropWhile [of "\<lambda>c. c = SLASH" p] assms by simp
  have "elements p = elements (c # p')" using elements_slashes [of p] assms by simp
  also have "\<dots> = takeWhile (\<lambda>c. c \<noteq> SLASH) (c # p') # elements (dropWhile (\<lambda>c. c \<noteq> SLASH) (c # p'))"
    using c by (intro elements_Cons) simp_all
  also have "elements (dropWhile (\<lambda>c. c \<noteq> SLASH) (c # p')) = elements (after_elem p)"
    by (simp only: after_elem_def assms elements_slashes)
  finally show "elements p = takeWhile (\<lambda>c. c \<noteq> SLASH) (c # p') # elements (after_elem p)" .
  have "length (after_elem p) \<le> length (dropWhile (\<lambda>c. c \<noteq> SLASH) (c # p'))"
    unfolding after_elem_def assms by (rule length_dropWhile_le)
  also have "\<dots> \<le> length p'" using c by (simp add: length_dropWhile_le)
  also have "\<dots> < length p" using length_dropWhile_le [of "\<lambda>c. c = SLASH" p] assms by simp
  finally show "length (after_elem p) < length p" .
qed

lemma skipelem_eq:
  assumes "0 \<notin> set p" "length name = DIRSIZ"
  shows "skipelem (p @ 0 # r) name = Some (case elements p of [] \<Rightarrow> None | e # es \<Rightarrow> Some (after_elem p @ 0 # r, put_elem name e))"
proof (cases "dropWhile (\<lambda>c. c = SLASH) p")
  case Nil
  then have "elements p = []" using elements_slashes [of p] by (simp add: elements_def del: dropWhile_eq_Nil_conv)
  with Nil show ?thesis using skip_slashes_eq [of p r] by (cases p) (auto simp: skipelem_def)
next
  case (Cons c p')
  let ?e = "takeWhile (\<lambda>c. c \<noteq> SLASH) (c # p')" and ?d = "dropWhile (\<lambda>c. c \<noteq> SLASH) (c # p')"
  have split: "(c # p') @ 0 # r = ?e @ ?d @ 0 # r" by (simp only: append_assoc [symmetric] takeWhile_dropWhile_id)
  have z: "0 \<notin> set (c # p')" using Cons assms(1) set_dropWhileD [of _ "\<lambda>c. c = SLASH" p] by (metis)
  then have ze: "0 \<notin> set ?e" using set_takeWhileD [of 0] by metis
  have skip: "skip_slashes (p @ 0 # r) = Some ((c # p') @ 0 # r)" using skip_slashes_eq [of p r] Cons by simp
  have len: "elem_length ((c # p') @ 0 # r) = Some (length ?e)" by (rule elem_length_eq [OF z])
  have copy: "copy_elem name ((c # p') @ 0 # r) (if length ?e \<ge> DIRSIZ then DIRSIZ - 1 else length ?e) = Some (put_elem name ?e)"
    unfolding split by (rule copy_elem_eq [OF ze assms(2)])
  have rest: "skip_slashes (drop (length ?e) ((c # p') @ 0 # r)) = Some (after_elem p @ 0 # r)"
    unfolding split using skip_slashes_eq [of ?d r] by (simp only: append_eq_conv_conj [THEN iffD1, OF refl, THEN conjunct2] after_elem_def Cons drop_append length_append) simp
  obtain X where X: "X = (c # p') @ 0 # r" "hd X = c" by simp
  have "skipelem (p @ 0 # r) name = (case skip_slashes (p @ 0 # r) of None \<Rightarrow> None | Some p \<Rightarrow> if hd p = 0 then Some None else
      (case elem_length p of None \<Rightarrow> None | Some n \<Rightarrow>
        (case copy_elem name p (if n \<ge> DIRSIZ then DIRSIZ - 1 else n) of None \<Rightarrow> None
         | Some nm \<Rightarrow> map_option (\<lambda>q. Some (q, nm)) (skip_slashes (drop n p)))))"
    using Cons assms(1) by (cases p) (simp_all add: skipelem_def del: skip_slashes.simps)
  then show ?thesis
    using z X(2) by (simp add: skip [folded X(1)] len [folded X(1)] copy [folded X(1)] rest [folded X(1)] elements_after(1) [OF Cons] del: takeWhile.simps)
qed

lemma elements_step: "elements p = e # es \<Longrightarrow> es = elements (after_elem p) \<and> length (after_elem p) < length p"
  using elements_after [of p] elements_slashes [of p] by (cases "dropWhile (\<lambda>c. c = SLASH) p") (auto simp: elements_def simp del: dropWhile_eq_Nil_conv)

lemma put_elem_length: "length name = DIRSIZ \<Longrightarrow> length (put_elem name e) = DIRSIZ"
  by (simp add: put_elem_def Let_def DIRSIZ_def)

lemma namex_loop_walk:
  assumes "0 \<notin> set p" "length name = DIRSIZ" "length p < k"
  shows "namex_loop k ip (p @ 0 # r) want_parent name = (walk (elements p) ip want_parent name :: ('a fs_scheme, nat option \<times> bytes) kern)"
  using assms
proof (induction k arbitrary: p name ip)
  case (Suc k)
  show ?case
  proof (cases "elements p")
    case Nil
    then show ?thesis using Suc.prems by (simp add: skipelem_eq bytesK_def bindK_def returnK_def)
  next
    case (Cons e es)
    let ?q = "after_elem p"
    have q: "es = elements ?q" "length ?q < length p" "0 \<notin> set ?q"
      using elements_step [OF Cons] after_elem_set [of p] Suc.prems(1) by auto
    have "hd (?q @ 0 # r) = 0 \<longleftrightarrow> es = []"
      using q(1,3) after_elem_end [of p] by (cases ?q) auto
    moreover have "namex_loop k dp (?q @ 0 # r) want_parent (put_elem name e) =
        (walk es dp want_parent (put_elem name e) :: ('a fs_scheme, nat option \<times> bytes) kern)" for dp
      using q Suc.prems by (subst Suc.IH) (simp_all add: put_elem_length)
    ultimately show ?thesis
      using Suc.prems Cons by (simp add: skipelem_eq bytesK_def bindK_def returnK_def Let_def cong: if_cong cong del: option.case_cong_weak)
  qed
qed simp

section \<open>Property\<close>

text \<open>C40: for a path, ended by a null byte, and a buffer for an element, \<open>namex\<close> always ends its loop, and it is the walk
  over the elements of the path, from the root directory if the path begins with a slash and from the working directory
  otherwise: repeated, leading and trailing slashes count for nothing, an element too long for a directory
  entry is cut, what follows the null byte is not read, and the parent is the directory before the last element.\<close>

theorem namex_walks_elements:
  assumes "0 \<notin> set p" "length name = DIRSIZ"
  shows "namex (p @ 0 # r) want_parent name = bindK (if p \<noteq> [] \<and> hd p = SLASH then inode_get ROOTDEV ROOTINO else cwd_inode)
    (\<lambda>ip. (walk (elements p) ip want_parent name :: ('a fs_scheme, nat option \<times> bytes) kern))"
proof -
  have "namex_loop (Suc (length (p @ 0 # r))) ip (p @ 0 # r) want_parent name =
      (walk (elements p) ip want_parent name :: ('a fs_scheme, nat option \<times> bytes) kern)" for ip
    using assms by (intro namex_loop_walk) simp_all
  then show ?thesis
    by (cases p) (simp_all add: namex_def SLASH_def del: namex_loop.simps)
qed

theorem namex_walks_elements_witness:
  "namex (map of_char ''//usr//bin/'' @ 0 # [7]) True (replicate 14 0) =
     bindK (inode_get ROOTDEV ROOTINO) (\<lambda>ip. walk [map of_char ''usr'', map of_char ''bin''] ip True (replicate 14 0))"
  using namex_walks_elements [of "map of_char ''//usr//bin/''" "replicate 14 0" "[7]" True]
  by (simp add: elements_def SLASH_def DIRSIZ_def of_char_def)

end
