(* ===== verification/Spec2Isabelle.thy ===== *)
theory Spec2Isabelle
  imports Boot PageFault SmpScan Paths
begin

text \<open>
  Verification development of the mCertiKOS teaching kernel (sources under \<open>src/\<close>): a small x86
  kernel with a physical memory manager, memory quotas, two-level paging, threads, a file system
  with a write-ahead log, system calls, and a user library.  The theories follow the layers of the
  kernel from below; each routine of the C code is one definition with the name it has there.

  \<^bold>\<open>The machine and its faults.\<close>  \<open>unsigned int\<close> and addresses are \<open>32 word\<close>, bytes \<open>8 word\<close>, and signed
  comparisons go through \<open>sint\<close>, so that wrap-around is that of the machine.  The state of the kernel
  is a record that every layer extends by its own variables (\<open>base\<close>, \<open>mboot\<close>, \<open>mat\<close>, \<open>container\<close>, \<open>vmm\<close>,
  \<open>thr\<close>, \<open>fs\<close>, \<open>con\<close>, \<open>hw\<close>, \<open>proc\<close>, \<open>boot\<close>); a routine of a layer is polymorphic in what later layers add.
  A routine is a function of type \<open>('s, 'a) kern\<close> from a state to either a fault or a result and a
  state (theory \<open>Prelude\<close>).  The faults are a failed assertion or panic, an index outside an array, a
  null pointer, spinning forever on a lock, a loop that does not end, and going to sleep where the
  model has no other thread to run; none of them is a result.  Pointers to elements of the kernel's
  tables are indices; physical memory is one store of bytes, so that page tables, page directories
  and user pages alias as they do on the machine.  The build modelled has \<open>DEBUG_MSG\<close> on and
  \<open>DEBUG_LOCKHOLDING\<close> and \<open>DEBUG_DEADLOCK\<close> off.

  \<^bold>\<open>Theories.\<close>
  \<^item> \<open>Prelude\<close>: word types, the monad and its combinators, the predicate transformer \<open>wpK\<close>, lists.
  \<^item> \<open>Locks\<close>: \<open>kern/pcpu\<close>, \<open>kern/lib/spinlock.c\<close>, \<open>reentrant_lock.c\<close>, \<open>kstack.c\<close>.  Sequentially a spin lock is
    a field of the state; \<open>spin_step\<close> is the same code as a relation on interleaved CPUs.
  \<^item> \<open>Mboot\<close>, \<open>MAT\<close>, \<open>MContainer\<close>: \<open>kern/dev/mboot.c\<close> and \<open>kern/pmm\<close>, the memory map, the page allocator,
    the quotas.
  \<^item> \<open>Memory\<close>, \<open>MPT\<close>, \<open>VMSpace\<close>, \<open>VMInit\<close>: \<open>kern/vmm\<close>, the page tables in physical memory, the invariant on
    who owns which page, and its establishment by \<open>paging_init\<close>.
  \<^item> \<open>CLib\<close>, \<open>CString\<close>: \<open>kern/lib/string.c\<close>, \<open>kern/lib/types.c\<close>, \<open>user/lib/string.c\<close>, \<open>user/lib/atoi.c\<close>.
  \<^item> \<open>PMap\<close>: \<open>kern/lib/pmap.c\<close> and \<open>elf.c\<close>, access to user memory and the loader.
  \<^item> \<open>Threads\<close>, \<open>TQueue\<close>, \<open>Sched\<close>: \<open>kern/thread\<close>, contexts, control blocks, queues, and the scheduler as
    operations on a list of ready threads.
  \<^item> \<open>Disk\<close>, \<open>BCache\<close>, \<open>Log\<close>, \<open>Recovery\<close>, \<open>Inode\<close>, \<open>Dir\<close>, \<open>Paths\<close>: \<open>kern/dev/disk/ide.c\<close> and \<open>kern/fs\<close>, from the
    driver up to path names and open files.
  \<^item> \<open>PrintFmt\<close>, \<open>Console\<close>: \<open>printfmt.c\<close> of kernel and user library, \<open>kern/dev/video.c\<close>, \<open>serial.c\<close>,
    \<open>keyboard.c\<close>, \<open>console.c\<close>, \<open>kern/lib/dprintf.c\<close>, \<open>debug.c\<close>.
  \<^item> \<open>Apic\<close>: the rest of \<open>kern/dev/intr.c\<close> and \<open>pic.c\<close>, \<open>lapic.c\<close>, \<open>ioapic.c\<close>, \<open>timer.c\<close>, \<open>tsc.c\<close>, \<open>kvm.c\<close>, the interrupt
    controllers and clocks.  A port or register that is read is a list of the values to come, one that is
    written a list of what was written.
  \<^item> \<open>Smp\<close>, \<open>SmpScan\<close>: \<open>kern/dev/acpi.c\<close>, \<open>pcpu_mp.c\<close>, the tables of the firmware in physical memory and the
    registration, start and identification of processors.
  \<^item> \<open>Intr\<close>, \<open>Proc\<close>, \<open>SysFile\<close>, \<open>Syscall\<close>, \<open>Trap\<close>, \<open>Boot\<close>: \<open>kern/dev/intr.c\<close>, \<open>idt.S\<close>, \<open>kern/lib/seg.c\<close>,
    \<open>kern/proc\<close>, \<open>kern/fs/sysfile.c\<close>, \<open>kern/trap\<close>, \<open>kern/dev/devinit.c\<close>, \<open>kern/init/init.c\<close>.
  \<^item> \<open>Keeps\<close>, \<open>FsTypes\<close>, \<open>PageFault\<close>: no code, but rules for properties that every routine keeps (\<open>keepsK\<close>, one
    rule per combinator and per routine), and what they give for whole traps.

  \<^bold>\<open>What is shown.\<close>
  \<^item> Locks: mutual exclusion under every interleaving, nesting of reentrant locks.  The locale \<open>mutex\<close>
    states the contract of a lock; the spin lock is its instance.
  \<^item> Memory: the memory map covers what the boot loader reported, the allocation table has only usable
    pages, the allocator never hands out a page twice, quotas are kept and quota left means a page can
    be had.  The locale \<open>page_allocator\<close> is what containers and page tables rely on.
  \<^item> Paging: no physical page is reachable through two virtual pages, and none of the kernel's is
    reachable at all; mapping, unmapping and allocation change exactly one translation; the copies
    between kernel and user memory deliver the bytes across page boundaries and touch nothing else.
  \<^item> Threads: the linked queues implement lists (locale \<open>fifo\<close>), the scheduler is round robin, sleeping
    threads are woken.
  \<^item> File system: the buffer cache implements a store of sectors, a commit of the log is atomic with
    respect to crashes, path lookup is the walk over the elements of the path.
  \<^item> Traps: no exception, interrupt or system call leaves the tables of the file system ill-typed; a page
    fault maps exactly one fresh page and resumes the process.  The locale \<open>vm_frame\<close> collects the state
    that paging does not touch, and is instantiated by both.
  \<^item> Processors: the probe registers exactly the processors and controllers in the table of the firmware.
  \<^item> Libraries, console and traps: block moves, strings, formatting and its inverse, bounds of
    \<open>vsnprintf\<close>, cursor and screen, the gates open to user code, and the round trip of trap frames.
  \<^item> Where the code does not do what it means to, the theorem states what it does (a leaked lock, a
    lost page, a wrapped quota, an ignored failure, an empty ready queue).

  \<^bold>\<open>Bounds and fuel.\<close>  Loops over a range are recursions on the list of indices; loops on words that stop at
  a bound recurse on the distance to it.  A loop that need not end carries fuel and ends in the fault
  \<open>Diverge\<close>: a theorem that a routine returns excludes this fault, so the fuel is part of what is proved.
  The page allocator walks at most as many pages as there are (\<open>palloc_loop\<close>), the scan of a string at
  most to the end of memory, the disk driver at most as many requests as there are buffers.

  \<^bold>\<open>Interleaving.\<close>  Kernel code runs with interrupts off except in the idle loop, and shared tables are
  behind locks; a routine is therefore a sequential function of the state, and acquiring a lock that is
  taken is the fault \<open>Spin\<close>.  A context switch makes the other thread's saved context current; the code
  after it belongs to the thread when it runs again.  A thread of the file system that would sleep is
  the fault \<open>Blocked\<close>; a request to the disk is completed by its interrupt before the driver returns.

  \<^bold>\<open>Parameters.\<close>  The contents of the disk with the sectors that fail, the keyboard and serial input, the
  values read from ports, device registers, the time stamp counter and \<open>cpuid\<close>, the memory map of the boot
  loader and the tables of the firmware, the images of the user programs and the addresses of symbols
  are fields of the state or arguments.  A read of a device whose list of values is empty is the fault
  \<open>Blocked\<close>, so polling a device needs no other bound.

  \<^bold>\<open>Not modelled.\<close>  The boot loader (\<open>boot/\<close>, 16 bit assembly and BIOS calls before the kernel runs) and the
  assembly in front of the first C function (\<open>entry.S\<close>, \<open>boot_ap.S\<close>); the second drivers of the interrupt
  controllers in \<open>kern/dev/disk\<close>, which only switch on the line of the disk; the messages of the probes;
  the parts of \<open>x86.c\<close> that only move a value between C and a register; the debugging monitor, which no
  code enters; the test programs of the layers (\<open>test.c\<close>); the user programs and the user side of
  system calls, of which the kernel sees memory and trap frames; scripts.  Constants keep the names of
  the source and stand where they are first used.
\<close>

end
